(* ===== verification/Prelude.thy ===== *)
theory Prelude
  imports Main "HOL-Library.AList"
begin

text \<open>
  What every component of the development shares: the JavaScript values and containers the
  source computes with (\<open>Map\<close>, \<open>Set\<close>, plain objects, JSON values, \<open>split\<close>/\<open>join\<close>), its
  exceptions, the collections of simplification rules the component theories fill, and a
  locale for "every operation keeps this invariant".

  A JavaScript string is modelled by the bytes of its UTF-8 form (a \<^typ>\<open>string\<close> is a list of
  8-bit characters). A JavaScript \<open>Map\<close> remembers the order in which its keys were first
  inserted, overwrites in place, and forgets the position of a deleted key: it is an
  association list under the library's \<^const>\<open>AList.update\<close> and \<^const>\<open>AList.delete\<close>. A
  \<open>Set\<close> is a list without duplicates, in insertion order.
\<close>

named_theorems jmap_simps "how lookups, keys and sizes of a Map change"
named_theorems inv_intros "operations that keep a component's invariant"
named_theorems frame_simps "fields an operation leaves alone"

subsection \<open>Exceptions\<close>

text \<open>
  The values the source throws: an \<open>HttpError\<close> with its status, any other \<open>Error\<close> with its
  message, and a thrown value that is not an \<open>Error\<close> at all.
\<close>

datatype exn = Http_Error nat string | Plain_Error string | Not_An_Error

type_synonym 'a res = "exn + 'a"

definition is_ok :: "'e + 'a \<Rightarrow> bool" where
  "is_ok r = (case r of Inl _ \<Rightarrow> False | Inr _ \<Rightarrow> True)"

lemma is_ok_simps [simp]: "is_ok (Inr x)" "\<not> is_ok (Inl e)"
  by (simp_all add: is_ok_def)

lemma is_ok_iff: "is_ok r \<longleftrightarrow> (\<exists>x. r = Inr x)"
  by (cases r) auto

subsection \<open>Map\<close>

type_synonym 'v jmap = "(string \<times> 'v) list"

definition jm_get :: "('k \<times> 'v) list \<Rightarrow> 'k \<Rightarrow> 'v option" where
  "jm_get m k = map_of m k"

definition jm_has :: "('k \<times> 'v) list \<Rightarrow> 'k \<Rightarrow> bool" where
  "jm_has m k = (map_of m k \<noteq> None)"

definition jm_set :: "'k \<Rightarrow> 'v \<Rightarrow> ('k \<times> 'v) list \<Rightarrow> ('k \<times> 'v) list" where
  "jm_set k v m = AList.update k v m"

definition jm_delete :: "'k \<Rightarrow> ('k \<times> 'v) list \<Rightarrow> ('k \<times> 'v) list" where
  "jm_delete k m = AList.delete k m"

definition jm_keys :: "('k \<times> 'v) list \<Rightarrow> 'k list" where
  "jm_keys m = map fst m"

definition jm_values :: "('k \<times> 'v) list \<Rightarrow> 'v list" where
  "jm_values m = map snd m"

definition jm_ok :: "('k \<times> 'v) list \<Rightarrow> bool" where
  "jm_ok m = distinct (map fst m)"

text \<open>
  The interface of a keyed container: what a lookup returns after a write or a delete, and
  that the keys are exactly the ones with a value. The components use \<open>Map\<close> through these
  laws only.
\<close>

locale keyed_store =
  fixes get :: "'m \<Rightarrow> 'k \<Rightarrow> 'v option"
    and put :: "'k \<Rightarrow> 'v \<Rightarrow> 'm \<Rightarrow> 'm"
    and del :: "'k \<Rightarrow> 'm \<Rightarrow> 'm"
    and keys :: "'m \<Rightarrow> 'k list"
    and ok :: "'m \<Rightarrow> bool"
  assumes get_put: "get (put k v m) = (get m)(k \<mapsto> v)"
    and get_del: "get (del k m) = (get m)(k := None)"
    and set_keys: "set (keys m) = {k. get m k \<noteq> None}"
    and ok_put: "ok m \<Longrightarrow> ok (put k v m)"
    and ok_del: "ok m \<Longrightarrow> ok (del k m)"
    and ok_keys: "ok m \<Longrightarrow> distinct (keys m)"
begin

lemma get_put_same: "get (put k v m) k = Some v"
  by (simp add: get_put)

lemma get_put_other: "k' \<noteq> k \<Longrightarrow> get (put k v m) k' = get m k'"
  by (simp add: get_put)

lemma get_del_same: "get (del k m) k = None"
  by (simp add: get_del)

lemma get_del_other: "k' \<noteq> k \<Longrightarrow> get (del k m) k' = get m k'"
  by (simp add: get_del)

lemma keys_put: "set (keys (put k v m)) = insert k (set (keys m))"
  by (auto simp: set_keys get_put)

lemma keys_del: "set (keys (del k m)) = set (keys m) - {k}"
  by (auto simp: set_keys get_del)

lemma del_put_absent: "get m k = None \<Longrightarrow> get (del k (put k v m)) = get m"
  by (auto simp: get_del get_put fun_eq_iff)

lemma no_keys: "keys m = [] \<longleftrightarrow> get m = Map.empty"
  unfolding set_empty [symmetric] set_keys by auto

end

interpretation jm: keyed_store jm_get jm_set jm_delete jm_keys jm_ok
proof
  show "jm_get (jm_set k v m) = (jm_get m)(k \<mapsto> v)" for k :: 'a and v :: 'b and m
    by (simp add: jm_get_def jm_set_def update_conv' fun_eq_iff)
  show "jm_get (jm_delete k m) = (jm_get m)(k := None)" for k :: 'a and m :: "('a \<times> 'b) list"
    by (simp add: jm_get_def jm_delete_def delete_conv' fun_eq_iff)
  show "set (jm_keys m) = {k. jm_get m k \<noteq> None}" for m :: "('a \<times> 'b) list"
    by (auto simp: jm_keys_def jm_get_def map_of_eq_None_iff)
  show "jm_ok m \<Longrightarrow> jm_ok (jm_set k v m)" for k :: 'a and v :: 'b and m
    by (simp add: jm_ok_def jm_set_def distinct_update)
  show "jm_ok m \<Longrightarrow> jm_ok (jm_delete k m)" for k :: 'a and m :: "('a \<times> 'b) list"
    by (simp add: jm_ok_def jm_delete_def distinct_delete)
  show "jm_ok m \<Longrightarrow> distinct (jm_keys m)" for m :: "('a \<times> 'b) list"
    by (simp add: jm_ok_def jm_keys_def)
qed

lemma jm_has_get: "jm_has m k \<longleftrightarrow> jm_get m k \<noteq> None"
  by (simp add: jm_has_def jm_get_def)

lemma jm_has_keys: "jm_has m k \<longleftrightarrow> k \<in> set (jm_keys m)"
  by (simp add: jm_has_get jm.set_keys)

lemma jm_has_set [jmap_simps]: "jm_has (jm_set k v m) k' \<longleftrightarrow> k' = k \<or> jm_has m k'"
  by (auto simp: jm_has_get jm.get_put)

lemma jm_has_delete [jmap_simps]: "jm_has (jm_delete k m) k' \<longleftrightarrow> k' \<noteq> k \<and> jm_has m k'"
  by (auto simp: jm_has_get jm.get_del)

lemmas jm_get_simps [jmap_simps] = jm.get_put jm.get_del jm.keys_put jm.keys_del

lemma jm_empty [simp]:
  "jm_get [] k = None" "\<not> jm_has [] k" "jm_keys [] = []" "jm_values [] = []" "jm_ok []"
  "jm_delete k [] = []" "jm_set k v [] = [(k, v)]"
  by (simp_all add: jm_get_def jm_has_def jm_keys_def jm_values_def jm_ok_def jm_delete_def
      jm_set_def)

lemma jm_keys_set:
  "jm_keys (jm_set k v m) = (if jm_has m k then jm_keys m else jm_keys m @ [k])"
  by (simp add: jm_keys_def jm_set_def update_keys jm_has_def map_of_eq_None_iff)

lemma jm_keys_delete: "jm_keys (jm_delete k m) = filter (\<lambda>x. x \<noteq> k) (jm_keys m)"
  by (induction m) (auto simp: jm_keys_def jm_delete_def)

lemma jm_keys_Nil [simp]: "jm_keys m = [] \<longleftrightarrow> m = []"
  by (simp add: jm_keys_def)

lemma jm_values_set_absent:
  "\<not> jm_has m k \<Longrightarrow> jm_values (jm_set k v m) = jm_values m @ [v]"
  by (induction m) (auto simp: jm_has_def jm_values_def jm_set_def split: if_splits)

lemma length_jm_keys [simp]: "length (jm_keys m) = length m" "length (jm_values m) = length m"
  by (simp_all add: jm_keys_def jm_values_def)

lemma set_jm_values: "jm_ok m \<Longrightarrow> set (jm_values m) = {v. \<exists>k. jm_get m k = Some v}"
  by (force simp: jm_ok_def jm_values_def jm_get_def)

lemma jm_delete_absent: "\<not> jm_has m k \<Longrightarrow> jm_delete k m = m"
proof (induction m)
  case Nil
  then show ?case by simp
next
  case (Cons p m)
  then show ?case by (auto simp: jm_has_def jm_delete_def split: if_splits)
qed

lemma jm_delete_set_absent: "\<not> jm_has m k \<Longrightarrow> jm_delete k (jm_set k v m) = m"
proof (induction m)
  case Nil
  then show ?case by (simp add: jm_delete_def jm_set_def)
next
  case (Cons p m)
  then show ?case by (auto simp: jm_has_def jm_delete_def jm_set_def split: if_splits)
qed

subsection \<open>Set\<close>

definition js_add :: "'a \<Rightarrow> 'a list \<Rightarrow> 'a list" where
  "js_add x xs = (if x \<in> set xs then xs else xs @ [x])"

definition js_remove :: "'a \<Rightarrow> 'a list \<Rightarrow> 'a list" where
  "js_remove x xs = filter (\<lambda>y. y \<noteq> x) xs"

lemma set_js_add [simp]: "set (js_add x xs) = insert x (set xs)"
  by (auto simp: js_add_def)

lemma js_add_not_Nil [simp]: "js_add x xs \<noteq> []"
  by (simp add: js_add_def split: if_splits) auto

lemma set_js_remove [simp]: "set (js_remove x xs) = set xs - {x}"
  by (auto simp: js_remove_def)

lemma distinct_js_add [simp]: "distinct (js_add x xs) \<longleftrightarrow> distinct xs"
  by (auto simp: js_add_def)

lemma distinct_js_remove [intro]: "distinct xs \<Longrightarrow> distinct (js_remove x xs)"
  by (simp add: js_remove_def)

lemma find_SomeD: "List.find P xs = Some x \<Longrightarrow> x \<in> set xs \<and> P x"
  by (induction xs) (auto split: if_splits)

lemma find_NoneD: "List.find P xs = None \<Longrightarrow> x \<in> set xs \<Longrightarrow> \<not> P x"
  by (induction xs) (auto split: if_splits)

subsection \<open>JSON values and plain objects\<close>

text \<open>
  The values of a message payload. A number is an \<^typ>\<open>int\<close>: the source never computes with a
  payload's numbers, it only copies and compares them. The fields of an object are an
  association list; reading and spreading (\<open>{ ...a, ...b }\<close>) do not depend on their order.
\<close>

datatype json =
    JNull
  | JBool bool
  | JNum int
  | JStr string
  | JArr "json list"
  | JObj "(string \<times> json) list"

type_synonym obj = "(string \<times> json) list"

definition obj_merge :: "obj \<Rightarrow> obj \<Rightarrow> obj" where
  "obj_merge a b = fold (\<lambda>(k, v) m. jm_set k v m) b a"

lemma obj_merge_Nil [simp]: "obj_merge a [] = a"
  by (simp add: obj_merge_def)

lemma obj_merge_Cons: "obj_merge a ((k, v) # b) = obj_merge (jm_set k v a) b"
  by (simp add: obj_merge_def)

text \<open>Spreading: the right object wins, the left one fills in.\<close>

lemma obj_merge_get:
  "jm_ok b \<Longrightarrow> jm_get (obj_merge a b) k = (case jm_get b k of None \<Rightarrow> jm_get a k | Some v \<Rightarrow> Some v)"
proof (induction b arbitrary: a)
  case Nil
  then show ?case by simp
next
  case (Cons p b)
  obtain k' v where p: "p = (k', v)" by force
  with Cons.prems have ok: "jm_ok b" and absent: "jm_get b k' = None"
    by (auto simp: jm_ok_def jm_get_def map_of_eq_None_iff)
  have "jm_get (obj_merge a (p # b)) k =
      (case jm_get b k of None \<Rightarrow> jm_get (jm_set k' v a) k | Some w \<Rightarrow> Some w)"
    by (simp add: p obj_merge_Cons Cons.IH [OF ok])
  then show ?case
    using absent by (auto simp: p jm_get_def jm.get_put [unfolded jm_get_def] split: option.splits)
qed

lemma obj_merge_ok: "jm_ok a \<Longrightarrow> jm_ok (obj_merge a b)"
  by (induction b arbitrary: a) (auto simp: obj_merge_Cons jm.ok_put)

subsection \<open>split and join\<close>

fun js_split :: "char \<Rightarrow> string \<Rightarrow> string list" where
  "js_split c [] = [[]]"
| "js_split c (x # xs) =
     (if x = c then [] # js_split c xs
      else (case js_split c xs of [] \<Rightarrow> [[x]] | s # ss \<Rightarrow> (x # s) # ss))"

fun js_join :: "string \<Rightarrow> string list \<Rightarrow> string" where
  "js_join sep [] = []"
| "js_join sep [s] = s"
| "js_join sep (s # t # ss) = s @ sep @ js_join sep (t # ss)"

lemma js_split_nonempty [simp]: "js_split c s \<noteq> []"
  by (induction s) (auto split: list.splits)

lemma js_join_Cons: "ss \<noteq> [] \<Longrightarrow> js_join sep (s # ss) = s @ sep @ js_join sep ss"
  by (cases ss) auto

lemma js_join_split: "js_join [c] (js_split c s) = s"
proof (induction s)
  case Nil
  then show ?case by simp
next
  case (Cons x xs)
  then show ?case
  proof (cases "js_split c xs")
    case Nil
    then show ?thesis by simp
  next
    case (Cons s ss)
    with Cons.IH show ?thesis
      by (cases ss) (auto simp: js_join_Cons)
  qed
qed

lemma js_split_segments: "s \<in> set (js_split c t) \<Longrightarrow> c \<notin> set s"
  by (induction t arbitrary: s) (auto split: if_splits list.splits)

lemma js_split_subset: "s \<in> set (js_split c t) \<Longrightarrow> x \<in> set s \<Longrightarrow> x \<in> set t"
  by (induction t arbitrary: s) (fastforce split: if_splits list.splits)+

lemma js_split_no_sep: "c \<notin> set s \<Longrightarrow> js_split c s = [s]"
  by (induction s) auto

lemma js_split_append:
  "c \<notin> set s \<Longrightarrow> js_split c (s @ c # t) = s # js_split c t"
  by (induction s) auto

lemma js_split_join:
  "ss \<noteq> [] \<Longrightarrow> (\<And>s. s \<in> set ss \<Longrightarrow> c \<notin> set s) \<Longrightarrow> js_split c (js_join [c] ss) = ss"
proof (induction ss)
  case Nil
  then show ?case by simp
next
  case (Cons s ss)
  show ?case
  proof (cases "ss = []")
    case True
    with Cons.prems show ?thesis by (simp add: js_split_no_sep)
  next
    case False
    with Cons have "js_split c (js_join [c] ss) = ss" by simp
    with False Cons.prems show ?thesis by (simp add: js_join_Cons js_split_append)
  qed
qed

subsection \<open>Machines and their invariants\<close>

text \<open>
  A component is a state and a step per operation. An invariant that every operation keeps
  holds after any sequence of operations. Each component states the per-operation half as an
  interpretation of this locale.
\<close>

locale invariant_machine =
  fixes step :: "'s \<Rightarrow> 'op \<Rightarrow> 's"
    and inv :: "'s \<Rightarrow> bool"
  assumes step_inv: "inv s \<Longrightarrow> inv (step s op)"
begin

lemma run_inv: "inv s \<Longrightarrow> inv (foldl step s ops)"
  by (induction ops arbitrary: s) (auto intro: step_inv)

lemma run_prefix_inv: "inv s \<Longrightarrow> inv (foldl step s (take n ops))"
  by (rule run_inv)

end

end
