(* ===== verification/Uri.thy ===== *)
theory Uri
  imports Prelude
begin

text \<open>
  The URI functions of the JavaScript library that routes and cookies use, on UTF-8 bytes:
  \<open>encodeURIComponent\<close>, \<open>decodeURIComponent\<close> (which throws on a malformed escape: \<^term>\<open>None\<close>)
  and the parser of \<open>URLSearchParams\<close>. Well-formed UTF-8 is the standard's table of byte
  sequences: no overlong form, no surrogate, nothing above U+10FFFF.
\<close>

subsection \<open>UTF-8\<close>

abbreviation byte :: "char \<Rightarrow> nat" where
  "byte c \<equiv> of_char c"

definition is_cont :: "char \<Rightarrow> bool" where
  "is_cont c \<longleftrightarrow> 128 \<le> byte c \<and> byte c < 192"

text \<open>The second byte a leading byte admits (the only place where the table is not uniform).\<close>

definition second_ok :: "char \<Rightarrow> char \<Rightarrow> bool" where
  "second_ok lead c \<longleftrightarrow> is_cont c
     \<and> (byte lead = 224 \<longrightarrow> 160 \<le> byte c)
     \<and> (byte lead = 237 \<longrightarrow> byte c < 160)
     \<and> (byte lead = 240 \<longrightarrow> 144 \<le> byte c)
     \<and> (byte lead = 244 \<longrightarrow> byte c < 144)"

text \<open>How many bytes a leading byte announces; 0 for a byte that cannot start a sequence.\<close>

definition lead_len :: "char \<Rightarrow> nat" where
  "lead_len c =
     (let b = byte c in
      if b < 128 then 1
      else if 194 \<le> b \<and> b < 224 then 2
      else if 224 \<le> b \<and> b < 240 then 3
      else if 240 \<le> b \<and> b < 245 then 4
      else 0)"

definition code_point :: "string \<Rightarrow> bool" where
  "code_point bs =
     (case bs of
        [] \<Rightarrow> False
      | c # cs \<Rightarrow> lead_len c = length bs
          \<and> (case cs of [] \<Rightarrow> True | d # ds \<Rightarrow> second_ok c d \<and> list_all is_cont ds))"

definition cp_len :: "string \<Rightarrow> nat option" where
  "cp_len s =
     (case s of
        [] \<Rightarrow> None
      | c # _ \<Rightarrow> if code_point (take (lead_len c) s) then Some (lead_len c) else None)"

lemma code_point_length: "code_point bs \<Longrightarrow> 0 < length bs"
  by (cases bs) (auto simp: code_point_def)

lemma cp_len_pos: "cp_len s = Some n \<Longrightarrow> 0 < n \<and> s \<noteq> []"
  using code_point_length [of "take n s"]
  by (fastforce simp: cp_len_def split: list.splits if_splits)

function utf8 :: "string \<Rightarrow> bool" where
  "utf8 s = (if s = [] then True
             else (case cp_len s of None \<Rightarrow> False | Some n \<Rightarrow> utf8 (drop n s)))"
  by pat_completeness auto
termination
  by (relation "measure length") (auto dest: cp_len_pos)

declare utf8.simps [simp del]

lemma utf8_Nil [simp]: "utf8 []"
  by (simp add: utf8.simps)

lemma utf8_ascii: "byte c < 128 \<Longrightarrow> utf8 (c # s) = utf8 s"
  by (subst utf8.simps) (simp add: cp_len_def code_point_def lead_len_def)

lemma utf8_all_ascii: "list_all (\<lambda>c. byte c < 128) s \<Longrightarrow> utf8 s"
  by (induction s) (auto simp: utf8_ascii)

text \<open>Induction on the code points of a well-formed string.\<close>

lemma utf8_induct [consumes 1, case_names Nil Cp]:
  assumes "utf8 s"
    and Nil: "P []"
    and Cp: "\<And>cp t. code_point cp \<Longrightarrow> utf8 t \<Longrightarrow> P t \<Longrightarrow> P (cp @ t)"
  shows "P s"
  using assms(1)
proof (induction s rule: utf8.induct)
  case (1 s)
  show ?case
  proof (cases "s = []")
    case True
    with Nil show ?thesis by simp
  next
    case False
    with "1.prems" obtain n where n: "cp_len s = Some n" and rest: "utf8 (drop n s)"
      by (subst (asm) utf8.simps) (auto split: option.splits)
    then have "code_point (take n s)"
      by (auto simp: cp_len_def split: list.splits if_splits)
    moreover have "P (drop n s)"
      using "1.IH" [OF False n] rest by simp
    ultimately have "P (take n s @ drop n s)" using Cp rest by blast
    then show ?thesis by simp
  qed
qed

subsection \<open>Percent escapes\<close>

definition hex_upper :: "nat \<Rightarrow> char" where
  "hex_upper d = (if d < 10 then char_of (48 + d) else char_of (55 + d))"

definition hex_val :: "char \<Rightarrow> nat option" where
  "hex_val c =
     (let b = byte c in
      if 48 \<le> b \<and> b < 58 then Some (b - 48)
      else if 65 \<le> b \<and> b < 71 then Some (b - 55)
      else if 97 \<le> b \<and> b < 103 then Some (b - 87)
      else None)"

definition escape :: "char \<Rightarrow> string" where
  "escape c = [CHR ''%'', hex_upper (byte c div 16), hex_upper (byte c mod 16)]"

definition is_alnum :: "char \<Rightarrow> bool" where
  "is_alnum c \<longleftrightarrow> (48 \<le> byte c \<and> byte c < 58) \<or> (65 \<le> byte c \<and> byte c < 91)
     \<or> (97 \<le> byte c \<and> byte c < 123)"

definition uri_unreserved :: "char \<Rightarrow> bool" where
  "uri_unreserved c \<longleftrightarrow> is_alnum c \<or> c \<in> set ''-_.!~*()'' \<or> c = CHR 0x27"

definition encodeURIComponent :: "string \<Rightarrow> string" where
  "encodeURIComponent s = concat (map (\<lambda>c. if uri_unreserved c then [c] else escape c) s)"

text \<open>One \<open>%XX\<close> at the head of the text: its byte and the rest.\<close>

definition take_escape :: "string \<Rightarrow> (char \<times> string) option" where
  "take_escape s =
     (case s of
        p # h # l # r \<Rightarrow>
          (if p = CHR ''%'' then
             (case (hex_val h, hex_val l) of
                (Some a, Some b) \<Rightarrow> Some (char_of (16 * a + b), r)
              | _ \<Rightarrow> None)
           else None)
      | _ \<Rightarrow> None)"

fun take_escapes :: "nat \<Rightarrow> string \<Rightarrow> (string \<times> string) option" where
  "take_escapes 0 s = Some ([], s)"
| "take_escapes (Suc n) s =
     (case take_escape s of
        None \<Rightarrow> None
      | Some (c, r) \<Rightarrow>
          (case take_escapes n r of None \<Rightarrow> None | Some (cs, t) \<Rightarrow> Some (c # cs, t)))"

lemma take_escape_length: "take_escape s = Some (c, r) \<Longrightarrow> length r < length s"
  by (auto simp: take_escape_def split: list.splits option.splits if_splits)

lemma take_escapes_length: "take_escapes n s = Some (cs, r) \<Longrightarrow> length r \<le> length s"
proof (induction n arbitrary: s cs)
  case 0
  then show ?case by simp
next
  case (Suc n)
  then obtain c t cs' where "take_escape s = Some (c, t)" "take_escapes n t = Some (cs', r)"
    by (auto split: option.splits)
  with Suc.IH show ?case using take_escape_length by fastforce
qed

function decodeURIComponent :: "string \<Rightarrow> string option" where
  "decodeURIComponent s =
     (case s of
        [] \<Rightarrow> Some []
      | c # t \<Rightarrow>
          if c \<noteq> CHR ''%'' then map_option ((#) c) (decodeURIComponent t)
          else
            (case take_escape s of
               None \<Rightarrow> None
             | Some (b, r) \<Rightarrow>
                 (case take_escapes (lead_len b - 1) r of
                    None \<Rightarrow> None
                  | Some (bs, q) \<Rightarrow>
                      if code_point (b # bs)
                      then map_option ((@) (b # bs)) (decodeURIComponent q)
                      else None)))"
  by pat_completeness auto
termination
proof (relation "measure length", goal_cases)
  case 1
  then show ?case by simp
next
  case (2 s c t)
  then show ?case by simp
next
  case (3 s c t p b r p' bs q)
  then show ?case
    using take_escape_length [of s b r] take_escapes_length [of "lead_len b - 1" r bs q] by simp
qed

declare decodeURIComponent.simps [simp del]

subsection \<open>Decoding undoes encoding\<close>

lemma byte_less_256: "byte c < 256"
  using range_nat_of_char by auto

lemma hex_val_upper: "d < 16 \<Longrightarrow> hex_val (hex_upper d) = Some d"
  by (auto simp: hex_val_def hex_upper_def Let_def)

lemma take_escape_escape [simp]: "take_escape (escape c @ r) = Some (c, r)"
proof -
  have "byte c div 16 < 16" using byte_less_256 [of c] by (simp add: less_mult_imp_div_less)
  then show ?thesis
    by (simp add: take_escape_def escape_def hex_val_upper)
qed

lemma take_escapes_escapes [simp]:
  "take_escapes (length cs) (concat (map escape cs) @ r) = Some (cs, r)"
  by (induction cs) auto

lemma decode_plain: "c \<noteq> CHR ''%'' \<Longrightarrow>
    decodeURIComponent (c # t) = map_option ((#) c) (decodeURIComponent t)"
  by (subst decodeURIComponent.simps) simp

lemma escape_head: "escape c @ r = CHR ''%'' # tl (escape c) @ r"
  by (simp add: escape_def)

lemma decode_code_point:
  assumes "code_point (b # bs)"
  shows "decodeURIComponent (escape b @ concat (map escape bs) @ r)
           = map_option ((@) (b # bs)) (decodeURIComponent r)"
proof -
  from assms have len: "lead_len b - 1 = length bs" by (simp add: code_point_def)
  have "take_escape (escape b @ concat (map escape bs) @ r) = Some (b, concat (map escape bs) @ r)"
    by simp
  with len assms show ?thesis
    by (subst decodeURIComponent.simps) (simp add: escape_head)
qed

lemma unreserved_ascii: "uri_unreserved c \<Longrightarrow> byte c < 128 \<and> c \<noteq> CHR ''%''"
  by (auto simp: uri_unreserved_def is_alnum_def)

lemma encode_append: "encodeURIComponent (s @ t) = encodeURIComponent s @ encodeURIComponent t"
  by (simp add: encodeURIComponent_def)

lemma encode_escaped:
  "(\<And>c. c \<in> set s \<Longrightarrow> \<not> uri_unreserved c) \<Longrightarrow> encodeURIComponent s = concat (map escape s)"
  by (induction s) (auto simp: encodeURIComponent_def)

lemma code_point_cases:
  assumes "code_point cp"
  obtains (ascii) c where "cp = [c]" "byte c < 128"
    | (multi) "\<forall>c \<in> set cp. 128 \<le> byte c"
proof (cases cp)
  case Nil
  with assms show ?thesis by (simp add: code_point_def)
next
  case (Cons c cs)
  show ?thesis
  proof (cases cs)
    case Nil
    with Cons assms have "byte c < 128"
      by (auto simp: code_point_def lead_len_def Let_def split: if_splits)
    with Cons Nil show ?thesis using ascii by simp
  next
    case (Cons d ds)
    with \<open>cp = c # cs\<close> assms have "lead_len c \<noteq> 1" and all: "\<forall>x \<in> set cs. 128 \<le> byte x"
      and "lead_len c \<noteq> 0"
      by (auto simp: code_point_def second_ok_def is_cont_def list_all_iff)
    then have "128 \<le> byte c" by (auto simp: lead_len_def Let_def split: if_splits)
    with all \<open>cp = c # cs\<close> show ?thesis using multi by simp
  qed
qed

lemma decode_encode_code_point:
  assumes "code_point cp"
  shows "decodeURIComponent (encodeURIComponent cp @ r) = map_option ((@) cp) (decodeURIComponent r)"
  using assms
proof (cases rule: code_point_cases)
  case (ascii c)
  have append: "(@) [c] = (#) c" by auto
  show ?thesis
  proof (cases "uri_unreserved c")
    case True
    with ascii show ?thesis
      using unreserved_ascii [OF True] by (simp add: encodeURIComponent_def decode_plain append)
  next
    case False
    with ascii assms show ?thesis
      using decode_code_point [of c "[]" r] by (simp add: encodeURIComponent_def)
  qed
next
  case multi
  then have "encodeURIComponent cp = concat (map escape cp)"
    using unreserved_ascii by (intro encode_escaped) fastforce
  with assms show ?thesis
    using decode_code_point [of "hd cp" "tl cp" r] code_point_length [OF assms] by (cases cp) auto
qed

lemma decode_encode: "utf8 s \<Longrightarrow> decodeURIComponent (encodeURIComponent s) = Some s"
proof (induction s rule: utf8_induct)
  case Nil
  show ?case by (subst decodeURIComponent.simps) (simp add: encodeURIComponent_def)
next
  case (Cp cp t)
  then show ?case by (simp add: encode_append decode_encode_code_point)
qed

lemma hex_upper_alnum: "d < 16 \<Longrightarrow> is_alnum (hex_upper d)"
  by (auto simp: is_alnum_def hex_upper_def)

lemma escape_chars: "x \<in> set (escape c) \<Longrightarrow> x = CHR ''%'' \<or> is_alnum x"
  using hex_upper_alnum [of "byte c div 16"] hex_upper_alnum [of "byte c mod 16"] byte_less_256 [of c]
  by (auto simp: escape_def less_mult_imp_div_less)

lemma encode_chars: "x \<in> set (encodeURIComponent s) \<Longrightarrow> x = CHR ''%'' \<or> uri_unreserved x"
  using escape_chars by (fastforce simp: encodeURIComponent_def uri_unreserved_def split: if_splits)

lemma encode_no_reserved:
  "CHR ''/'' \<notin> set (encodeURIComponent s)" "CHR ''?'' \<notin> set (encodeURIComponent s)"
  using encode_chars by (fastforce simp: uri_unreserved_def is_alnum_def)+

lemma encode_Nil [simp]: "encodeURIComponent s = [] \<longleftrightarrow> s = []"
  by (cases s) (auto simp: encodeURIComponent_def escape_def)

subsection \<open>URLSearchParams\<close>

text \<open>
  Lenient decoding: an escape that is not two hexadecimal digits stays as it is, a \<open>+\<close> is a
  space, and each maximal ill-formed byte sequence becomes U+FFFD.
\<close>

fun percent_decode :: "string \<Rightarrow> string" where
  "percent_decode [] = []"
| "percent_decode [c] = [c]"
| "percent_decode [c, d] = [c, d]"
| "percent_decode (c # h # l # r) =
     (case (c = CHR ''%'', hex_val h, hex_val l) of
        (True, Some a, Some b) \<Rightarrow> char_of (16 * a + b) # percent_decode r
      | _ \<Rightarrow> c # percent_decode (h # l # r))"

definition maximal_subpart :: "string \<Rightarrow> nat" where
  "maximal_subpart s =
     (case s of
        c # d # r \<Rightarrow>
          if 2 < lead_len c \<and> second_ok c d
          then (case r of e # _ \<Rightarrow> if lead_len c = 4 \<and> is_cont e then 3 else 2 | [] \<Rightarrow> 2)
          else 1
      | _ \<Rightarrow> 1)"

lemma maximal_subpart_pos: "0 < maximal_subpart s"
  by (auto simp: maximal_subpart_def split: list.splits)

definition replacement_char :: string where
  "replacement_char = [CHR 0xEF, CHR 0xBF, CHR 0xBD]"

function utf8_lossy :: "string \<Rightarrow> string" where
  "utf8_lossy s =
     (if s = [] then []
      else (case cp_len s of
              Some n \<Rightarrow> take n s @ utf8_lossy (drop n s)
            | None \<Rightarrow> replacement_char @ utf8_lossy (drop (maximal_subpart s) s)))"
  by pat_completeness auto
termination
  by (relation "measure length") (auto simp: maximal_subpart_pos dest: cp_len_pos)

declare utf8_lossy.simps [simp del]

definition form_decode :: "string \<Rightarrow> string" where
  "form_decode s = utf8_lossy (percent_decode (map (\<lambda>c. if c = CHR ''+'' then CHR '' '' else c) s))"

definition form_pair :: "string \<Rightarrow> string \<times> string" where
  "form_pair p =
     (form_decode (takeWhile (\<lambda>c. c \<noteq> CHR ''='') p),
      form_decode (tl (dropWhile (\<lambda>c. c \<noteq> CHR ''='') p)))"

definition URLSearchParams :: "string \<Rightarrow> (string \<times> string) list" where
  "URLSearchParams qs = map form_pair (filter (\<lambda>p. p \<noteq> []) (js_split CHR ''&'' qs))"

lemma URLSearchParams_Nil [simp]: "URLSearchParams [] = []"
  by (simp add: URLSearchParams_def)

end
