(* ===== verification/Common_Types.thy ===== *)
theory Common_Types
  imports Json
begin

text \<open>
  The vocabulary every part of the program shares: the enumerations of
  \<open>comnon/src/enums.ts\<close> with their wire names, the status texts of \<open>HttpError\<close>, and the two
  message shapes of \<open>comnon/src/misc/types.ts\<close> and \<open>comnon/src/schema.ts\<close>: what a client sends
  and what a server sends.
\<close>

subsection \<open>Enumerations\<close>

datatype presence_event = P_JOIN | P_LEAVE | P_UPDATE

datatype server_action = A_PRESENCE | A_SYSTEM | A_BROADCAST | A_ERROR | A_CONNECT

datatype client_action = JOIN_CHANNEL | LEAVE_CHANNEL | C_BROADCAST

datatype channel_state = IDLE | JOINING | JOINED | STALLED | CLOSED | DECLINED

datatype error_type =
    UNAUTHORIZED_CONNECTION | UNAUTHORIZED_JOIN_REQUEST | UNAUTHORIZED_BROADCAST
  | INVALID_MESSAGE | HANDLER_NOT_FOUND | PRESENCE_ERROR | CHANNEL_ERROR | ENDPOINT_ERROR
  | INTERNAL_SERVER_ERROR | CHANNEL_NOT_FOUND | INVALID_CHANNEL_PATTERN

text \<open>
  \<open>ChannelReceivers\<close> is \<open>ChannelReceiver | string[]\<close>: the two wildcard receivers or a list of
  user ids. The engine also meets, and refuses, any other string at run time. A sender is a
  string: the id of a user or \<open>SystemSender.CHANNEL\<close>.
\<close>

datatype receivers = ALL_USERS | ALL_EXCEPT_SENDER | Users "string list" | Other_Receiver string

text \<open>The run-time value of each member, as the enumerations declare it.\<close>

fun presence_event_str :: "presence_event \<Rightarrow> string" where
  "presence_event_str P_JOIN = ''JOIN''"
| "presence_event_str P_LEAVE = ''LEAVE''"
| "presence_event_str P_UPDATE = ''UPDATE''"

fun server_action_str :: "server_action \<Rightarrow> string" where
  "server_action_str A_PRESENCE = ''PRESENCE''"
| "server_action_str A_SYSTEM = ''SYSTEM''"
| "server_action_str A_BROADCAST = ''BROADCAST''"
| "server_action_str A_ERROR = ''ERROR''"
| "server_action_str A_CONNECT = ''CONNECT''"

fun client_action_str :: "client_action \<Rightarrow> string" where
  "client_action_str JOIN_CHANNEL = ''JOIN_CHANNEL''"
| "client_action_str LEAVE_CHANNEL = ''LEAVE_CHANNEL''"
| "client_action_str C_BROADCAST = ''BROADCAST''"

fun channel_state_str :: "channel_state \<Rightarrow> string" where
  "channel_state_str IDLE = ''IDLE''"
| "channel_state_str JOINING = ''JOINING''"
| "channel_state_str JOINED = ''JOINED''"
| "channel_state_str STALLED = ''STALLED''"
| "channel_state_str CLOSED = ''CLOSED''"
| "channel_state_str DECLINED = ''DECLINED''"

fun error_type_str :: "error_type \<Rightarrow> string" where
  "error_type_str UNAUTHORIZED_CONNECTION = ''UNAUTHORIZED_CONNECTION''"
| "error_type_str UNAUTHORIZED_JOIN_REQUEST = ''UNAUTHORIZED_JOIN_REQUEST''"
| "error_type_str UNAUTHORIZED_BROADCAST = ''UNAUTHORIZED_BROADCAST''"
| "error_type_str INVALID_MESSAGE = ''INVALID_MESSAGE''"
| "error_type_str HANDLER_NOT_FOUND = ''HANDLER_NOT_FOUND''"
| "error_type_str PRESENCE_ERROR = ''PRESENCE_ERROR''"
| "error_type_str CHANNEL_ERROR = ''CHANNEL_ERROR''"
| "error_type_str ENDPOINT_ERROR = ''ENDPOINT_ERROR''"
| "error_type_str INTERNAL_SERVER_ERROR = ''INTERNAL_SERVER_ERROR''"
| "error_type_str CHANNEL_NOT_FOUND = ''CHANNEL_NOT_FOUND''"
| "error_type_str INVALID_CHANNEL_PATTERN = ''INVALID_CHANNEL_PATTERN''"

definition SYSTEM_CHANNEL :: string where
  "SYSTEM_CHANNEL = ''CHANNEL''"

definition SYSTEM_ENDPOINT :: string where
  "SYSTEM_ENDPOINT = ''ENDPOINT''"

definition EV_ACKNOWLEDGE :: string where
  "EV_ACKNOWLEDGE = ''ACKNOWLEDGE''"

definition EV_CONNECTION :: string where
  "EV_CONNECTION = ''CONNECTION''"

definition EV_UNAUTHORIZED :: string where
  "EV_UNAUTHORIZED = ''UNAUTHORIZED''"

text \<open>
  The enumerations the schemas and the distributed protocol list with \<open>Object.values\<close> are
  instances of the library's class of enumerable types: \<^const>\<open>Enum.enum\<close> is that list.
\<close>

instantiation presence_event :: enum
begin

definition enum_presence_event :: "presence_event list" where
  "enum_presence_event = [P_JOIN, P_LEAVE, P_UPDATE]"

definition enum_all_presence_event :: "(presence_event \<Rightarrow> bool) \<Rightarrow> bool" where
  "enum_all_presence_event p \<longleftrightarrow> p P_JOIN \<and> p P_LEAVE \<and> p P_UPDATE"

definition enum_ex_presence_event :: "(presence_event \<Rightarrow> bool) \<Rightarrow> bool" where
  "enum_ex_presence_event p \<longleftrightarrow> p P_JOIN \<or> p P_LEAVE \<or> p P_UPDATE"

instance
  by standard
    (auto simp: enum_presence_event_def enum_all_presence_event_def enum_ex_presence_event_def
      intro: presence_event.exhaust, (metis presence_event.exhaust)+)

end

instantiation client_action :: enum
begin

definition enum_client_action :: "client_action list" where
  "enum_client_action = [JOIN_CHANNEL, LEAVE_CHANNEL, C_BROADCAST]"

definition enum_all_client_action :: "(client_action \<Rightarrow> bool) \<Rightarrow> bool" where
  "enum_all_client_action p \<longleftrightarrow> p JOIN_CHANNEL \<and> p LEAVE_CHANNEL \<and> p C_BROADCAST"

definition enum_ex_client_action :: "(client_action \<Rightarrow> bool) \<Rightarrow> bool" where
  "enum_ex_client_action p \<longleftrightarrow> p JOIN_CHANNEL \<or> p LEAVE_CHANNEL \<or> p C_BROADCAST"

instance
  by standard
    (auto simp: enum_client_action_def enum_all_client_action_def enum_ex_client_action_def
      intro: client_action.exhaust, (metis client_action.exhaust)+)

end

definition presence_event_of :: "string \<Rightarrow> presence_event option" where
  "presence_event_of s = List.find (\<lambda>e. presence_event_str e = s) Enum.enum"

definition client_action_of :: "string \<Rightarrow> client_action option" where
  "client_action_of s = List.find (\<lambda>a. client_action_str a = s) Enum.enum"

lemma presence_event_of_str [simp]: "presence_event_of (presence_event_str e) = Some e"
  by (cases e) (simp_all add: presence_event_of_def enum_presence_event_def)

lemma client_action_of_str [simp]: "client_action_of (client_action_str a) = Some a"
  by (cases a) (simp_all add: client_action_of_def enum_client_action_def)

lemma presence_event_of_Some: "presence_event_of s = Some e \<Longrightarrow> s = presence_event_str e"
  by (auto simp: presence_event_of_def find_Some_iff)

lemma client_action_of_Some: "client_action_of s = Some a \<Longrightarrow> s = client_action_str a"
  by (auto simp: client_action_of_def find_Some_iff)

subsection \<open>HttpError\<close>

definition getStatusText :: "nat \<Rightarrow> string" where
  "getStatusText statusCode =
     (if statusCode = 400 then ''Bad Request''
      else if statusCode = 401 then ''Unauthorized''
      else if statusCode = 403 then ''Forbidden''
      else if statusCode = 404 then ''Not Found''
      else if statusCode = 405 then ''Method Not Allowed''
      else if statusCode = 406 then ''Not Acceptable''
      else if statusCode = 409 then ''Conflict''
      else if statusCode = 413 then ''Payload Too Large''
      else if statusCode = 429 then ''Too Many Requests''
      else if statusCode = 500 then ''Internal Server Error''
      else if statusCode = 501 then ''Not Implemented''
      else if statusCode = 502 then ''Bad Gateway''
      else if statusCode = 503 then ''Service Unavailable''
      else if statusCode = 504 then ''Gateway Timeout''
      else ''Unknown Error'')"

subsection \<open>Messages\<close>

text \<open>
  \<open>ChannelEvent\<close> (what the server sends; \<open>Event | PresenceEventMessage\<close>) and \<open>ClientMessage\<close>
  (what a client sends). A payload is an object.
\<close>

record channel_event =
  ce_action :: server_action
  ce_event :: string
  ce_channel :: string
  ce_request :: string
  ce_payload :: obj

record client_message =
  cm_action :: client_action
  cm_event :: string
  cm_channel :: string
  cm_request :: string
  cm_payload :: obj

definition presence_payload :: "obj \<Rightarrow> obj list \<Rightarrow> obj" where
  "presence_payload changed presence =
     [(''changed'', JObj changed), (''presence'', JArr (map JObj presence))]"

text \<open>The object each message is on the wire.\<close>

definition channel_event_json :: "channel_event \<Rightarrow> json" where
  "channel_event_json e = JObj
     [(''action'', JStr (server_action_str (ce_action e))),
      (''event'', JStr (ce_event e)),
      (''channelName'', JStr (ce_channel e)),
      (''requestId'', JStr (ce_request e)),
      (''payload'', JObj (ce_payload e))]"

definition client_message_json :: "client_message \<Rightarrow> json" where
  "client_message_json m = JObj
     [(''action'', JStr (client_action_str (cm_action m))),
      (''event'', JStr (cm_event m)),
      (''channelName'', JStr (cm_channel m)),
      (''requestId'', JStr (cm_request m)),
      (''payload'', JObj (cm_payload m))]"

end
