(* ===== verification/Schema.thy ===== *)
theory Schema
  imports Common_Types
begin

text \<open>
  The validators of \<open>comnon/src/schema.ts\<close>: what a server accepts from a socket
  (\<open>clientMessageSchema\<close>) and what a client accepts from a server (\<open>channelEventSchema\<close> and its
  two halves). Each check keeps its place and its message; the value returned is the one the
  source builds, so extra fields are dropped.
\<close>

subsection \<open>Chaining checks\<close>

definition res_bind :: "'a res \<Rightarrow> ('a \<Rightarrow> 'b res) \<Rightarrow> 'b res" where
  "res_bind r f = (case r of Inl e \<Rightarrow> Inl e | Inr x \<Rightarrow> f x)"

lemma res_bind_simps [simp]: "res_bind (Inl e) f = Inl e" "res_bind (Inr x) f = f x"
  by (simp_all add: res_bind_def)

lemma res_bind_Inr_iff: "res_bind r f = Inr y \<longleftrightarrow> (\<exists>x. r = Inr x \<and> f x = Inr y)"
  by (cases r) auto

subsection \<open>The validators\<close>

definition ValidationError :: "string \<Rightarrow> string \<Rightarrow> exn" where
  "ValidationError message path =
     Plain_Error (if path \<noteq> [] then path @ '': '' @ message else message)"

fun isObject :: "json \<Rightarrow> bool" where
  "isObject (JObj _) = True"
| "isObject _ = False"

fun isString :: "json \<Rightarrow> bool" where
  "isString (JStr _) = True"
| "isString _ = False"

fun isArray :: "json \<Rightarrow> bool" where
  "isArray (JArr _) = True"
| "isArray _ = False"

text \<open>
  \<open>Object.keys\<close> only ever returns strings, so the key test of \<open>isRecord\<close> holds for every
  object; it is kept as the test on the keys it is.
\<close>

definition key_is_string :: "string \<Rightarrow> bool" where
  "key_is_string k = isString (JStr k)"

fun isRecord :: "json \<Rightarrow> bool" where
  "isRecord (JObj fs) = list_all key_is_string (jm_keys fs)"
| "isRecord _ = False"

fun as_obj :: "json \<Rightarrow> obj" where
  "as_obj (JObj fs) = fs"
| "as_obj _ = []"

definition validateString :: "json \<Rightarrow> string \<Rightarrow> string res" where
  "validateString value fieldName =
     (case value of
        JStr s \<Rightarrow> Inr s
      | _ \<Rightarrow> Inl (ValidationError (''Expected string, got '' @ js_typeof value) fieldName))"

definition validateObject :: "json \<Rightarrow> string \<Rightarrow> obj res" where
  "validateObject value fieldName =
     (if isObject value then Inr (as_obj value)
      else Inl (ValidationError (''Expected object, got '' @ js_typeof value) fieldName))"

definition validateRecord :: "json \<Rightarrow> string \<Rightarrow> obj res" where
  "validateRecord value fieldName =
     (if isRecord value then Inr (as_obj value)
      else Inl (ValidationError
             (''Expected record with string keys, got '' @ js_typeof value) fieldName))"

definition validateArray :: "json \<Rightarrow> string \<Rightarrow> json list res" where
  "validateArray value fieldName =
     (case value of
        JArr xs \<Rightarrow> Inr xs
      | _ \<Rightarrow> Inl (ValidationError (''Expected array, got '' @ js_typeof value) fieldName))"

text \<open>
  \<open>validateEnum\<close> looks the value up among \<open>Object.values\<close> of the enumeration: \<open>values\<close> pairs
  each member with its run-time string.
\<close>

definition expected_one_of :: "string list \<Rightarrow> json \<Rightarrow> string" where
  "expected_one_of vs value =
     ''Expected one of ['' @ js_join '', '' vs @ ''], got '' @ json_stringify value"

definition validateEnum ::
    "json \<Rightarrow> ('e \<Rightarrow> string) \<Rightarrow> 'e list \<Rightarrow> string \<Rightarrow> 'e res" where
  "validateEnum value name values fieldName =
     (case (case value of JStr s \<Rightarrow> List.find (\<lambda>e. name e = s) values | _ \<Rightarrow> None) of
        Some e \<Rightarrow> Inr e
      | None \<Rightarrow> Inl (ValidationError (expected_one_of (map name values) value) fieldName))"

text \<open>\<open>obj.f\<close>; the callers test \<open>'f' in obj\<close> first.\<close>

definition field :: "obj \<Rightarrow> string \<Rightarrow> json" where
  "field fs k = (case jm_get fs k of Some v \<Rightarrow> v | None \<Rightarrow> JNull)"

definition require_field :: "obj \<Rightarrow> string \<Rightarrow> string \<Rightarrow> unit res" where
  "require_field fs k path =
     (if jm_has fs k then Inr () else Inl (ValidationError ''Missing required field'' path))"

subsection \<open>The four schemas\<close>

definition parse_client_message :: "json \<Rightarrow> client_message res" where
  "parse_client_message data =
     res_bind (validateObject data ''clientMessage'') (\<lambda>fs.
     res_bind (require_field fs ''event'' ''event'') (\<lambda>_.
     res_bind (require_field fs ''requestId'' ''requestId'') (\<lambda>_.
     res_bind (require_field fs ''channelName'' ''channelName'') (\<lambda>_.
     res_bind (require_field fs ''payload'' ''payload'') (\<lambda>_.
     res_bind (require_field fs ''action'' ''action'') (\<lambda>_.
     res_bind (validateString (field fs ''event'') ''event'') (\<lambda>event.
     res_bind (validateString (field fs ''requestId'') ''requestId'') (\<lambda>requestId.
     res_bind (validateString (field fs ''channelName'') ''channelName'') (\<lambda>channelName.
     res_bind (validateRecord (field fs ''payload'') ''payload'') (\<lambda>payload.
     res_bind (validateEnum (field fs ''action'') client_action_str Enum.enum ''action'') (\<lambda>action.
     Inr \<lparr>cm_action = action, cm_event = event, cm_channel = channelName,
          cm_request = requestId, cm_payload = payload\<rparr>)))))))))))"

text \<open>Every entry of \<open>payload.presence\<close> must be a record; the first that is not is named.\<close>

fun validate_presence :: "nat \<Rightarrow> json list \<Rightarrow> obj list res" where
  "validate_presence i [] = Inr []"
| "validate_presence i (x # xs) =
     res_bind (validateRecord x (''payload.presence['' @ nat_text i @ '']'')) (\<lambda>p.
     res_bind (validate_presence (Suc i) xs) (\<lambda>ps. Inr (p # ps)))"

definition parse_presence_message :: "json \<Rightarrow> channel_event res" where
  "parse_presence_message data =
     res_bind (validateObject data ''presenceMessage'') (\<lambda>fs.
     res_bind (require_field fs ''requestId'' ''requestId'') (\<lambda>_.
     res_bind (require_field fs ''channelName'' ''channelName'') (\<lambda>_.
     res_bind (require_field fs ''event'' ''event'') (\<lambda>_.
     res_bind (require_field fs ''action'' ''action'') (\<lambda>_.
     res_bind (require_field fs ''payload'' ''payload'') (\<lambda>_.
     res_bind (validateString (field fs ''requestId'') ''requestId'') (\<lambda>requestId.
     res_bind (validateString (field fs ''channelName'') ''channelName'') (\<lambda>channelName.
     res_bind (validateEnum (field fs ''event'') presence_event_str Enum.enum ''event'') (\<lambda>event.
     if field fs ''action'' \<noteq> JStr ''PRESENCE''
     then Inl (ValidationError
            (''Expected PRESENCE, got '' @ json_stringify (field fs ''action'')) ''action'')
     else
     res_bind (validateObject (field fs ''payload'') ''payload'') (\<lambda>payload.
     res_bind (require_field payload ''presence'' ''payload.presence'') (\<lambda>_.
     res_bind (require_field payload ''changed'' ''payload.changed'') (\<lambda>_.
     res_bind (validateArray (field payload ''presence'') ''payload.presence'') (\<lambda>xs.
     res_bind (validate_presence 0 xs) (\<lambda>presence.
     res_bind (validateRecord (field payload ''changed'') ''payload.changed'') (\<lambda>changed.
     Inr \<lparr>ce_action = A_PRESENCE, ce_event = presence_event_str event, ce_channel = channelName,
          ce_request = requestId, ce_payload = presence_payload changed presence\<rparr>)))))))))))))))"

definition server_actions :: "server_action list" where
  "server_actions = [A_BROADCAST, A_CONNECT, A_ERROR, A_SYSTEM]"

definition parse_server_message :: "json \<Rightarrow> channel_event res" where
  "parse_server_message data =
     res_bind (validateObject data ''serverMessage'') (\<lambda>fs.
     res_bind (require_field fs ''event'' ''event'') (\<lambda>_.
     res_bind (require_field fs ''requestId'' ''requestId'') (\<lambda>_.
     res_bind (require_field fs ''channelName'' ''channelName'') (\<lambda>_.
     res_bind (require_field fs ''payload'' ''payload'') (\<lambda>_.
     res_bind (require_field fs ''action'' ''action'') (\<lambda>_.
     res_bind (validateString (field fs ''event'') ''event'') (\<lambda>event.
     res_bind (validateString (field fs ''requestId'') ''requestId'') (\<lambda>requestId.
     res_bind (validateString (field fs ''channelName'') ''channelName'') (\<lambda>channelName.
     res_bind (validateRecord (field fs ''payload'') ''payload'') (\<lambda>payload.
     res_bind (validateEnum (field fs ''action'') server_action_str server_actions ''action'') (\<lambda>action.
     Inr \<lparr>ce_action = action, ce_event = event, ce_channel = channelName,
          ce_request = requestId, ce_payload = payload\<rparr>)))))))))))"

definition parse_channel_event :: "json \<Rightarrow> channel_event res" where
  "parse_channel_event data =
     res_bind (validateObject data ''channelEvent'') (\<lambda>fs.
     res_bind (require_field fs ''action'' ''action'') (\<lambda>_.
     if field fs ''action'' = JStr ''PRESENCE'' then parse_presence_message data
     else parse_server_message data))"

subsection \<open>What the validators accept\<close>

lemma isRecord_isObject [simp]: "isRecord v = isObject v"
  by (cases v) (auto simp: key_is_string_def list_all_iff)

lemma isObject_iff: "isObject v \<longleftrightarrow> (\<exists>fs. v = JObj fs)"
  by (cases v) auto

lemma validateObject_Inr [simp]: "validateObject v n = Inr fs \<longleftrightarrow> v = JObj fs"
  by (cases v) (auto simp: validateObject_def)

lemma validateRecord_Inr [simp]: "validateRecord v n = Inr fs \<longleftrightarrow> v = JObj fs"
  by (cases v) (auto simp: validateRecord_def key_is_string_def list_all_iff)

lemma validateString_Inr [simp]: "validateString v n = Inr s \<longleftrightarrow> v = JStr s"
  by (cases v) (auto simp: validateString_def)

lemma validateArray_Inr [simp]: "validateArray v n = Inr xs \<longleftrightarrow> v = JArr xs"
  by (cases v) (auto simp: validateArray_def)

lemma require_field_Inr [simp]: "require_field fs k p = Inr u \<longleftrightarrow> jm_has fs k"
  by (auto simp: require_field_def)

lemma find_inj:
  assumes "inj_on name (set vs)" "e \<in> set vs"
  shows "List.find (\<lambda>x. name x = name e) vs = Some e"
  using assms by (induction vs) (auto simp: inj_on_def)

lemma validateEnum_Inr:
  assumes "inj_on name (set vs)"
  shows "validateEnum v name vs n = Inr e \<longleftrightarrow> e \<in> set vs \<and> v = JStr (name e)"
proof
  assume "validateEnum v name vs n = Inr e"
  then obtain s where "v = JStr s" "List.find (\<lambda>x. name x = s) vs = Some e"
    by (auto simp: validateEnum_def split: option.splits json.splits)
  then show "e \<in> set vs \<and> v = JStr (name e)"
    using find_SomeD by fastforce
next
  assume "e \<in> set vs \<and> v = JStr (name e)"
  then show "validateEnum v name vs n = Inr e"
    using find_inj [OF assms] by (simp add: validateEnum_def)
qed

lemma inj_client_action: "inj_on client_action_str A"
  by (rule inj_onI) (metis client_action_of_str option.inject)

lemma inj_presence_event: "inj_on presence_event_str A"
  by (rule inj_onI) (metis presence_event_of_str option.inject)

lemma inj_server_action: "inj_on server_action_str A"
proof (rule inj_onI)
  fix a b assume "server_action_str a = server_action_str b"
  then show "a = b" by (cases a; cases b) simp_all
qed

lemmas validateEnum_known [simp] =
  validateEnum_Inr [OF inj_client_action] validateEnum_Inr [OF inj_presence_event]
  validateEnum_Inr [OF inj_server_action]

lemma set_enum [simp]:
  "set (Enum.enum :: client_action list) = UNIV" "set (Enum.enum :: presence_event list) = UNIV"
  by (rule enum_UNIV)+

lemma validate_presence_Inr [simp]: "validate_presence i xs = Inr ps \<longleftrightarrow> xs = map JObj ps"
proof (induction xs arbitrary: i ps)
  case Nil
  then show ?case by auto
next
  case (Cons x xs)
  then show ?case by (cases ps) (auto simp: res_bind_Inr_iff)
qed

lemma get_field: "jm_get fs k = Some v \<longleftrightarrow> jm_has fs k \<and> field fs k = v"
  by (auto simp: field_def jm_has_get)

lemma parse_client_message_obj:
  "parse_client_message (JObj fs) = Inr m \<longleftrightarrow>
     jm_get fs ''event'' = Some (JStr (cm_event m))
     \<and> jm_get fs ''requestId'' = Some (JStr (cm_request m))
     \<and> jm_get fs ''channelName'' = Some (JStr (cm_channel m))
     \<and> jm_get fs ''payload'' = Some (JObj (cm_payload m))
     \<and> jm_get fs ''action'' = Some (JStr (client_action_str (cm_action m)))"
  unfolding get_field parse_client_message_def res_bind_Inr_iff
  by (cases m) auto

lemma parse_presence_message_obj:
  "parse_presence_message (JObj fs) = Inr e \<longleftrightarrow>
     (\<exists>t changed presence payload.
        e = \<lparr>ce_action = A_PRESENCE, ce_event = presence_event_str t, ce_channel = ce_channel e,
             ce_request = ce_request e, ce_payload = presence_payload changed presence\<rparr>
        \<and> jm_get fs ''requestId'' = Some (JStr (ce_request e))
        \<and> jm_get fs ''channelName'' = Some (JStr (ce_channel e))
        \<and> jm_get fs ''event'' = Some (JStr (presence_event_str t))
        \<and> jm_get fs ''action'' = Some (JStr ''PRESENCE'')
        \<and> jm_get fs ''payload'' = Some (JObj payload)
        \<and> jm_get payload ''presence'' = Some (JArr (map JObj presence))
        \<and> jm_get payload ''changed'' = Some (JObj changed))"
proof -
  have cond: "(if b then Inl x else r) = Inr e \<longleftrightarrow> \<not> b \<and> r = Inr e"
    for b and x :: exn and r :: "channel_event res"
    by simp
  show ?thesis
    unfolding get_field parse_presence_message_def res_bind_Inr_iff cond
    by (cases e) (auto, blast)
qed

lemma parse_server_message_obj:
  "parse_server_message (JObj fs) = Inr e \<longleftrightarrow>
     jm_get fs ''event'' = Some (JStr (ce_event e))
     \<and> jm_get fs ''requestId'' = Some (JStr (ce_request e))
     \<and> jm_get fs ''channelName'' = Some (JStr (ce_channel e))
     \<and> jm_get fs ''payload'' = Some (JObj (ce_payload e))
     \<and> ce_action e \<in> set server_actions
     \<and> jm_get fs ''action'' = Some (JStr (server_action_str (ce_action e)))"
  unfolding get_field parse_server_message_def res_bind_Inr_iff
  by (cases e) auto

lemma parse_channel_event_obj:
  "parse_channel_event (JObj fs) = Inr e \<longleftrightarrow>
     (if jm_get fs ''action'' = Some (JStr ''PRESENCE'')
      then parse_presence_message (JObj fs) = Inr e
      else jm_has fs ''action'' \<and> parse_server_message (JObj fs) = Inr e)"
  by (auto simp: parse_channel_event_def res_bind_Inr_iff get_field)

text \<open>
  The events a server may put on the wire: any event that is not a presence event, and a
  presence event with a presence name and a payload of the presence shape.
\<close>

definition wire_event :: "channel_event \<Rightarrow> bool" where
  "wire_event e \<longleftrightarrow>
     (ce_action e = A_PRESENCE \<longrightarrow>
        (\<exists>t. ce_event e = presence_event_str t)
        \<and> (\<exists>changed presence. ce_payload e = presence_payload changed presence))"

lemma server_actions_iff: "a \<in> set server_actions \<longleftrightarrow> a \<noteq> A_PRESENCE"
  by (cases a) (simp_all add: server_actions_def)

lemma server_action_PRESENCE: "server_action_str a = ''PRESENCE'' \<longleftrightarrow> a = A_PRESENCE"
  by (cases a) simp_all

lemma jm_get_Cons: "jm_get ((k, v) # m) k' = (if k' = k then Some v else jm_get m k')"
  by (simp add: jm_get_def)

lemma channel_event_json_get:
  assumes "channel_event_json e = JObj fs"
  shows "jm_get fs ''action'' = Some (JStr (server_action_str (ce_action e)))"
    and "jm_get fs ''event'' = Some (JStr (ce_event e))"
    and "jm_get fs ''channelName'' = Some (JStr (ce_channel e))"
    and "jm_get fs ''requestId'' = Some (JStr (ce_request e))"
    and "jm_get fs ''payload'' = Some (JObj (ce_payload e))"
    and "jm_has fs ''action''"
  using assms by (auto simp: channel_event_json_def jm_get_Cons jm_has_get)

lemma presence_payload_get [simp]:
  "jm_get (presence_payload c ps) ''changed'' = Some (JObj c)"
  "jm_get (presence_payload c ps) ''presence'' = Some (JArr (map JObj ps))"
  by (simp_all add: presence_payload_def jm_get_Cons)

lemma presence_payload_inj [simp]:
  "presence_payload c ps = presence_payload c' ps' \<longleftrightarrow> c = c' \<and> ps = ps'"
  by (auto simp: presence_payload_def inj_map_eq_map inj_on_def)

text \<open>The client's validator is the identity on the events a server may send.\<close>

lemma wire_event_accepted:
  assumes "wire_event e"
  shows "parse_channel_event (channel_event_json e) = Inr e"
proof -
  obtain fs where fs: "channel_event_json e = JObj fs"
    by (simp add: channel_event_json_def)
  note get = channel_event_json_get [OF fs]
  show ?thesis
  proof (cases "ce_action e = A_PRESENCE")
    case True
    with assms obtain t c ps where
      "ce_event e = presence_event_str t" "ce_payload e = presence_payload c ps"
      by (auto simp: wire_event_def)
    with True have "parse_presence_message (JObj fs) = Inr e"
      unfolding parse_presence_message_obj
      by (intro exI [of _ t] exI [of _ c] exI [of _ ps] exI [of _ "ce_payload e"])
        (simp add: get)
    with True show ?thesis
      by (simp add: fs parse_channel_event_obj get)
  next
    case False
    then show ?thesis
      by (simp add: fs parse_channel_event_obj parse_server_message_obj get
          server_actions_iff server_action_PRESENCE)
  qed
qed

lemma parse_channel_event_wire:
  assumes "parse_channel_event data = Inr e"
  shows "wire_event e"
proof -
  obtain fs where data: "data = JObj fs"
    using assms by (auto simp: parse_channel_event_def res_bind_Inr_iff)
  show ?thesis
  proof (cases "jm_get fs ''action'' = Some (JStr ''PRESENCE'')")
    case True
    with assms have "parse_presence_message (JObj fs) = Inr e"
      by (simp add: data parse_channel_event_obj)
    then obtain t c ps where
      "e = \<lparr>ce_action = A_PRESENCE, ce_event = presence_event_str t, ce_channel = ce_channel e,
            ce_request = ce_request e, ce_payload = presence_payload c ps\<rparr>"
      unfolding parse_presence_message_obj by blast
    then have "ce_event e = presence_event_str t" "ce_payload e = presence_payload c ps"
      by (metis channel_event.select_convs(2), metis channel_event.select_convs(5))
    then show ?thesis unfolding wire_event_def by blast
  next
    case False
    with assms show ?thesis
      by (simp add: data parse_channel_event_obj parse_server_message_obj server_actions_iff
          wire_event_def)
  qed
qed

text \<open>
  C25. A server accepts a value as a client message exactly when it is an object whose
  \<open>event\<close>, \<open>requestId\<close> and \<open>channelName\<close> are strings, whose \<open>payload\<close> is an object and whose
  \<open>action\<close> is one of the client actions; the message it goes on with has these fields.
\<close>

theorem parse_client_message_iff:
  "parse_client_message data = Inr m \<longleftrightarrow>
     (\<exists>fs. data = JObj fs
        \<and> jm_get fs ''event'' = Some (JStr (cm_event m))
        \<and> jm_get fs ''requestId'' = Some (JStr (cm_request m))
        \<and> jm_get fs ''channelName'' = Some (JStr (cm_channel m))
        \<and> jm_get fs ''payload'' = Some (JObj (cm_payload m))
        \<and> jm_get fs ''action'' = Some (JStr (client_action_str (cm_action m))))"
proof (cases "\<exists>fs. data = JObj fs")
  case True
  then show ?thesis using parse_client_message_obj by auto
next
  case False
  then show ?thesis by (simp add: parse_client_message_def res_bind_Inr_iff)
qed

text \<open>
  What a client puts on the wire, a server reads back: the validator returns the very
  message the client serialised.
\<close>

theorem client_message_roundtrip: "parse_client_message (client_message_json m) = Inr m"
  by (simp add: client_message_json_def parse_client_message_obj jm_get_Cons)

text \<open>
  Server to client: the events the client's validator can return are exactly the wire
  events, and each of these survives the trip unchanged. In particular a presence event
  always carries a presence name and a list of objects.
\<close>

theorem channel_event_roundtrip:
  "(wire_event e \<longleftrightarrow> (\<exists>data. parse_channel_event data = Inr e))
   \<and> (wire_event e \<longleftrightarrow> parse_channel_event (channel_event_json e) = Inr e)"
  using wire_event_accepted parse_channel_event_wire by blast+

end
