(* ===== verification/Route.thy ===== *)
theory Route
  imports Uri Schema
begin

text \<open>
  Routes, \<open>comnon/src/misc/route.ts\<close>: a pattern such as \<open>/chat/:room/*\<close> is compiled to key names
  and a regular expression, an address is parsed against it (giving parameters and query), and
  an address is built from a pattern and parameters. \<open>core/src/matcher/matcher.ts\<close> adds the
  choice between a pattern and a caller's \<open>RegExp\<close>.

  The regular expressions the compiler emits are anchored sequences of literal characters,
  \<open>([^/]+)\<close> and \<open>(.*)\<close>. They are modelled as such sequences with JavaScript's matching
  discipline: greedy, with backtracking.
\<close>

subsection \<open>Compiling a route\<close>

datatype rx = R_Char char | R_Seg | R_All

definition PondRouteError :: "string \<Rightarrow> string \<Rightarrow> exn" where
  "PondRouteError message route = Plain_Error
     (''Invalid PondSocket route '' @ [CHR 0x22] @ route @ [CHR 0x22] @ '': '' @ message)"

definition is_identifier :: "string \<Rightarrow> bool" where
  "is_identifier key =
     (case key of
        [] \<Rightarrow> False
      | c # cs \<Rightarrow> (is_alnum c \<and> \<not> (48 \<le> byte c \<and> byte c < 58) \<or> c = CHR ''_'')
          \<and> list_all (\<lambda>d. is_alnum d \<or> d = CHR ''_'') cs)"

definition parse_segment :: "string \<Rightarrow> string list \<Rightarrow> string \<Rightarrow> (string list \<times> rx list) res" where
  "parse_segment route keys segment =
     (if segment = ''*'' then
        (if ''*'' \<in> set keys
         then Inl (PondRouteError ''a wildcard can only appear once'' route)
         else Inr (keys @ [''*''], [R_All]))
      else if CHR ''*'' \<in> set segment then
        Inl (PondRouteError ''wildcards must occupy an entire path segment'' route)
      else if take 1 segment = '':'' then
        (let key = tl segment in
         if \<not> is_identifier key then
           Inl (PondRouteError ''parameter names must be non-empty JavaScript identifiers'' route)
         else if key \<in> set keys then
           Inl (PondRouteError (''duplicate parameter '' @ [CHR 0x22] @ key @ [CHR 0x22]) route)
         else Inr (keys @ [key], [R_Seg]))
      else if CHR '':'' \<in> set segment then
        Inl (PondRouteError ''parameters must occupy an entire path segment'' route)
      else Inr (keys, map R_Char segment))"

fun parse_segment_list ::
    "string \<Rightarrow> string list \<Rightarrow> string list \<Rightarrow> (string list \<times> rx list list) res" where
  "parse_segment_list route keys [] = Inr (keys, [])"
| "parse_segment_list route keys (s # ss) =
     res_bind (parse_segment route keys s) (\<lambda>(keys', part).
     res_bind (parse_segment_list route keys' ss) (\<lambda>(keys'', parts).
     Inr (keys'', part # parts)))"

text \<open>\<open>regexpParts.join('/')\<close>.\<close>

fun join_parts :: "rx list list \<Rightarrow> rx list" where
  "join_parts [] = []"
| "join_parts [p] = p"
| "join_parts (p # q # ps) = p @ R_Char CHR ''/'' # join_parts (q # ps)"

record compiled_route =
  cr_keys :: "string list"
  cr_regexp :: "rx list"
  cr_route :: string

definition compilePondRoute :: "string \<Rightarrow> compiled_route res" where
  "compilePondRoute route =
     (if CHR ''?'' \<in> set route then
        Inl (PondRouteError ''query strings are not allowed in route declarations'' route)
      else res_bind (parse_segment_list route [] (js_split CHR ''/'' route)) (\<lambda>(keys, parts).
        Inr \<lparr>cr_keys = keys, cr_regexp = join_parts parts, cr_route = route\<rparr>))"

subsection \<open>Executing the regular expression\<close>

text \<open>\<open>.\<close> does not match a line terminator: LF, CR, U+2028 or U+2029.\<close>

fun dot_span :: "string \<Rightarrow> nat" where
  "dot_span [] = 0"
| "dot_span (c # s) =
     (if c = CHR 0x0A \<or> c = CHR 0x0D
         \<or> take 3 (c # s) = [CHR 0xE2, CHR 0x80, CHR 0xA8]
         \<or> take 3 (c # s) = [CHR 0xE2, CHR 0x80, CHR 0xA9]
      then 0 else Suc (dot_span s))"

definition seg_span :: "string \<Rightarrow> nat" where
  "seg_span s = length (takeWhile (\<lambda>c. c \<noteq> CHR ''/'') s)"

fun first_some :: "('a \<Rightarrow> 'b option) \<Rightarrow> 'a list \<Rightarrow> 'b option" where
  "first_some f [] = None"
| "first_some f (x # xs) = (case f x of None \<Rightarrow> first_some f xs | Some y \<Rightarrow> Some y)"

fun rx_exec :: "rx list \<Rightarrow> string \<Rightarrow> string list option" where
  "rx_exec [] s = (if s = [] then Some [] else None)"
| "rx_exec (R_Char c # r) s =
     (case s of [] \<Rightarrow> None | x # t \<Rightarrow> if x = c then rx_exec r t else None)"
| "rx_exec (R_Seg # r) s =
     first_some (\<lambda>n. map_option ((#) (take n s)) (rx_exec r (drop n s))) (rev [1..<Suc (seg_span s)])"
| "rx_exec (R_All # r) s =
     first_some (\<lambda>n. map_option ((#) (take n s)) (rx_exec r (drop n s))) (rev [0..<Suc (dot_span s)])"

subsection \<open>Parsing and building addresses\<close>

record event_params =
  ep_params :: "string jmap"
  ep_query :: "string jmap"

fun squeeze_slashes :: "string \<Rightarrow> string" where
  "squeeze_slashes [] = []"
| "squeeze_slashes (c # s) =
     (if c = CHR ''/'' \<and> take 1 s = ''/'' then squeeze_slashes s else c # squeeze_slashes s)"

definition URIError :: exn where
  "URIError = Plain_Error ''URI malformed''"

fun collect_params :: "string list \<Rightarrow> string list \<Rightarrow> string jmap \<Rightarrow> string jmap res" where
  "collect_params [] match result = Inr result"
| "collect_params (key # ks) match result =
     (let rawValue = (case match of [] \<Rightarrow> [] | m # _ \<Rightarrow> m) in
      if key = ''*''
      then collect_params ks (tl match) (jm_set key (squeeze_slashes (''/'' @ rawValue)) result)
      else
        (case decodeURIComponent rawValue of
           None \<Rightarrow> Inl URIError
         | Some value \<Rightarrow> collect_params ks (tl match) (jm_set key value result)))"

definition parsePondRoute :: "string \<Rightarrow> string \<Rightarrow> event_params option res" where
  "parsePondRoute route address =
     res_bind (compilePondRoute route) (\<lambda>compiled.
     let parts = js_split CHR ''?'' address;
         path = hd parts;
         queryString = (case tl parts of [] \<Rightarrow> [] | q # _ \<Rightarrow> q)
     in case rx_exec (cr_regexp compiled) path of
          None \<Rightarrow> Inr None
        | Some match \<Rightarrow>
            res_bind (collect_params (cr_keys compiled) match []) (\<lambda>params.
            Inr (Some \<lparr>ep_params = params,
              ep_query = fold (\<lambda>(k, v) q. jm_set k v q) (URLSearchParams queryString) []\<rparr>)))"

definition build_segment :: "string \<Rightarrow> obj \<Rightarrow> string \<Rightarrow> string res" where
  "build_segment route params segment =
     (let key = (if segment = ''*'' then ''*''
                 else if take 1 segment = '':'' then tl segment else [])
      in if key = [] then Inr segment
         else case jm_get params key of
           Some (JStr value) \<Rightarrow>
             if value = []
             then Inl (PondRouteError (''missing value for parameter '' @ [CHR 0x22] @ key @ [CHR 0x22]) route)
             else if key = ''*'' then Inr (dropWhile (\<lambda>c. c = CHR ''/'') value)
             else Inr (encodeURIComponent value)
         | _ \<Rightarrow> Inl (PondRouteError (''missing value for parameter '' @ [CHR 0x22] @ key @ [CHR 0x22]) route))"

fun build_segments :: "string \<Rightarrow> obj \<Rightarrow> string list \<Rightarrow> string list res" where
  "build_segments route params [] = Inr []"
| "build_segments route params (s # ss) =
     res_bind (build_segment route params s) (\<lambda>x.
     res_bind (build_segments route params ss) (\<lambda>xs. Inr (x # xs)))"

definition buildPondRoute :: "string \<Rightarrow> obj \<Rightarrow> string res" where
  "buildPondRoute route params =
     res_bind (compilePondRoute route) (\<lambda>_.
     res_bind (build_segments route params (js_split CHR ''/'' route)) (\<lambda>ss.
     Inr (js_join ''/'' ss)))"

text \<open>
  A handler is registered under a pattern or under a regular expression of the caller's: the
  latter has a source text and a function that says whether an address matches.
\<close>

datatype pond_path = Pattern string | Reg_Exp string "string \<Rightarrow> bool"

definition parseAddress :: "pond_path \<Rightarrow> string \<Rightarrow> event_params option res" where
  "parseAddress route address =
     (case route of
        Reg_Exp source match \<Rightarrow> Inr (if match address then Some \<lparr>ep_params = [], ep_query = []\<rparr> else None)
      | Pattern path \<Rightarrow> parsePondRoute path address)"

end
