(* ===== verification/Route_Match.thy ===== *)
theory Route_Match
  imports Route
begin

text \<open>
  What the route matcher computes. A declarative reading of the regular expressions, the
  soundness and completeness of the backtracking search for it, and the uniqueness of the
  match for every expression the compiler emits (so greed never changes a result).
\<close>

subsection \<open>The language of a regular expression\<close>

definition no_line_terminator :: "string \<Rightarrow> bool" where
  "no_line_terminator s \<longleftrightarrow> dot_span s = length s"

fun rx_lang :: "rx list \<Rightarrow> string list \<Rightarrow> string \<Rightarrow> bool" where
  "rx_lang [] vs s \<longleftrightarrow> vs = [] \<and> s = []"
| "rx_lang (R_Char c # r) vs s \<longleftrightarrow> (\<exists>t. s = c # t \<and> rx_lang r vs t)"
| "rx_lang (R_Seg # r) vs s \<longleftrightarrow>
     (\<exists>v ws t. vs = v # ws \<and> s = v @ t \<and> v \<noteq> [] \<and> CHR ''/'' \<notin> set v \<and> rx_lang r ws t)"
| "rx_lang (R_All # r) vs s \<longleftrightarrow>
     (\<exists>v ws t. vs = v # ws \<and> s = v @ t \<and> length v \<le> dot_span s \<and> rx_lang r ws t)"

lemma first_some_Some:
  "first_some f xs = Some y \<Longrightarrow> \<exists>x \<in> set xs. f x = Some y"
  by (induction xs) (auto split: option.splits)

lemma first_some_None: "first_some f xs = None \<longleftrightarrow> (\<forall>x \<in> set xs. f x = None)"
  by (induction xs) (auto split: option.splits)

lemma seg_span_take:
  assumes "n \<le> seg_span s"
  shows "CHR ''/'' \<notin> set (take n s)" "length (take n s) = n"
proof -
  have "take n s = take n (takeWhile (\<lambda>c. c \<noteq> CHR ''/'') s)"
    using assms unfolding seg_span_def by (metis take_all takeWhile_eq_take take_take min.absorb1)
  then show "CHR ''/'' \<notin> set (take n s)"
    by (metis (mono_tags, lifting) in_set_takeD set_takeWhileD)
  have "seg_span s \<le> length s" by (simp add: seg_span_def length_takeWhile_le)
  with assms show "length (take n s) = n" by simp
qed

lemma seg_span_ge:
  assumes "CHR ''/'' \<notin> set v"
  shows "length v \<le> seg_span (v @ t)"
proof -
  have "takeWhile (\<lambda>c. c \<noteq> CHR ''/'') (v @ t) = v @ takeWhile (\<lambda>c. c \<noteq> CHR ''/'') t"
    using assms by (intro takeWhile_append2) auto
  then show ?thesis by (simp add: seg_span_def)
qed

lemma dot_span_le: "dot_span s \<le> length s"
  by (induction s) auto

lemma rx_exec_sound: "rx_exec r s = Some vs \<Longrightarrow> rx_lang r vs s"
proof (induction r s arbitrary: vs rule: rx_exec.induct)
  case (1 s)
  then show ?case by (auto split: if_splits)
next
  case (2 c r s)
  then show ?case by (auto split: list.splits if_splits)
next
  case (3 r s)
  then obtain n ws where n: "1 \<le> n" "n \<le> seg_span s" and ws: "rx_exec r (drop n s) = Some ws"
    and vs: "vs = take n s # ws"
    by (auto dest!: first_some_Some simp del: upt_Suc)
  have "rx_lang r ws (drop n s)"
    using "3.IH" n ws by auto
  moreover have "take n s \<noteq> []" using seg_span_take(2) [OF n(2)] n(1) by auto
  ultimately show ?case
    using vs seg_span_take(1) [OF n(2)] by (auto intro: exI [of _ "drop n s"])
next
  case (4 r s)
  then obtain n ws where n: "n < Suc (dot_span s)" and ws: "rx_exec r (drop n s) = Some ws"
    and vs: "vs = take n s # ws"
    by (auto dest!: first_some_Some simp del: upt_Suc)
  have "rx_lang r ws (drop n s)"
    using "4.IH" n ws by auto
  then show ?case
    using vs n by (auto intro: exI [of _ "drop n s"])
qed

lemma rx_exec_complete: "rx_lang r vs s \<Longrightarrow> rx_exec r s \<noteq> None"
proof (induction r vs s rule: rx_lang.induct)
  case (1 vs s)
  then show ?case by simp
next
  case (2 c r vs s)
  then show ?case by auto
next
  case (3 r vs s)
  then obtain v ws t where v: "s = v @ t" "v \<noteq> []" "CHR ''/'' \<notin> set v" "rx_lang r ws t"
    by auto
  have "length v \<in> set (rev [1..<Suc (seg_span s)])"
    using v seg_span_ge [OF v(3), of t] by (cases v) auto
  moreover have "rx_exec r (drop (length v) s) \<noteq> None"
    using "3.IH" v "3.prems" by auto
  ultimately show ?case
    unfolding rx_exec.simps first_some_None by fastforce
next
  case (4 r vs s)
  then obtain v ws t where v: "s = v @ t" "length v \<le> dot_span s" "rx_lang r ws t"
    by auto
  have "length v \<in> set (rev [0..<Suc (dot_span s)])"
    using v by auto
  moreover have "rx_exec r (drop (length v) s) \<noteq> None"
    using "4.IH" v "4.prems" by auto
  ultimately show ?case
    unfolding rx_exec.simps first_some_None by fastforce
qed

subsection \<open>A compiled expression matches in one way\<close>

text \<open>
  In what the compiler emits a group is followed by the end or by a slash, and no wildcard
  follows a wildcard.
\<close>

fun at_boundary :: "rx list \<Rightarrow> bool" where
  "at_boundary [] = True"
| "at_boundary (x # _) = (x = R_Char CHR ''/'')"

fun rx_wf :: "rx list \<Rightarrow> bool" where
  "rx_wf [] = True"
| "rx_wf (R_Char c # r) = rx_wf r"
| "rx_wf (R_Seg # r) = (at_boundary r \<and> rx_wf r)"
| "rx_wf (R_All # r) = (at_boundary r \<and> rx_wf r \<and> R_All \<notin> set r)"

definition slashes :: "string \<Rightarrow> nat" where
  "slashes s = length (filter (\<lambda>c. c = CHR ''/'') s)"

lemma slashes_simps [simp]:
  "slashes [] = 0" "slashes (c # s) = (if c = CHR ''/'' then Suc (slashes s) else slashes s)"
  "slashes (s @ t) = slashes s + slashes t"
  by (simp_all add: slashes_def)

lemma slashes_none: "CHR ''/'' \<notin> set s \<Longrightarrow> slashes s = 0"
  by (induction s) auto

lemma rx_lang_boundary:
  assumes "at_boundary r" "rx_lang r vs t"
  shows "t = [] \<or> (\<exists>u. t = CHR ''/'' # u)"
  using assms by (cases r) auto

lemma rx_lang_slashes:
  "R_All \<notin> set r \<Longrightarrow> rx_lang r vs t \<Longrightarrow>
     slashes t = length (filter (\<lambda>x. x = R_Char CHR ''/'') r)"
  by (induction r vs t rule: rx_lang.induct) (auto simp: slashes_none)

lemma rx_lang_Nil_boundary:
  "at_boundary r \<Longrightarrow> rx_lang r vs [] \<Longrightarrow> r = []"
  by (cases r) auto

lemma split_at_slash:
  assumes "v @ t = v' @ t'" "CHR ''/'' \<notin> set v" "CHR ''/'' \<notin> set v'"
    and "t = [] \<or> (\<exists>u. t = CHR ''/'' # u)" "t' = [] \<or> (\<exists>u. t' = CHR ''/'' # u)"
  shows "v = v'"
proof -
  have "takeWhile (\<lambda>c. c \<noteq> CHR ''/'') (w @ x) = w"
    if "CHR ''/'' \<notin> set w" "x = [] \<or> (\<exists>u. x = CHR ''/'' # u)" for w x :: string
  proof -
    have "takeWhile (\<lambda>c. c \<noteq> CHR ''/'') (w @ x) = w @ takeWhile (\<lambda>c. c \<noteq> CHR ''/'') x"
      using that(1) by (intro takeWhile_append2) auto
    with that(2) show ?thesis by auto
  qed
  with assms show ?thesis by metis
qed

lemma wildcard_suffix_unique:
  assumes eq: "v @ t = v' @ t'" and b: "at_boundary r" and no: "R_All \<notin> set r"
    and l: "rx_lang r ws t" and l': "rx_lang r ws' t'" and le: "length v \<le> length v'"
  shows "v = v'"
proof -
  from eq le obtain u where u: "v' = v @ u" "t = u @ t'"
    by (auto simp: append_eq_append_conv2)
  have "slashes t = slashes t'"
    using rx_lang_slashes [OF no l] rx_lang_slashes [OF no l'] by simp
  then have none: "slashes u = 0" using u by simp
  have "u = []"
  proof (rule ccontr)
    assume "u \<noteq> []"
    with rx_lang_boundary [OF b l] u obtain w where "u = CHR ''/'' # w"
      by (cases u) auto
    with none show False by simp
  qed
  with u show ?thesis by simp
qed

lemma rx_lang_unique:
  "rx_wf r \<Longrightarrow> rx_lang r vs s \<Longrightarrow> rx_lang r ws s \<Longrightarrow> vs = ws"
proof (induction r arbitrary: vs ws s)
  case Nil
  then show ?case by simp
next
  case (Cons x r)
  show ?case
  proof (cases x)
    case (R_Char c)
    with Cons show ?thesis by auto
  next
    case R_Seg
    with Cons.prems(2) obtain v vs' t where
      v: "vs = v # vs'" "s = v @ t" "CHR ''/'' \<notin> set v" "rx_lang r vs' t"
      by auto
    from R_Seg Cons.prems(3) obtain v' ws' t' where
      v': "ws = v' # ws'" "s = v' @ t'" "CHR ''/'' \<notin> set v'" "rx_lang r ws' t'"
      by auto
    have b: "at_boundary r" and wf: "rx_wf r" using Cons.prems R_Seg by auto
    have "v @ t = v' @ t'" using v(2) v'(2) by simp
    then have "v = v'"
      using v(3) v'(3) rx_lang_boundary [OF b v(4)] rx_lang_boundary [OF b v'(4)]
      by (rule split_at_slash)
    with v v' Cons.IH [OF wf] show ?thesis by auto
  next
    case R_All
    with Cons.prems(2) obtain v vs' t where
      v: "vs = v # vs'" "s = v @ t" "rx_lang r vs' t"
      by auto
    from R_All Cons.prems(3) obtain v' ws' t' where
      v': "ws = v' # ws'" "s = v' @ t'" "rx_lang r ws' t'"
      by auto
    have b: "at_boundary r" and wf: "rx_wf r" and no: "R_All \<notin> set r"
      using Cons.prems R_All by auto
    have eq: "v @ t = v' @ t'" using v(2) v'(2) by simp
    have "v = v'"
    proof (cases "length v \<le> length v'")
      case True
      then show ?thesis using wildcard_suffix_unique [OF eq b no v(3) v'(3)] by simp
    next
      case False
      then show ?thesis using wildcard_suffix_unique [OF eq [symmetric] b no v'(3) v(3)] by simp
    qed
    with v v' Cons.IH [OF wf] show ?thesis by auto
  qed
qed

text \<open>The search finds exactly the match there is.\<close>

lemma rx_exec_iff: "rx_wf r \<Longrightarrow> rx_exec r s = Some vs \<longleftrightarrow> rx_lang r vs s"
  using rx_exec_sound rx_exec_complete rx_lang_unique by (metis not_None_eq)

subsection \<open>What the compiler emits\<close>

lemma join_parts_Cons:
  "ps \<noteq> [] \<Longrightarrow> join_parts (p # ps) = p @ R_Char CHR ''/'' # join_parts ps"
  by (cases ps) auto

text \<open>A segment that compiles is a wildcard, a parameter or a literal.\<close>

lemma parse_segment_cases:
  assumes "parse_segment route keys seg = Inr (keys', part)"
  obtains (wild) "seg = ''*''" "''*'' \<notin> set keys" "keys' = keys @ [''*'']" "part = [R_All]"
    | (param) "take 1 seg = '':''" "is_identifier (tl seg)" "tl seg \<notin> set keys"
        "keys' = keys @ [tl seg]" "part = [R_Seg]" "seg \<noteq> ''*''"
    | (lit) "CHR ''*'' \<notin> set seg" "CHR '':'' \<notin> set seg" "keys' = keys"
        "part = map R_Char seg" "seg \<noteq> ''*''" "take 1 seg \<noteq> '':''"
  using assms unfolding parse_segment_def Let_def
  by (auto split: if_splits)

lemma rx_wf_literal [simp]: "rx_wf (map R_Char cs @ r) = rx_wf r"
  by (induction cs) auto

lemma R_All_literal [simp]: "R_All \<in> set (map R_Char cs) \<longleftrightarrow> False"
  by auto

lemma parse_segment_list_wf:
  "parse_segment_list route keys ss = Inr (keys', parts) \<Longrightarrow>
     rx_wf (join_parts parts)
     \<and> (''*'' \<in> set keys \<longrightarrow> R_All \<notin> set (join_parts parts))
     \<and> (distinct keys \<longrightarrow> distinct keys') \<and> length parts = length ss"
proof (induction ss arbitrary: keys parts)
  case Nil
  then show ?case by auto
next
  case (Cons s ss)
  then obtain k1 p ps where
    seg: "parse_segment route keys s = Inr (k1, p)" and
    rest: "parse_segment_list route k1 ss = Inr (keys', ps)" and parts: "parts = p # ps"
    by (auto simp: res_bind_Inr_iff)
  note IH = Cons.IH [OF rest]
  have wf_rest: "rx_wf r \<Longrightarrow> at_boundary r \<Longrightarrow> (''*'' \<in> set k1 \<longrightarrow> R_All \<notin> set r) \<Longrightarrow>
      rx_wf (p @ r) \<and> (''*'' \<in> set keys \<longrightarrow> R_All \<notin> set (p @ r))" for r
    using seg by (cases rule: parse_segment_cases) auto
  have "distinct keys \<longrightarrow> distinct k1"
    using seg by (cases rule: parse_segment_cases) auto
  moreover have "rx_wf (join_parts parts) \<and> (''*'' \<in> set keys \<longrightarrow> R_All \<notin> set (join_parts parts))"
  proof (cases "ps = []")
    case True
    then show ?thesis using wf_rest [of "[]"] by (simp add: parts)
  next
    case False
    then show ?thesis
      using wf_rest [of "R_Char CHR ''/'' # join_parts ps"] IH by (simp add: parts join_parts_Cons)
  qed
  ultimately show ?case using IH by (simp add: parts)
qed

lemma compile_wf:
  assumes "compilePondRoute route = Inr c"
  shows "rx_wf (cr_regexp c)" "distinct (cr_keys c)" "cr_route c = route" "CHR ''?'' \<notin> set route"
  using assms parse_segment_list_wf [of route "[]" "js_split CHR ''/'' route"]
  by (auto simp: compilePondRoute_def res_bind_Inr_iff split: if_splits)

subsection \<open>Which declarations are routes\<close>

definition segment_key :: "string \<Rightarrow> string list" where
  "segment_key seg =
     (if seg = ''*'' then [''*''] else if take 1 seg = '':'' then [tl seg] else [])"

definition valid_segment :: "string \<Rightarrow> bool" where
  "valid_segment seg \<longleftrightarrow> seg = ''*'' \<or> take 1 seg = '':'' \<and> is_identifier (tl seg)
     \<or> CHR ''*'' \<notin> set seg \<and> CHR '':'' \<notin> set seg"

definition valid_route :: "string \<Rightarrow> bool" where
  "valid_route route \<longleftrightarrow> CHR ''?'' \<notin> set route
     \<and> list_all valid_segment (js_split CHR ''/'' route)
     \<and> distinct (concat (map segment_key (js_split CHR ''/'' route)))"

lemma identifier_no_star: "is_identifier k \<Longrightarrow> CHR ''*'' \<notin> set k"
  by (auto simp: is_identifier_def is_alnum_def list_all_iff split: list.splits)

lemma identifier_not_wild: "is_identifier k \<Longrightarrow> k \<noteq> ''*''"
  using identifier_no_star by fastforce

lemma param_segment: "take 1 seg = '':'' \<Longrightarrow> seg = CHR '':'' # tl seg"
  by (cases seg) auto

lemma parse_segment_Inr:
  "parse_segment route keys seg = Inr (keys', part) \<longleftrightarrow>
     valid_segment seg \<and> set keys \<inter> set (segment_key seg) = {} \<and> keys' = keys @ segment_key seg
     \<and> part = (if seg = ''*'' then [R_All] else if take 1 seg = '':'' then [R_Seg] else map R_Char seg)"
proof -
  have "take 1 seg = '':'' \<Longrightarrow> is_identifier (tl seg) \<Longrightarrow> CHR ''*'' \<notin> set seg"
    by (cases seg) (auto dest: identifier_no_star)
  moreover have "take 1 seg = '':'' \<Longrightarrow> CHR '':'' \<in> set seg"
    by (cases seg) auto
  ultimately show ?thesis
    unfolding parse_segment_def Let_def valid_segment_def segment_key_def by auto
qed

lemma parse_segment_list_Inr:
  "(\<exists>parts. parse_segment_list route keys ss = Inr (keys', parts)) \<longleftrightarrow>
     list_all valid_segment ss \<and> keys' = keys @ concat (map segment_key ss)
     \<and> (distinct keys \<longrightarrow> distinct keys')
     \<and> set keys \<inter> set (concat (map segment_key ss)) = {}
     \<and> distinct (concat (map segment_key ss))"
proof (induction ss arbitrary: keys)
  case Nil
  then show ?case by auto
next
  case (Cons s ss)
  have dist: "distinct (segment_key s)" by (simp add: segment_key_def)
  have "(\<exists>parts. parse_segment_list route keys (s # ss) = Inr (keys', parts)) \<longleftrightarrow>
      valid_segment s \<and> set keys \<inter> set (segment_key s) = {}
      \<and> (\<exists>parts. parse_segment_list route (keys @ segment_key s) ss = Inr (keys', parts))"
    by (auto simp: res_bind_Inr_iff parse_segment_Inr)
  then show ?case
    using dist unfolding Cons.IH by auto
qed

end
