(* ===== verification/Route_Props.thy ===== *)
theory Route_Props
  imports Route_Match
begin

text \<open>
  The contract of routes: which declarations compile, what an address must look like to match,
  and that parsing the address built from a route gives the parameters back.
\<close>

subsection \<open>Building\<close>

text \<open>The text a parameter contributes to the address.\<close>

definition built_value :: "obj \<Rightarrow> string \<Rightarrow> string" where
  "built_value params key =
     (case jm_get params key of
        Some (JStr v) \<Rightarrow> if key = ''*'' then dropWhile (\<lambda>c. c = CHR ''/'') v else encodeURIComponent v
      | _ \<Rightarrow> [])"

lemma build_segment_Inr:
  assumes "build_segment route params seg = Inr x" "valid_segment seg"
  shows "(segment_key seg = [] \<and> x = seg)
       \<or> (\<exists>k v. segment_key seg = [k] \<and> jm_get params k = Some (JStr v) \<and> v \<noteq> []
            \<and> x = built_value params k)"
proof -
  have "take 1 seg = '':'' \<Longrightarrow> valid_segment seg \<Longrightarrow> tl seg \<noteq> [] \<and> tl seg \<noteq> ''*''"
    by (cases seg) (auto simp: valid_segment_def is_identifier_def is_alnum_def split: list.splits)
  then show ?thesis
    using assms unfolding build_segment_def segment_key_def built_value_def Let_def
    by (auto split: if_splits option.splits json.splits)
qed

lemma rx_lang_literal: "rx_lang (map R_Char cs @ r) vs (cs @ t) = rx_lang r vs t"
  by (induction cs) auto

lemma dot_span_append:
  "dot_span w = length w \<Longrightarrow> t = [] \<or> (\<exists>u. t = CHR ''/'' # u) \<Longrightarrow> length w \<le> dot_span (w @ t)"
proof (induction w)
  case Nil
  then show ?case by simp
next
  case (Cons c w)
  from Cons.prems(1) have c: "c \<noteq> CHR 0x0A" "c \<noteq> CHR 0x0D"
      "take 3 (c # w) \<noteq> [CHR 0xE2, CHR 0x80, CHR 0xA8]"
      "take 3 (c # w) \<noteq> [CHR 0xE2, CHR 0x80, CHR 0xA9]" and w: "dot_span w = length w"
    by (auto split: if_splits)
  have "take 3 (c # w @ t) \<noteq> [CHR 0xE2, CHR 0x80, CHR 0xA8]"
       "take 3 (c # w @ t) \<noteq> [CHR 0xE2, CHR 0x80, CHR 0xA9]"
    using c(3,4) Cons.prems(2)
    by (cases w rule: list.exhaust; cases "tl w"; auto simp: numeral_3_eq_3)+
  with c(1,2) Cons.IH [OF w Cons.prems(2)] show ?case by simp
qed

lemma no_line_terminator_dropWhile:
  "no_line_terminator v \<Longrightarrow> no_line_terminator (dropWhile P v)"
proof (induction v)
  case Nil
  then show ?case by simp
next
  case (Cons c v)
  then have "no_line_terminator v" by (auto simp: no_line_terminator_def split: if_splits)
  with Cons show ?case by simp
qed

subsection \<open>Round trip\<close>

definition params_ok :: "obj \<Rightarrow> bool" where
  "params_ok params \<longleftrightarrow>
     (\<forall>k v. jm_get params k = Some (JStr v) \<longrightarrow> utf8 v)
     \<and> (\<forall>v. jm_get params ''*'' = Some (JStr v) \<longrightarrow> no_line_terminator v \<and> CHR ''?'' \<notin> set v)"

lemma build_segments_lang:
  assumes "parse_segment_list route keys ss = Inr (keys', parts)"
    and "build_segments route params ss = Inr xs" and ok: "params_ok params"
  shows "rx_lang (join_parts parts) (map (built_value params) (concat (map segment_key ss)))
           (js_join ''/'' xs) \<and> length xs = length ss"
  using assms(1,2)
proof (induction ss arbitrary: keys parts xs)
  case Nil
  then show ?case by auto
next
  case (Cons s ss)
  from Cons.prems obtain k1 p ps where
    seg: "parse_segment route keys s = Inr (k1, p)" and
    rest: "parse_segment_list route k1 ss = Inr (keys', ps)" and parts: "parts = p # ps"
    by (auto simp: res_bind_Inr_iff)
  from Cons.prems obtain x xs' where
    x: "build_segment route params s = Inr x" and
    xs': "build_segments route params ss = Inr xs'" and xs: "xs = x # xs'"
    by (auto simp: res_bind_Inr_iff)
  note IH = Cons.IH [OF rest xs']
  from seg have valid: "valid_segment s"
    and p: "p = (if s = ''*'' then [R_All] else if take 1 s = '':'' then [R_Seg] else map R_Char s)"
    by (simp_all add: parse_segment_Inr)
  have head: "rx_lang (p @ r) (map (built_value params) (segment_key s) @ vs) (x @ t)"
    if "rx_lang r vs t" "t = [] \<or> (\<exists>u. t = CHR ''/'' # u)" for r vs t
    using build_segment_Inr [OF x valid]
  proof (elim disjE exE conjE)
    assume "segment_key s = []" "x = s"
    with p that(1) show ?thesis
      by (auto simp: segment_key_def rx_lang_literal split: if_splits)
  next
    fix k v
    assume k: "segment_key s = [k]" "jm_get params k = Some (JStr v)" "v \<noteq> []"
      "x = built_value params k"
    show ?thesis
    proof (cases "s = ''*''")
      case True
      with k have "no_line_terminator x"
        using ok no_line_terminator_dropWhile by (simp add: segment_key_def built_value_def params_ok_def)
      then have "length x \<le> dot_span (x @ t)"
        using dot_span_append [OF _ that(2)] by (simp add: no_line_terminator_def)
      with True p k that(1) show ?thesis by auto
    next
      case False
      with k have colon: "take 1 s = '':''" and key: "k = tl s"
        by (auto simp: segment_key_def split: if_splits)
      then have "CHR '':'' \<in> set s" by (cases s) auto
      with False colon key valid p have "p = [R_Seg]" and "k \<noteq> ''*''"
        using identifier_not_wild [of "tl s"] by (auto simp: valid_segment_def)
      with k that(1) encode_no_reserved(1) show ?thesis
        by (auto simp: built_value_def)
    qed
  qed
  show ?case
  proof (cases "ss = []")
    case True
    with rest xs' have "ps = []" "xs' = []" by auto
    then show ?thesis using head [of "[]" "[]" "[]"] True by (simp add: parts xs)
  next
    case False
    then have "ps \<noteq> []" "xs' \<noteq> []"
      using IH parse_segment_list_wf [OF rest] by auto
    then show ?thesis
      using head [of "R_Char CHR ''/'' # join_parts ps" _ "CHR ''/'' # js_join ''/'' xs'"] IH
      by (simp add: parts xs join_parts_Cons js_join_Cons)
  qed
qed

lemma js_join_chars: "c \<in> set (js_join sep ss) \<Longrightarrow> c \<in> set sep \<or> (\<exists>s \<in> set ss. c \<in> set s)"
  by (induction sep ss rule: js_join.induct) auto

lemma build_segments_chars:
  "build_segments route params ss = Inr xs \<Longrightarrow> list_all valid_segment ss \<Longrightarrow> params_ok params \<Longrightarrow>
     (\<forall>s \<in> set ss. CHR ''?'' \<notin> set s) \<Longrightarrow> \<forall>x \<in> set xs. CHR ''?'' \<notin> set x"
proof (induction ss arbitrary: xs)
  case Nil
  then show ?case by simp
next
  case (Cons s ss)
  then obtain x xs' where x: "build_segment route params s = Inr x" and
    "build_segments route params ss = Inr xs'" and xs: "xs = x # xs'"
    by (auto simp: res_bind_Inr_iff)
  with Cons have "\<forall>y \<in> set xs'. CHR ''?'' \<notin> set y" by simp
  moreover have "CHR ''?'' \<notin> set x"
    using build_segment_Inr [OF x] Cons.prems
    by (auto simp: built_value_def params_ok_def encode_no_reserved dest: set_dropWhileD
        split: if_splits)
  ultimately show ?case by (simp add: xs)
qed

lemma collect_params_get:
  assumes "distinct ks" and "\<And>k. k \<in> set ks \<Longrightarrow> k \<noteq> ''*'' \<Longrightarrow> decodeURIComponent (f k) = Some (g k)"
  shows "\<exists>res. collect_params ks (map f ks) acc = Inr res
    \<and> (\<forall>k. jm_get res k =
          (if k \<in> set ks then Some (if k = ''*'' then squeeze_slashes (''/'' @ f k) else g k)
           else jm_get acc k))"
  using assms
proof (induction ks arbitrary: acc)
  case Nil
  then show ?case by simp
next
  case (Cons k ks)
  let ?v = "if k = ''*'' then squeeze_slashes (''/'' @ f k) else g k"
  from Cons.prems have IH: "\<exists>res. collect_params ks (map f ks) (jm_set k ?v acc) = Inr res
    \<and> (\<forall>k'. jm_get res k' =
          (if k' \<in> set ks then Some (if k' = ''*'' then squeeze_slashes (''/'' @ f k') else g k')
           else jm_get (jm_set k ?v acc) k'))"
    by (intro Cons.IH) auto
  have "collect_params (k # ks) (map f (k # ks)) acc = collect_params ks (map f ks) (jm_set k ?v acc)"
    using Cons.prems(2) [of k] by (simp add: Let_def)
  with IH show ?case using Cons.prems(1) by (auto simp: jm.get_put)
qed

lemma build_segments_given:
  "k \<in> set (concat (map segment_key ss)) \<Longrightarrow> build_segments route params ss = Inr xs \<Longrightarrow>
     list_all valid_segment ss \<Longrightarrow> \<exists>v. jm_get params k = Some (JStr v)"
proof (induction ss arbitrary: xs)
  case Nil
  then show ?case by simp
next
  case (Cons s ss)
  then obtain x xs' where x: "build_segment route params s = Inr x" and
    xs': "build_segments route params ss = Inr xs'"
    by (auto simp: res_bind_Inr_iff)
  show ?case
  proof (cases "k \<in> set (segment_key s)")
    case True
    then show ?thesis using build_segment_Inr [OF x] Cons.prems(3) by auto
  next
    case False
    then show ?thesis using Cons.IH [OF _ xs'] Cons.prems by auto
  qed
qed

text \<open>
  A declaration compiles exactly when it has no query, every segment is a wildcard, a
  parameter with an identifier for a name, or a literal without \<open>*\<close> and \<open>:\<close>, and no name occurs
  twice; the compiled route then carries those names in order.
\<close>

theorem compilePondRoute_valid:
  "(\<exists>c. compilePondRoute route = Inr c) \<longleftrightarrow> valid_route route"
proof -
  have "(\<exists>c. compilePondRoute route = Inr c) \<longleftrightarrow> CHR ''?'' \<notin> set route \<and>
      (\<exists>keys. \<exists>parts. parse_segment_list route [] (js_split CHR ''/'' route) = Inr (keys, parts))"
    by (auto simp: compilePondRoute_def res_bind_Inr_iff)
  then show ?thesis
    unfolding parse_segment_list_Inr by (auto simp: valid_route_def)
qed

lemma parse_segment_list_keys:
  "parse_segment_list route keys ss = Inr (keys', parts) \<Longrightarrow>
     keys' = keys @ concat (map segment_key ss)"
  using parse_segment_list_Inr by blast

lemma compile_keys:
  assumes "compilePondRoute route = Inr c"
  shows "cr_keys c = concat (map segment_key (js_split CHR ''/'' route))"
  using assms parse_segment_list_keys
  by (fastforce simp: compilePondRoute_def res_bind_Inr_iff split: if_splits)

text \<open>
  The greedy search of a compiled route's expression finds a match exactly when the path
  has the shape the pattern declares, and the captured values are the only ones that fit.
\<close>

theorem compiled_match_unique:
  assumes "compilePondRoute route = Inr c"
  shows "rx_exec (cr_regexp c) path = Some captured \<longleftrightarrow> rx_lang (cr_regexp c) captured path"
  using rx_exec_iff [OF compile_wf(1) [OF assms]] .

theorem compiled_match_unique_witness:
  "\<exists>c. compilePondRoute ''a/:b'' = Inr c \<and> rx_lang (cr_regexp c) [''x''] ''a/x''"
proof -
  obtain c where c: "compilePondRoute ''a/:b'' = Inr c"
    and "rx_exec (cr_regexp c) ''a/x'' = Some [''x'']"
    by (simp add: compilePondRoute_def parse_segment_def is_identifier_def is_alnum_def Let_def
        seg_span_def)
  with compiled_match_unique [OF c, of "''a/x''" "[''x'']"] show ?thesis by blast
qed

text \<open>
  C24. Round trip: an address built from a route and its parameters parses, under the same
  route, to those parameters with an empty query; the wildcard comes back with one leading
  slash and its runs of slashes squeezed. Parameters are arbitrary well-formed strings; the
  wildcard's text must not contain a question mark or a line terminator.
\<close>

theorem route_roundtrip:
  assumes built: "buildPondRoute route params = Inr address" and ok: "params_ok params"
  shows "\<exists>ep. parsePondRoute route address = Inr (Some ep) \<and> ep_query ep = [] \<and>
     (\<forall>seg k. seg \<in> set (js_split CHR ''/'' route) \<longrightarrow> segment_key seg = [k] \<longrightarrow>
        (\<exists>v. jm_get params k = Some (JStr v) \<and> jm_get (ep_params ep) k =
           Some (if k = ''*'' then squeeze_slashes (''/'' @ dropWhile (\<lambda>c. c = CHR ''/'') v) else v)))"
proof -
  let ?ss = "js_split CHR ''/'' route"
  from built obtain c xs where c: "compilePondRoute route = Inr c"
    and xs: "build_segments route params ?ss = Inr xs" and address: "address = js_join ''/'' xs"
    by (auto simp: buildPondRoute_def res_bind_Inr_iff)
  then obtain keys parts where pl: "parse_segment_list route [] ?ss = Inr (keys, parts)"
    and rx: "cr_regexp c = join_parts parts"
    by (auto simp: compilePondRoute_def res_bind_Inr_iff split: if_splits)
  let ?ks = "concat (map segment_key ?ss)"
  have valid: "valid_route route" using c compilePondRoute_valid by blast
  then have segs: "list_all valid_segment ?ss" by (simp add: valid_route_def)
  have exec: "rx_exec (cr_regexp c) address = Some (map (built_value params) ?ks)"
    using build_segments_lang [OF pl xs ok] rx_exec_iff [OF compile_wf(1) [OF c]]
    by (simp add: address rx)
  have "\<forall>s \<in> set ?ss. CHR ''?'' \<notin> set s"
    using compile_wf(4) [OF c] js_split_subset by blast
  then have "CHR ''?'' \<notin> set address"
    using build_segments_chars [OF xs segs ok] js_join_chars [of "CHR ''?''" "''/''" xs]
    by (auto simp: address)
  then have split: "js_split CHR ''?'' address = [address]" by (rule js_split_no_sep)
  define val where "val k = (case jm_get params k of Some (JStr v) \<Rightarrow> v | _ \<Rightarrow> [])" for k
  have given: "\<exists>v. jm_get params k = Some (JStr v)" if "k \<in> set ?ks" for k
    using that xs segs by (rule build_segments_given)
  have "decodeURIComponent (built_value params k) = Some (val k)" if "k \<in> set ?ks" "k \<noteq> ''*''" for k
    using given [OF that(1)] ok that(2) by (auto simp: built_value_def val_def params_ok_def decode_encode)
  moreover have "distinct ?ks" using valid by (simp add: valid_route_def)
  ultimately obtain res where res: "collect_params ?ks (map (built_value params) ?ks) [] = Inr res"
    and get: "\<And>k. jm_get res k = (if k \<in> set ?ks then
        Some (if k = ''*'' then squeeze_slashes (''/'' @ built_value params k) else val k) else None)"
    using collect_params_get [of ?ks "built_value params" val "[]"] by auto
  have parse: "parsePondRoute route address = Inr (Some \<lparr>ep_params = res, ep_query = []\<rparr>)"
    by (simp add: parsePondRoute_def c split exec compile_keys [OF c] res)
  have "\<exists>v. jm_get params k = Some (JStr v) \<and> jm_get res k =
      Some (if k = ''*'' then squeeze_slashes (''/'' @ dropWhile (\<lambda>c. c = CHR ''/'') v) else v)"
    if "seg \<in> set ?ss" "segment_key seg = [k]" for seg k
  proof -
    have k: "k \<in> set ?ks" using that by force
    with given [OF k] get [of k] show ?thesis by (auto simp: built_value_def val_def)
  qed
  with parse show ?thesis by auto
qed

theorem route_roundtrip_witness:
  "\<exists>ep. parsePondRoute ''/chat/:room/*'' ''/chat/x%20y/p/q'' = Inr (Some ep) \<and>
     jm_get (ep_params ep) ''room'' = Some ''x y'' \<and> jm_get (ep_params ep) ''*'' = Some ''/p/q''"
proof -
  let ?ps = "[(''room'', JStr ''x y''), (''*'', JStr ''/p/q'')]"
  have b: "buildPondRoute ''/chat/:room/*'' ?ps = Inr ''/chat/x%20y/p/q''"
    by code_simp
  have ok: "params_ok ?ps"
    by (auto simp: params_ok_def jm_get_Cons no_line_terminator_def utf8_all_ascii
        split: if_splits)
  have segs: "js_split CHR ''/'' ''/chat/:room/*'' = [[], ''chat'', '':room'', ''*'']"
    by code_simp
  from route_roundtrip [OF b ok] obtain ep where
    parse: "parsePondRoute ''/chat/:room/*'' ''/chat/x%20y/p/q'' = Inr (Some ep)" and
    params: "\<And>seg k. seg \<in> set (js_split CHR ''/'' ''/chat/:room/*'') \<Longrightarrow> segment_key seg = [k] \<Longrightarrow>
      \<exists>v. jm_get ?ps k = Some (JStr v) \<and> jm_get (ep_params ep) k =
        Some (if k = ''*'' then squeeze_slashes (''/'' @ dropWhile (\<lambda>c. c = CHR ''/'') v) else v)"
    by blast
  have "jm_get (ep_params ep) ''room'' = Some ''x y''"
    using params [of "'':room''" "''room''"] by (simp add: segs segment_key_def jm_get_Cons)
  moreover have "jm_get (ep_params ep) ''*'' = Some ''/p/q''"
    using params [of "''*''" "''*''"] by (simp add: segs segment_key_def jm_get_Cons)
  ultimately show ?thesis using parse by blast
qed

end
