(* ===== verification/Json_Parse.thy ===== *)
theory Json_Parse
  imports Json Uri
begin

text \<open>
  \<open>JSON.parse\<close> of the JavaScript library, on UTF-8 texts, for values whose numbers are integers (a
  text with any other number is refused here, for want of a value). Reading back what
  \<open>JSON.stringify\<close> wrote gives the same value. The components that parse texts have the parser as a
  parameter; this one is the instance for theorems about what travels between them.
\<close>

subsection \<open>Strings\<close>

definition json_space :: "char \<Rightarrow> bool" where
  "json_space c \<longleftrightarrow> c \<in> {CHR 0x20, CHR 0x09, CHR 0x0A, CHR 0x0D}"

definition skip_ws :: "string \<Rightarrow> string" where
  "skip_ws s = dropWhile json_space s"

text \<open>A code unit of four hexadecimal digits, and a code point as bytes.\<close>

definition json_unit :: "string \<Rightarrow> (nat \<times> string) option" where
  "json_unit s =
     (case s of
        a # b # c # d # r \<Rightarrow>
          (case (hex_val a, hex_val b, hex_val c, hex_val d) of
             (Some p, Some q, Some u, Some v) \<Rightarrow> Some (4096 * p + 256 * q + 16 * u + v, r)
           | _ \<Rightarrow> None)
      | _ \<Rightarrow> None)"

definition utf8_bytes :: "nat \<Rightarrow> string" where
  "utf8_bytes n =
     (if n < 128 then [char_of n]
      else if n < 2048 then [char_of (192 + n div 64), char_of (128 + n mod 64)]
      else if n < 65536 then [char_of (224 + n div 4096), char_of (128 + n div 64 mod 64), char_of (128 + n mod 64)]
      else [char_of (240 + n div 262144), char_of (128 + n div 4096 mod 64), char_of (128 + n div 64 mod 64),
            char_of (128 + n mod 64)])"

text \<open>The low half of a surrogate pair, if the text goes on with one.\<close>

definition low_surrogate :: "string \<Rightarrow> (nat \<times> string) option" where
  "low_surrogate s =
     (case s of
        a # b # r \<Rightarrow>
          if a = CHR 0x5C \<and> b = CHR ''u''
          then (case json_unit r of Some (l, q) \<Rightarrow> if 56320 \<le> l \<and> l < 57344 then Some (l, q) else None | None \<Rightarrow> None)
          else None
      | _ \<Rightarrow> None)"

definition json_unicode :: "string \<Rightarrow> (string \<times> string) option" where
  "json_unicode s =
     (case json_unit s of
        None \<Rightarrow> None
      | Some (h, r) \<Rightarrow>
          if 55296 \<le> h \<and> h < 56320
          then (case low_surrogate r of
                  Some (l, q) \<Rightarrow> Some (utf8_bytes (65536 + 1024 * (h - 55296) + (l - 56320)), q)
                | None \<Rightarrow> Some (utf8_bytes h, r))
          else Some (utf8_bytes h, r))"

definition json_unescape :: "string \<Rightarrow> (string \<times> string) option" where
  "json_unescape s =
     (case s of
        [] \<Rightarrow> None
      | c # r \<Rightarrow>
          if c = CHR 0x22 \<or> c = CHR 0x5C \<or> c = CHR ''/'' then Some ([c], r)
          else if c = CHR ''b'' then Some ([CHR 0x08], r)
          else if c = CHR ''t'' then Some ([CHR 0x09], r)
          else if c = CHR ''n'' then Some ([CHR 0x0A], r)
          else if c = CHR ''f'' then Some ([CHR 0x0C], r)
          else if c = CHR ''r'' then Some ([CHR 0x0D], r)
          else if c = CHR ''u'' then json_unicode r
          else None)"

lemma json_unit_length: "json_unit s = Some (n, r) \<Longrightarrow> length r < length s"
  by (auto simp: json_unit_def split: list.splits option.splits)

lemma low_surrogate_length: "low_surrogate s = Some (n, r) \<Longrightarrow> length r < length s"
  by (auto simp: low_surrogate_def split: list.splits option.splits if_splits dest!: json_unit_length)

lemma json_unescape_length: "json_unescape s = Some (bs, r) \<Longrightarrow> length r < length s"
  by (auto simp: json_unescape_def json_unicode_def split: list.splits option.splits if_splits
      dest!: json_unit_length low_surrogate_length)

text \<open>The rest of a string after its opening quote.\<close>

function json_chars :: "string \<Rightarrow> (string \<times> string) option" where
  "json_chars s =
     (case s of
        [] \<Rightarrow> None
      | c # t \<Rightarrow>
          if c = CHR 0x22 then Some ([], t)
          else if c = CHR 0x5C
          then (case json_unescape t of
                  None \<Rightarrow> None
                | Some (bs, r) \<Rightarrow> map_option (\<lambda>(cs, q). (bs @ cs, q)) (json_chars r))
          else if byte c < 32 then None
          else map_option (\<lambda>(cs, q). (c # cs, q)) (json_chars t))"
  by pat_completeness auto
termination
  by (relation "measure length") (auto dest: json_unescape_length)

declare json_chars.simps [simp del]

lemma json_chars_length: "json_chars s = Some (cs, r) \<Longrightarrow> length r < length s"
proof (induction s arbitrary: cs rule: json_chars.induct)
  case (1 s)
  show ?case
  proof (cases s)
    case Nil
    then show ?thesis using "1.prems" by (simp add: json_chars.simps)
  next
    case (Cons c t)
    from "1.prems" consider (quote) "r = t"
      | (esc) bs q cs' where "json_unescape t = Some (bs, q)" "json_chars q = Some (cs', r)" "c \<noteq> CHR 0x22" "c = CHR 0x5C"
      | (char) cs' where "json_chars t = Some (cs', r)" "c \<noteq> CHR 0x22" "c \<noteq> CHR 0x5C" "\<not> byte c < 32"
      by (subst (asm) json_chars.simps) (auto simp: Cons split: if_splits option.splits)
    then show ?thesis
    proof cases
      case esc
      then show ?thesis using "1.IH"(1) [OF Cons] json_unescape_length [OF esc(1)] Cons by fastforce
    next
      case char
      then show ?thesis using "1.IH"(2) [OF Cons] Cons by fastforce
    qed (simp add: Cons)
  qed
qed

subsection \<open>Numbers\<close>

definition is_digit :: "char \<Rightarrow> bool" where
  "is_digit c \<longleftrightarrow> 48 \<le> byte c \<and> byte c < 58"

definition digits_value :: "string \<Rightarrow> nat" where
  "digits_value s = foldl (\<lambda>n c. 10 * n + (byte c - 48)) 0 s"

text \<open>The digits after a point, and the exponent with its sign; none are there, or they are in order.\<close>

definition json_fraction :: "string \<Rightarrow> (string \<times> string) option" where
  "json_fraction s =
     (case s of
        c # r \<Rightarrow>
          if c = CHR ''.''
          then (if takeWhile is_digit r = [] then None else Some (takeWhile is_digit r, dropWhile is_digit r))
          else Some ([], s)
      | [] \<Rightarrow> Some ([], []))"

definition json_exponent :: "string \<Rightarrow> (int \<times> string) option" where
  "json_exponent s =
     (case s of
        c # r \<Rightarrow>
          if c = CHR ''e'' \<or> c = CHR ''E''
          then (let neg = (r \<noteq> [] \<and> hd r = CHR ''-'');
                    q = (if r \<noteq> [] \<and> (hd r = CHR ''-'' \<or> hd r = CHR ''+'') then tl r else r)
                in if takeWhile is_digit q = [] then None
                   else Some ((if neg then -1 else 1) * int (digits_value (takeWhile is_digit q)), dropWhile is_digit q))
          else Some (0, s)
      | [] \<Rightarrow> Some (0, []))"

definition scaled :: "int \<Rightarrow> int \<Rightarrow> int option" where
  "scaled m e =
     (if 0 \<le> e then Some (m * 10 ^ nat e)
      else if m mod 10 ^ nat (- e) = 0 then Some (m div 10 ^ nat (- e)) else None)"

definition json_number :: "string \<Rightarrow> (json \<times> string) option" where
  "json_number s =
     (let neg = (s \<noteq> [] \<and> hd s = CHR ''-''); t = (if neg then tl s else s);
          ds = takeWhile is_digit t
      in if ds = [] \<or> (hd ds = CHR ''0'' \<and> tl ds \<noteq> []) then None
         else Option.bind (json_fraction (dropWhile is_digit t)) (\<lambda>(fs, r).
              Option.bind (json_exponent r) (\<lambda>(e, q).
              map_option (\<lambda>n. (JNum (if neg then - n else n), q))
                (scaled (int (digits_value (ds @ fs))) (e - int (length fs))))))"

lemma drop_digits_length: "length (dropWhile is_digit s) \<le> length s"
  by (rule length_dropWhile_le)

lemma json_number_length: "json_number s = Some (v, r) \<Longrightarrow> length r < length s"
proof -
  assume num: "json_number s = Some (v, r)"
  define t where "t = (if s \<noteq> [] \<and> hd s = CHR ''-'' then tl s else s)"
  from num have ds: "takeWhile is_digit t \<noteq> []"
    by (auto simp: json_number_def Let_def t_def split: if_splits)
  from num obtain fs q e where f: "json_fraction (dropWhile is_digit t) = Some (fs, q)" "json_exponent q = Some (e, r)"
    by (auto simp: json_number_def Let_def t_def [symmetric] bind_eq_Some_conv split: if_splits)
  have "length y \<le> length u" if "json_fraction u = Some (x, y)" for u x y
    using that length_dropWhile_le [of is_digit "tl u"] by (cases u) (auto simp: json_fraction_def split: if_splits)
  from this [OF f(1)] have "length q \<le> length (dropWhile is_digit t)" .
  moreover have "length r \<le> length q"
  proof (cases q)
    case (Cons c u)
    then show ?thesis
      using f(2) length_dropWhile_le [of is_digit "tl u"] length_dropWhile_le [of is_digit u]
      by (cases u) (auto simp: json_exponent_def Let_def split: if_splits)
  qed (use f(2) in \<open>simp add: json_exponent_def\<close>)
  moreover have "length (takeWhile is_digit t) + length (dropWhile is_digit t) = length t"
    by (metis length_append takeWhile_dropWhile_id)
  moreover have "length t \<le> length s" by (simp add: t_def)
  moreover have "0 < length (takeWhile is_digit t)" using ds by simp
  ultimately show ?thesis by linarith
qed

subsection \<open>Values\<close>

definition json_literal :: "string \<Rightarrow> (json \<times> string) option" where
  "json_literal s =
     (if take 4 s = ''null'' then Some (JNull, drop 4 s)
      else if take 4 s = ''true'' then Some (JBool True, drop 4 s)
      else if take 5 s = ''false'' then Some (JBool False, drop 5 s)
      else json_number s)"

text \<open>An object keeps the last value of a key, in the place of the first.\<close>

definition json_object :: "(string \<times> json) list \<Rightarrow> json" where
  "json_object fs = JObj (fold (\<lambda>(k, v) o'. jm_set k v o') fs [])"

definition next_char :: "string \<Rightarrow> (char \<times> string) option" where
  "next_char s = (case skip_ws s of [] \<Rightarrow> None | c # r \<Rightarrow> Some (c, r))"

text \<open>
  The first argument bounds the depth of the recursion; twice the length of the text is enough
  (\<open>parse_enough\<close>).
\<close>

fun parse_value :: "nat \<Rightarrow> string \<Rightarrow> (json \<times> string) option"
  and parse_elements :: "nat \<Rightarrow> string \<Rightarrow> (json list \<times> string) option"
  and parse_members :: "nat \<Rightarrow> string \<Rightarrow> ((string \<times> json) list \<times> string) option" where
  "parse_value 0 s = None"
| "parse_value (Suc n) s =
     Option.bind (next_char s) (\<lambda>(c, r).
       if c = CHR ''{''
       then (case next_char r of
               Some (d, q) \<Rightarrow> if d = CHR ''}'' then Some (JObj [], q)
                 else map_option (\<lambda>(fs, q). (json_object fs, q)) (parse_members n r)
             | None \<Rightarrow> None)
       else if c = CHR ''[''
       then (case next_char r of
               Some (d, q) \<Rightarrow> if d = CHR '']'' then Some (JArr [], q)
                 else map_option (\<lambda>(xs, q). (JArr xs, q)) (parse_elements n r)
             | None \<Rightarrow> None)
       else if c = CHR 0x22 then map_option (\<lambda>(cs, q). (JStr cs, q)) (json_chars r)
       else json_literal (c # r))"
| "parse_elements 0 s = None"
| "parse_elements (Suc n) s =
     Option.bind (parse_value n s) (\<lambda>(v, r).
     Option.bind (next_char r) (\<lambda>(c, q).
       if c = CHR '','' then map_option (\<lambda>(vs, t). (v # vs, t)) (parse_elements n q)
       else if c = CHR '']'' then Some ([v], q) else None))"
| "parse_members 0 s = None"
| "parse_members (Suc n) s =
     Option.bind (next_char s) (\<lambda>(c, r). if c \<noteq> CHR 0x22 then None else
     Option.bind (json_chars r) (\<lambda>(k, r1).
     Option.bind (next_char r1) (\<lambda>(d, r2). if d \<noteq> CHR '':'' then None else
     Option.bind (parse_value n r2) (\<lambda>(v, r3).
     Option.bind (next_char r3) (\<lambda>(e, q).
       if e = CHR '','' then map_option (\<lambda>(fs, t). ((k, v) # fs, t)) (parse_members n q)
       else if e = CHR ''}'' then Some ([(k, v)], q) else None)))))"

definition JSON_parse :: "string \<Rightarrow> json res" where
  "JSON_parse s =
     (case parse_value (Suc (2 * length s)) s of
        Some (v, r) \<Rightarrow> if skip_ws r = [] then Inr v else Inl (Plain_Error ''Unexpected text after JSON'')
      | None \<Rightarrow> Inl (Plain_Error ''Unexpected token in JSON''))"

subsection \<open>The bound is enough\<close>

lemma next_char_length: "next_char s = Some (c, r) \<Longrightarrow> length (c # r) \<le> length s"
  using length_dropWhile_le [of json_space s]
  by (auto simp: next_char_def skip_ws_def split: list.splits)

lemma json_literal_length: "json_literal s = Some (v, r) \<Longrightarrow> length r < length s"
proof -
  assume lit: "json_literal s = Some (v, r)"
  then have "s \<noteq> []" by (auto simp: json_literal_def json_number_def)
  then show ?thesis using lit json_number_length [of s v r] by (auto simp: json_literal_def split: if_splits)
qed

lemma parse_shorter_all:
  "(\<forall>s v r. parse_value n s = Some (v, r) \<longrightarrow> length r < length s)
   \<and> (\<forall>s vs r. parse_elements n s = Some (vs, r) \<longrightarrow> length r < length s)
   \<and> (\<forall>s fs r. parse_members n s = Some (fs, r) \<longrightarrow> length r < length s)"
proof (induction n)
  case (Suc n)
  then have ih: "parse_value n s = Some (v, r) \<Longrightarrow> length r < length s"
      "parse_elements n s = Some (vs, r) \<Longrightarrow> length r < length s"
      "parse_members n s = Some (fs, r) \<Longrightarrow> length r < length s" for s v r vs fs
    by blast+
  note dests = ih next_char_length json_chars_length json_literal_length
  have "length r < length s" if "parse_value (Suc n) s = Some (v, r)" for s v r
    using that by (auto simp: bind_eq_Some_conv split: if_splits option.splits dest!: dests)
  moreover have "length r < length s" if "parse_elements (Suc n) s = Some (vs, r)" for s vs r
    using that by (auto simp: bind_eq_Some_conv split: if_splits dest!: dests)
  moreover have "length r < length s" if "parse_members (Suc n) s = Some (fs, r)" for s fs r
    using that by (auto simp: bind_eq_Some_conv split: if_splits dest!: dests)
  ultimately show ?case by blast
qed simp

lemmas parse_shorter = parse_shorter_all [THEN conjunct1, rule_format]

lemma parse_enough:
  "(\<forall>s m. 2 * length s < n \<longrightarrow> n \<le> m \<longrightarrow> parse_value m s = parse_value n s)
   \<and> (\<forall>s m. Suc (2 * length s) < n \<longrightarrow> n \<le> m \<longrightarrow> parse_elements m s = parse_elements n s)
   \<and> (\<forall>s m. Suc (2 * length s) < n \<longrightarrow> n \<le> m \<longrightarrow> parse_members m s = parse_members n s)"
proof (induction n)
  case (Suc n)
  then have ih: "2 * length s < n \<Longrightarrow> n \<le> m \<Longrightarrow> parse_value m s = parse_value n s"
      "Suc (2 * length s) < n \<Longrightarrow> n \<le> m \<Longrightarrow> parse_elements m s = parse_elements n s"
      "Suc (2 * length s) < n \<Longrightarrow> n \<le> m \<Longrightarrow> parse_members m s = parse_members n s" for s m
    by blast+
  have "parse_value m s = parse_value (Suc n) s" if s: "2 * length s < Suc n" and le: "Suc n \<le> m" for s m
  proof -
    obtain m' where m: "m = Suc m'" "n \<le> m'" using le by (cases m) auto
    have "parse_members m' r = parse_members n r" "parse_elements m' r = parse_elements n r" if "next_char s = Some (c, r)" for c r
      using next_char_length [OF that] s m(2) by (auto intro!: ih)
    then show ?thesis by (auto simp: m(1) intro!: bind_option_cong split: option.split)
  qed
  moreover have "parse_elements m s = parse_elements (Suc n) s" if s: "Suc (2 * length s) < Suc n" and le: "Suc n \<le> m" for s m
  proof -
    obtain m' where m: "m = Suc m'" "n \<le> m'" using le by (cases m) auto
    have v: "parse_value m' s = parse_value n s" using s m(2) by (intro ih) auto
    have "parse_elements m' q = parse_elements n q" if "parse_value n s = Some (x, r)" "next_char r = Some (c, q)" for x r c q
      using parse_shorter [OF that(1)] next_char_length [OF that(2)] s m(2) by (intro ih) auto
    then show ?thesis by (auto simp: m(1) v intro!: bind_option_cong)
  qed
  moreover have "parse_members m s = parse_members (Suc n) s" if s: "Suc (2 * length s) < Suc n" and le: "Suc n \<le> m" for s m
  proof -
    obtain m' where m: "m = Suc m'" "n \<le> m'" using le by (cases m) auto
    have v: "parse_value m' r2 = parse_value n r2"
      if "next_char s = Some (c, r)" "json_chars r = Some (k, r1)" "next_char r1 = Some (d, r2)" for c r k r1 d r2
      using next_char_length [OF that(1)] json_chars_length [OF that(2)] next_char_length [OF that(3)] s m(2) by (intro ih) auto
    have "parse_members m' q = parse_members n q"
      if "next_char s = Some (c, r)" "json_chars r = Some (k, r1)" "next_char r1 = Some (d, r2)" "parse_value n r2 = Some (x, r3)"
        "next_char r3 = Some (e, q)" for c r k r1 d r2 x r3 e q
      using next_char_length [OF that(1)] json_chars_length [OF that(2)] next_char_length [OF that(3)] parse_shorter [OF that(4)]
        next_char_length [OF that(5)] s m(2) by (intro ih) auto
    with v show ?thesis by (auto simp: m(1) intro!: bind_option_cong)
  qed
  ultimately show ?case by blast
qed simp

subsection \<open>Reading back what was written\<close>

text \<open>Objects of JavaScript have each key once, at every depth.\<close>

fun json_ok :: "json \<Rightarrow> bool" where
  "json_ok (JArr xs) = list_all json_ok xs"
| "json_ok (JObj fs) = (distinct (map fst fs) \<and> list_all (\<lambda>p. json_ok (snd p)) fs)"
| "json_ok _ = True"

text \<open>What follows a value in a text.\<close>

definition ends_value :: "string \<Rightarrow> bool" where
  "ends_value r \<longleftrightarrow> (case r of [] \<Rightarrow> True | c # _ \<Rightarrow> c = CHR '','' \<or> c = CHR '']'' \<or> c = CHR ''}'')"

lemma digit_char_byte: "d < 10 \<Longrightarrow> byte (digit_char d) = 48 + d"
  by (simp add: digit_char_def)

lemma nat_text_digits: "list_all is_digit (nat_text n) \<and> nat_text n \<noteq> [] \<and> digits_value (nat_text n) = n
    \<and> (hd (nat_text n) = CHR ''0'' \<longrightarrow> nat_text n = ''0'')"
proof (induction n rule: nat_text.induct)
  case (1 n)
  show ?case
  proof (cases "n < 10")
    case True
    have "digit_char n = CHR ''0'' \<Longrightarrow> n = 0"
      using digit_char_byte [of n] True by simp
    then show ?thesis using True
      by (auto simp: nat_text.simps [of n] is_digit_def digits_value_def digit_char_byte)
  next
    case False
    from "1.IH" [OF False] have ih: "list_all is_digit (nat_text (n div 10))" "nat_text (n div 10) \<noteq> []"
        "digits_value (nat_text (n div 10)) = n div 10" "hd (nat_text (n div 10)) = CHR ''0'' \<Longrightarrow> nat_text (n div 10) = ''0''"
      by auto
    have "digits_value ''0'' = 0" by (simp add: digits_value_def)
    then have "hd (nat_text (n div 10)) \<noteq> CHR ''0''" using ih(3,4) False by fastforce
    moreover have "is_digit (digit_char (n mod 10))" by (simp add: is_digit_def digit_char_byte)
    ultimately show ?thesis using False ih
      by (auto simp: nat_text.simps [of n] digits_value_def digit_char_byte)
  qed
qed

lemma ends_value_digit: "ends_value r \<Longrightarrow> takeWhile is_digit r = [] \<and> dropWhile is_digit r = r"
  by (cases r) (auto simp: ends_value_def is_digit_def)

lemma ends_value_number: "ends_value r \<Longrightarrow> json_fraction r = Some ([], r) \<and> json_exponent r = Some (0, r)"
  by (cases r) (auto simp: ends_value_def json_fraction_def json_exponent_def)

lemma number_text:
  assumes "ends_value r"
  shows "json_number (int_text i @ r) = Some (JNum i, r)"
proof -
  have run: "takeWhile is_digit (nat_text n @ r) = nat_text n" "dropWhile is_digit (nat_text n @ r) = r" for n
    using nat_text_digits [of n] ends_value_digit [OF assms]
    by (auto simp: list_all_iff takeWhile_append2 dropWhile_append2)
  have ne: "nat_text n \<noteq> []" "digits_value (nat_text n) = n" "hd (nat_text n) \<noteq> CHR ''-''" "hd (nat_text n) = CHR ''0'' \<Longrightarrow> tl (nat_text n) = []" for n
    using nat_text_digits [of n] by (auto simp: is_digit_def dest!: list_all_iff [THEN iffD1] bspec [OF _ hd_in_set])
  show ?thesis
    using ne ends_value_number [OF assms]
    by (cases "i < 0") (auto simp: json_number_def int_text_def run Let_def scaled_def hd_append)
qed

lemma hex_val_char: "d < 16 \<Longrightarrow> hex_val (hex_char d) = Some d"
  by (auto simp: hex_val_def hex_char_def Let_def)

lemma unicode_escape:
  assumes "byte c < 32"
  shows "json_unicode (''00'' @ hex_char (byte c div 16) # hex_char (byte c mod 16) # r) = Some ([c], r)"
proof -
  have "byte c div 16 < 16" "byte c mod 16 < 16" "hex_val CHR ''0'' = Some 0" using assms by (auto simp: hex_val_def)
  then have "json_unit (''00'' @ hex_char (byte c div 16) # hex_char (byte c mod 16) # r) = Some (byte c, r)"
    using \<open>hex_val CHR ''0'' = Some 0\<close> by (simp add: json_unit_def hex_val_char)
  then show ?thesis using assms by (simp add: json_unicode_def utf8_bytes_def)
qed

lemma escape_char:
  "json_chars (json_escape c @ s) = map_option (\<lambda>(cs, q). (c # cs, q)) (json_chars s)"
proof -
  have plain: "json_chars (c # s) = map_option (\<lambda>(cs, q). (c # cs, q)) (json_chars s)"
    if "c \<noteq> CHR 0x22" "c \<noteq> CHR 0x5C" "\<not> byte c < 32"
    by (subst json_chars.simps) (simp add: that)
  have escaped: "json_chars (CHR 0x5C # t) = map_option (\<lambda>(cs, q). (c # cs, q)) (json_chars s)"
    if "json_unescape t = Some ([c], s)" for t
    by (subst json_chars.simps) (simp add: that)
  show ?thesis
  proof (cases "c \<in> {CHR 0x22, CHR 0x5C, CHR 0x08, CHR 0x09, CHR 0x0A, CHR 0x0C, CHR 0x0D}")
    case True
    then have "\<exists>t. json_escape c @ s = CHR 0x5C # t \<and> json_unescape t = Some ([c], s)"
      by (elim insertE) (simp_all add: json_escape_def json_unescape_def)
    then show ?thesis using escaped by auto
  next
    case False
    show ?thesis
    proof (cases "byte c < 32")
      case True
      have "json_unescape (''u00'' @ hex_char (byte c div 16) # hex_char (byte c mod 16) # s) = Some ([c], s)"
        using unicode_escape [OF True, of s] by (simp add: json_unescape_def)
      then show ?thesis using False True by (simp add: json_escape_def escaped)
    next
      case small: False
      then show ?thesis using False by (simp add: json_escape_def plain)
    qed
  qed
qed

lemma quoted_chars: "json_chars (concat (map json_escape s) @ CHR 0x22 # r) = Some (s, r)"
proof (induction s)
  case Nil
  show ?case by (subst json_chars.simps) simp
qed (simp add: escape_char)

lemma next_char_plain: "\<not> json_space c \<Longrightarrow> next_char (c # r) = Some (c, r)"
  by (simp add: next_char_def skip_ws_def)

lemma next_char_quote: "next_char (json_quote s @ r) = Some (CHR 0x22, concat (map json_escape s) @ CHR 0x22 # r)"
  by (simp add: json_quote_def next_char_plain json_space_def)

lemma int_text_head: "\<exists>c t. int_text i = c # t \<and> (byte c = 45 \<or> 48 \<le> byte c \<and> byte c < 58)"
proof -
  have "\<exists>c t. nat_text n = c # t \<and> is_digit c" for n
    using nat_text_digits [of n] by (cases "nat_text n") auto
  from this [of "nat i"] show ?thesis by (auto simp: int_text_def is_digit_def)
qed

text \<open>The first character of a value's text.\<close>

lemma value_head:
  "\<exists>c t. json_stringify v = c # t \<and> \<not> json_space c \<and> c \<noteq> CHR '']'' \<and> c \<noteq> CHR ''}''"
proof (cases v)
  case (JNum i)
  then show ?thesis using int_text_head [of i] by (auto simp: json_space_def)
qed (auto simp: json_quote_def json_space_def)

lemma literal_texts:
  assumes "ends_value r"
  shows "json_literal (''null'' @ r) = Some (JNull, r)" "json_literal (''true'' @ r) = Some (JBool True, r)"
    "json_literal (''false'' @ r) = Some (JBool False, r)" "json_literal (int_text i @ r) = Some (JNum i, r)"
proof -
  have "\<exists>c t. int_text i = c # t \<and> c \<noteq> CHR ''n'' \<and> c \<noteq> CHR ''t'' \<and> c \<noteq> CHR ''f''"
    using int_text_head [of i] by auto
  then show "json_literal (int_text i @ r) = Some (JNum i, r)"
    using number_text [OF assms, of i] by (auto simp: json_literal_def)
qed (simp_all add: json_literal_def)

text \<open>Reading succeeds with every bound from some one on.\<close>

definition reads :: "(nat \<Rightarrow> string \<Rightarrow> ('a \<times> string) option) \<Rightarrow> string \<Rightarrow> 'a \<Rightarrow> string \<Rightarrow> bool" where
  "reads parse s v r \<longleftrightarrow> (\<exists>k. \<forall>n \<ge> k. parse n s = Some (v, r))"

lemma readsI: "(\<And>n. k \<le> n \<Longrightarrow> parse (Suc n) s = Some (v, r)) \<Longrightarrow> reads parse s v r"
  unfolding reads_def by (rule exI [of _ "Suc k"]) (metis Suc_le_D Suc_le_mono)

lemma reads_both:
  assumes "reads p s v r" "reads q t w u"
  obtains k where "\<And>n. k \<le> n \<Longrightarrow> p n s = Some (v, r)" "\<And>n. k \<le> n \<Longrightarrow> q n t = Some (w, u)"
proof -
  from assms obtain k l where "\<forall>n \<ge> k. p n s = Some (v, r)" "\<forall>n \<ge> l. q n t = Some (w, u)" unfolding reads_def by blast
  then show ?thesis by (intro that [of "max k l"]) auto
qed

lemma reads_elements:
  assumes "xs \<noteq> []" and "\<And>v r. v \<in> set xs \<Longrightarrow> ends_value r \<Longrightarrow> reads parse_value (json_stringify v @ r) v r"
  shows "reads parse_elements (js_join '','' (map json_stringify xs) @ '']'' @ r) xs r"
  using assms
proof (induction xs)
  case (Cons v xs)
  show ?case
  proof (cases xs)
    case Nil
    have "reads parse_value (json_stringify v @ '']'' @ r) v ('']'' @ r)"
      using Cons.prems(2) by (simp add: ends_value_def)
    then obtain k where "\<And>n. k \<le> n \<Longrightarrow> parse_value n (json_stringify v @ '']'' @ r) = Some (v, '']'' @ r)"
      unfolding reads_def by blast
    then show ?thesis using Nil by (intro readsI [of k]) (simp add: next_char_plain json_space_def)
  next
    case (Cons w ws)
    let ?rest = "js_join '','' (map json_stringify xs) @ '']'' @ r"
    have "reads parse_value (json_stringify v @ '','' @ ?rest) v ('','' @ ?rest)"
      using Cons.prems(2) by (simp add: ends_value_def)
    moreover have "reads parse_elements ?rest xs r" using Cons Cons.prems(2) by (intro Cons.IH) auto
    ultimately obtain k where k: "\<And>n. k \<le> n \<Longrightarrow> parse_value n (json_stringify v @ '','' @ ?rest) = Some (v, '','' @ ?rest)"
        "\<And>n. k \<le> n \<Longrightarrow> parse_elements n ?rest = Some (xs, r)"
      by (rule reads_both) blast
    have eq: "js_join '','' (map json_stringify (v # xs)) @ '']'' @ r = json_stringify v @ '','' @ ?rest"
      using Cons by simp
    show ?thesis unfolding eq using k by (intro readsI [of k]) (simp add: next_char_plain json_space_def)
  qed
qed simp

definition entry_text :: "string \<times> json \<Rightarrow> string" where
  "entry_text p = json_quote (fst p) @ '':'' @ json_stringify (snd p)"

lemma reads_members:
  assumes "fs \<noteq> []" and "\<And>p r. p \<in> set fs \<Longrightarrow> ends_value r \<Longrightarrow> reads parse_value (json_stringify (snd p) @ r) (snd p) r"
  shows "reads parse_members (js_join '','' (map entry_text fs) @ ''}'' @ r) fs r"
  using assms
proof (induction fs)
  case (Cons p fs)
  show ?case
  proof (cases fs)
    case Nil
    have "reads parse_value (json_stringify (snd p) @ ''}'' @ r) (snd p) (''}'' @ r)"
      using Cons.prems(2) by (simp add: ends_value_def)
    then obtain k where "\<And>n. k \<le> n \<Longrightarrow> parse_value n (json_stringify (snd p) @ ''}'' @ r) = Some (snd p, ''}'' @ r)"
      unfolding reads_def by blast
    then show ?thesis using Nil
      by (intro readsI [of k]) (simp add: entry_text_def next_char_quote quoted_chars next_char_plain json_space_def)
  next
    case (Cons w ws)
    let ?rest = "js_join '','' (map entry_text fs) @ ''}'' @ r"
    have "reads parse_value (json_stringify (snd p) @ '','' @ ?rest) (snd p) ('','' @ ?rest)"
      using Cons.prems(2) by (simp add: ends_value_def)
    moreover have "reads parse_members ?rest fs r" using Cons Cons.prems(2) by (intro Cons.IH) auto
    ultimately obtain k where k: "\<And>n. k \<le> n \<Longrightarrow> parse_value n (json_stringify (snd p) @ '','' @ ?rest) = Some (snd p, '','' @ ?rest)"
        "\<And>n. k \<le> n \<Longrightarrow> parse_members n ?rest = Some (fs, r)"
      by (rule reads_both) blast
    have eq: "js_join '','' (map entry_text (p # fs)) @ ''}'' @ r
        = json_quote (fst p) @ '':'' @ json_stringify (snd p) @ '','' @ ?rest"
      using Cons by (simp add: entry_text_def)
    show ?thesis unfolding eq using k
      by (intro readsI [of k]) (simp add: next_char_quote quoted_chars next_char_plain json_space_def)
  qed
qed simp

lemma object_of_entries: "distinct (map fst fs) \<Longrightarrow> json_object fs = JObj fs"
proof (induction fs rule: rev_induct)
  case (snoc p fs)
  have "jm_set k v m = m @ [(k, v)]" if "k \<notin> fst ` set m" for k and v :: json and m
    using that unfolding jm_set_def by (induction m) auto
  from this [of "fst p" fs "snd p"] have "jm_set (fst p) (snd p) fs = fs @ [p]" using snoc.prems by auto
  with snoc show ?case by (simp add: json_object_def case_prod_beta)
qed (simp add: json_object_def)

lemma joined_head:
  assumes "xs \<noteq> []"
  shows "\<exists>c t. js_join '','' (map json_stringify xs) @ r = c # t \<and> \<not> json_space c \<and> c \<noteq> CHR '']'' \<and> c \<noteq> CHR ''}''"
proof -
  obtain v vs where "xs = v # vs" using assms by (cases xs) auto
  with value_head [of v] show ?thesis by (cases vs) auto
qed

lemma joined_entries_head:
  assumes "fs \<noteq> []"
  shows "\<exists>t. js_join '','' (map entry_text fs) @ r = CHR 0x22 # t"
proof -
  obtain p ps where "fs = p # ps" using assms by (cases fs) auto
  then show ?thesis by (cases ps) (auto simp: entry_text_def json_quote_def)
qed

lemma reads_value: "json_ok v \<Longrightarrow> ends_value r \<Longrightarrow> reads parse_value (json_stringify v @ r) v r"
proof (induction v arbitrary: r)
  case JNull
  show ?case by (intro readsI [of 0]) (simp add: next_char_plain json_space_def literal_texts [OF JNull(2), simplified])
next
  case (JBool b)
  show ?case
    by (intro readsI [of 0]) (simp add: next_char_plain json_space_def literal_texts [OF JBool(2), simplified])
next
  case (JNum i)
  obtain c t where c: "int_text i = c # t" and b: "byte c = 45 \<or> 48 \<le> byte c \<and> byte c < 58"
    using int_text_head [of i] by blast
  have "\<not> json_space c" "c \<noteq> CHR ''{''" "c \<noteq> CHR ''[''" "c \<noteq> CHR 0x22"
    using b by (auto simp: json_space_def)
  note no = this
  have "json_literal (c # t @ r) = Some (JNum i, r)" using literal_texts(4) [OF JNum(2), of i] c by simp
  then show ?case using no by (intro readsI [of 0]) (simp add: c next_char_plain)
next
  case (JStr s)
  show ?case by (intro readsI [of 0]) (simp add: next_char_quote quoted_chars)
next
  case (JArr xs)
  show ?case
  proof (cases "xs = []")
    case True
    then show ?thesis by (intro readsI [of 0]) (simp add: next_char_plain json_space_def)
  next
    case False
    let ?body = "js_join '','' (map json_stringify xs) @ '']'' @ r"
    have "reads parse_elements ?body xs r"
      using JArr False by (intro reads_elements) (auto simp: list_all_iff)
    then obtain k where k: "\<And>n. k \<le> n \<Longrightarrow> parse_elements n ?body = Some (xs, r)" unfolding reads_def by blast
    obtain c t where c: "?body = c # t" "\<not> json_space c" "c \<noteq> CHR '']''" using joined_head [OF False] by blast
    have "next_char ?body = Some (c, t)" using c by (simp add: next_char_plain)
    then have "parse_value (Suc n) (''['' @ ?body) = Some (JArr xs, r)" if "k \<le> n" for n
      using k [OF that] c(3) by (simp add: next_char_plain json_space_def)
    then show ?thesis by (intro readsI [of k]) simp
  qed
next
  case (JObj fs)
  show ?case
  proof (cases "fs = []")
    case True
    then show ?thesis by (intro readsI [of 0]) (simp add: next_char_plain json_space_def)
  next
    case False
    let ?body = "js_join '','' (map entry_text fs) @ ''}'' @ r"
    have "reads parse_value (json_stringify (snd p) @ r) (snd p) r" if "p \<in> set fs" "ends_value r" for p r
      using JObj.IH [of p "snd p" r] JObj.prems(1) that by (auto simp: list_all_iff snds.simps)
    then have "reads parse_members ?body fs r" using False by (intro reads_members)
    then obtain k where k: "\<And>n. k \<le> n \<Longrightarrow> parse_members n ?body = Some (fs, r)" unfolding reads_def by blast
    obtain t where "?body = CHR 0x22 # t" using joined_entries_head [OF False] by blast
    then have "next_char ?body = Some (CHR 0x22, t)" by (simp add: next_char_plain json_space_def)
    then have "parse_value (Suc n) (''{'' @ ?body) = Some (JObj fs, r)" if "k \<le> n" for n
      using k [OF that] object_of_entries [of fs] JObj.prems(1) by (simp add: next_char_plain json_space_def)
    then have "reads parse_value (''{'' @ ?body) (JObj fs) r" by (rule readsI)
    moreover have "json_stringify (JObj fs) @ r = ''{'' @ ?body"
      by (simp add: entry_text_def [abs_def])
    ultimately show ?thesis by (simp only:)
  qed
qed

theorem parse_stringify: "json_ok v \<Longrightarrow> JSON_parse (json_stringify v) = Inr v"
proof -
  assume "json_ok v"
  then have "reads parse_value (json_stringify v @ []) v []" by (rule reads_value) (simp add: ends_value_def)
  then obtain k where k: "\<And>n. k \<le> n \<Longrightarrow> parse_value n (json_stringify v) = Some (v, [])" unfolding reads_def by auto
  let ?n = "Suc (2 * length (json_stringify v))"
  have "parse_value (max k ?n) (json_stringify v) = parse_value ?n (json_stringify v)"
    using parse_enough [of ?n, THEN conjunct1, rule_format, of "json_stringify v" "max k ?n"] by simp
  then have "parse_value ?n (json_stringify v) = Some (v, [])" using k [of "max k ?n"] by simp
  then show ?thesis by (simp add: JSON_parse_def skip_ws_def)
qed

end
