(* ===== verification/Presence.thy ===== *)
theory Presence
  imports Schema
begin

text \<open>
  \<open>PresenceEngine\<close> (\<open>core/src/engines/presenceEngine.ts\<close>): the presences of a channel's users
  and the event published for each change. Every operation goes through
  \<open>processPresenceAction\<close>: on an error nothing changes and nothing is published, otherwise
  the cache changes and one event goes to the users that are present afterwards.
\<close>

subsection \<open>The engine\<close>

text \<open>\<open>InternalChannelEvent = ChannelEvent & { recipients: string[] }\<close>.\<close>

record internal_event = channel_event +
  ie_recipients :: "string list"

record presence_engine =
  pe_channel :: string
  pe_cache :: "obj jmap"

definition new_presence_engine :: "string \<Rightarrow> presence_engine" where
  "new_presence_engine channelId = \<lparr>pe_channel = channelId, pe_cache = []\<rparr>"

definition processPresenceAction ::
    "presence_event \<Rightarrow> string \<Rightarrow> obj option \<Rightarrow> string \<Rightarrow> presence_engine \<Rightarrow>
     (presence_engine \<times> internal_event) res" where
  "processPresenceAction action userId data requestId pe =
     (let cache = pe_cache pe in
      if action = P_JOIN \<and> jm_has cache userId then
        Inl (Plain_Error (''User with id '' @ userId @ '' already exists in the presence cache''))
      else if (action = P_UPDATE \<or> action = P_LEAVE) \<and> \<not> jm_has cache userId then
        Inl (Plain_Error (''User with id '' @ userId @ '' does not exist in the presence cache''))
      else if action \<noteq> P_LEAVE \<and> data = None then
        Inl (Plain_Error (''Data is required for '' @ presence_event_str action @ '' action''))
      else
        (let current = jm_get cache userId;
             cache' = (case data of Some d \<Rightarrow> jm_set userId d cache | None \<Rightarrow> jm_delete userId cache);
             total = jm_values cache';
             userIds = jm_keys cache';
             changed = (case current of Some c \<Rightarrow> c
                        | None \<Rightarrow> (case data of Some d \<Rightarrow> d | None \<Rightarrow> []))
         in Inr (pe\<lparr>pe_cache := cache'\<rparr>,
              \<lparr>ce_action = A_PRESENCE, ce_event = presence_event_str action,
               ce_channel = pe_channel pe, ce_request = requestId,
               ce_payload = presence_payload changed total, ie_recipients = userIds\<rparr>)))"

definition pe_track :: "string \<Rightarrow> obj \<Rightarrow> string \<Rightarrow> presence_engine \<Rightarrow> (presence_engine \<times> internal_event) res"
  where "pe_track userId data rid pe = processPresenceAction P_JOIN userId (Some data) rid pe"

definition pe_update :: "string \<Rightarrow> obj \<Rightarrow> string \<Rightarrow> presence_engine \<Rightarrow> (presence_engine \<times> internal_event) res"
  where "pe_update userId data rid pe = processPresenceAction P_UPDATE userId (Some data) rid pe"

definition pe_remove :: "string \<Rightarrow> string \<Rightarrow> presence_engine \<Rightarrow> (presence_engine \<times> internal_event) res"
  where "pe_remove userId rid pe = processPresenceAction P_LEAVE userId None rid pe"

definition pe_upsert :: "string \<Rightarrow> obj \<Rightarrow> string \<Rightarrow> presence_engine \<Rightarrow> (presence_engine \<times> internal_event) res"
  where "pe_upsert userId data rid pe =
     (if jm_has (pe_cache pe) userId then pe_update userId data rid pe else pe_track userId data rid pe)"

definition pe_getPresence :: "presence_engine \<Rightarrow> string \<Rightarrow> obj option" where
  "pe_getPresence pe userId = jm_get (pe_cache pe) userId"

definition pe_getAllPresence :: "presence_engine \<Rightarrow> obj jmap" where
  "pe_getAllPresence pe = pe_cache pe"

definition pe_presenceCount :: "presence_engine \<Rightarrow> nat" where
  "pe_presenceCount pe = length (pe_cache pe)"

definition pe_close :: "presence_engine \<Rightarrow> presence_engine" where
  "pe_close pe = pe\<lparr>pe_cache := []\<rparr>"

lemmas pe_ops = pe_track_def pe_update_def pe_remove_def pe_upsert_def

definition pe_ok :: "presence_engine \<Rightarrow> bool" where
  "pe_ok pe = jm_ok (pe_cache pe)"

subsection \<open>What an action does\<close>

text \<open>The action is legal: a join for an absent user, anything else for a present one.\<close>

definition presence_legal :: "presence_event \<Rightarrow> string \<Rightarrow> obj option \<Rightarrow> presence_engine \<Rightarrow> bool" where
  "presence_legal action userId data pe \<longleftrightarrow>
     (jm_has (pe_cache pe) userId \<longleftrightarrow> action \<noteq> P_JOIN) \<and> (action \<noteq> P_LEAVE \<longrightarrow> data \<noteq> None)"

lemma process_legal: "is_ok (processPresenceAction a u d rid pe) \<longleftrightarrow> presence_legal a u d pe"
  by (cases a) (auto simp: processPresenceAction_def presence_legal_def Let_def)

lemma process_Inr:
  assumes "processPresenceAction a u d rid pe = Inr (pe', ev)"
  shows "jm_get (pe_cache pe') = (jm_get (pe_cache pe))(u := d)"
    and "pe_channel pe' = pe_channel pe"
    and "ie_recipients ev = jm_keys (pe_cache pe')"
    and "ce_action ev = A_PRESENCE" "ce_event ev = presence_event_str a"
    and "ce_channel ev = pe_channel pe" "ce_request ev = rid"
    and "\<exists>c. ce_payload ev = presence_payload c (jm_values (pe_cache pe'))"
  using assms
  by (auto simp: processPresenceAction_def Let_def jm.get_put jm.get_del split: if_splits option.splits)

lemma process_ok: "processPresenceAction a u d rid pe = Inr (pe', ev) \<Longrightarrow> pe_ok pe \<Longrightarrow> pe_ok pe'"
  by (auto simp: processPresenceAction_def Let_def pe_ok_def jm.ok_put jm.ok_del
      split: if_splits option.splits)

lemma process_changed:
  assumes "processPresenceAction a u d rid pe = Inr (pe', ev)"
  shows "ce_payload ev = presence_payload
    (case jm_get (pe_cache pe) u of Some c \<Rightarrow> c | None \<Rightarrow> the d) (jm_values (pe_cache pe'))"
  using assms
  by (auto simp: processPresenceAction_def Let_def jm_has_get split: if_splits option.splits)

lemma process_wire: "processPresenceAction a u d rid pe = Inr (pe', ev) \<Longrightarrow>
    wire_event (channel_event.truncate ev)"
  using process_Inr(4,5,8) by (fastforce simp: wire_event_def channel_event.defs)

subsection \<open>The store the channel engine sees\<close>

text \<open>
  The channel relies on the engine only through these laws: which user ids an operation is
  legal for, and what it does to the presences.
\<close>

locale presence_store =
  fixes presence :: "'p \<Rightarrow> string \<Rightarrow> obj option"
    and track :: "string \<Rightarrow> obj \<Rightarrow> string \<Rightarrow> 'p \<Rightarrow> ('p \<times> 'ev) res"
    and update :: "string \<Rightarrow> obj \<Rightarrow> string \<Rightarrow> 'p \<Rightarrow> ('p \<times> 'ev) res"
    and upsert :: "string \<Rightarrow> obj \<Rightarrow> string \<Rightarrow> 'p \<Rightarrow> ('p \<times> 'ev) res"
    and remove :: "string \<Rightarrow> string \<Rightarrow> 'p \<Rightarrow> ('p \<times> 'ev) res"
    and audience :: "'ev \<Rightarrow> string list"
  assumes track_law: "is_ok (track u d rid p) \<longleftrightarrow> presence p u = None"
    "track u d rid p = Inr (p', ev) \<Longrightarrow> presence p' = (presence p)(u \<mapsto> d)"
    and update_law: "is_ok (update u d rid p) \<longleftrightarrow> presence p u \<noteq> None"
    "update u d rid p = Inr (p', ev) \<Longrightarrow> presence p' = (presence p)(u \<mapsto> d)"
    and upsert_law: "upsert u d rid p = (if presence p u = None then track u d rid p else update u d rid p)"
    and remove_law: "is_ok (remove u rid p) \<longleftrightarrow> presence p u \<noteq> None"
    "remove u rid p = Inr (p', ev) \<Longrightarrow> presence p' = (presence p)(u := None)"
    and audience_law:
    "track u d rid p = Inr (p', ev) \<Longrightarrow> set (audience ev) = dom (presence p')"
    "update u d rid p = Inr (p', ev) \<Longrightarrow> set (audience ev) = dom (presence p')"
    "remove u rid p = Inr (p', ev) \<Longrightarrow> set (audience ev) = dom (presence p')"
begin

lemma upsert_total: "\<exists>p' ev. upsert u d rid p = Inr (p', ev) \<and> presence p' = (presence p)(u \<mapsto> d)"
proof (cases "presence p u = None")
  case True
  with track_law(1) [of u d rid p] obtain p' ev where "track u d rid p = Inr (p', ev)"
    by (auto simp: is_ok_iff)
  with True track_law(2) show ?thesis by (auto simp: upsert_law)
next
  case False
  with update_law(1) [of u d rid p] obtain p' ev where "update u d rid p = Inr (p', ev)"
    by (auto simp: is_ok_iff)
  with False update_law(2) show ?thesis by (auto simp: upsert_law)
qed

lemma removed_not_told: "remove u rid p = Inr (p', ev) \<Longrightarrow> u \<notin> set (audience ev)"
  using remove_law(2) audience_law(3) by fastforce

lemma joined_is_told: "track u d rid p = Inr (p', ev) \<Longrightarrow> u \<in> set (audience ev)"
  using track_law(2) audience_law(1) by fastforce

lemma track_remove:
  "track u d rid p = Inr (p', ev) \<Longrightarrow> remove u rid' p' = Inr (p'', ev') \<Longrightarrow> presence p'' = presence p"
  using track_law(1) [of u d rid p] track_law(2) remove_law(2) by fastforce

end

interpretation pe: presence_store pe_getPresence pe_track pe_update pe_upsert pe_remove ie_recipients
proof
  fix u d rid p p' ev
  have get: "pe_getPresence q = jm_get (pe_cache q)" for q by (simp add: pe_getPresence_def fun_eq_iff)
  show "is_ok (pe_track u d rid p) \<longleftrightarrow> pe_getPresence p u = None"
    by (simp add: pe_track_def process_legal presence_legal_def jm_has_get get)
  show "is_ok (pe_update u d rid p) \<longleftrightarrow> pe_getPresence p u \<noteq> None"
    by (simp add: pe_update_def process_legal presence_legal_def jm_has_get get)
  show "is_ok (pe_remove u rid p) \<longleftrightarrow> pe_getPresence p u \<noteq> None"
    by (simp add: pe_remove_def process_legal presence_legal_def jm_has_get get)
  show "pe_upsert u d rid p = (if pe_getPresence p u = None then pe_track u d rid p else pe_update u d rid p)"
    by (simp add: pe_upsert_def jm_has_get get)
  show "pe_track u d rid p = Inr (p', ev) \<Longrightarrow> pe_getPresence p' = (pe_getPresence p)(u \<mapsto> d)"
    "pe_update u d rid p = Inr (p', ev) \<Longrightarrow> pe_getPresence p' = (pe_getPresence p)(u \<mapsto> d)"
    "pe_remove u rid p = Inr (p', ev) \<Longrightarrow> pe_getPresence p' = (pe_getPresence p)(u := None)"
    by (simp_all add: pe_ops get process_Inr(1))
  show "pe_track u d rid p = Inr (p', ev) \<Longrightarrow> set (ie_recipients ev) = dom (pe_getPresence p')"
    "pe_update u d rid p = Inr (p', ev) \<Longrightarrow> set (ie_recipients ev) = dom (pe_getPresence p')"
    "pe_remove u rid p = Inr (p', ev) \<Longrightarrow> set (ie_recipients ev) = dom (pe_getPresence p')"
    by (simp_all add: pe_ops get process_Inr(3) jm.set_keys dom_def)
qed

subsection \<open>Runs\<close>

datatype presence_op =
  Track string obj | Update string obj | Upsert string obj | Remove string

fun presence_exec :: "presence_op \<Rightarrow> string \<Rightarrow> presence_engine \<Rightarrow> (presence_engine \<times> internal_event) res" where
  "presence_exec (Track u d) rid pe = pe_track u d rid pe"
| "presence_exec (Update u d) rid pe = pe_update u d rid pe"
| "presence_exec (Upsert u d) rid pe = pe_upsert u d rid pe"
| "presence_exec (Remove u) rid pe = pe_remove u rid pe"

text \<open>
  A run of operations: one that throws leaves the engine alone and publishes nothing. The
  second component lists the published events, oldest first.
\<close>

definition presence_step ::
    "presence_engine \<times> internal_event list \<Rightarrow> presence_op \<times> string \<Rightarrow> presence_engine \<times> internal_event list"
  where
  "presence_step s oprid =
     (case presence_exec (fst oprid) (snd oprid) (fst s) of
        Inl _ \<Rightarrow> s
      | Inr (pe', ev) \<Rightarrow> (pe', snd s @ [ev]))"

text \<open>What a user that listens to the events believes the presences are.\<close>

definition last_presence :: "string \<Rightarrow> internal_event list \<Rightarrow> json option" where
  "last_presence u evs =
     (let heard = filter (\<lambda>ev. u \<in> set (ie_recipients ev)) evs
      in if heard = [] then None else jm_get (ce_payload (last heard)) ''presence'')"

lemma last_presence_snoc:
  "last_presence u (evs @ [ev]) =
     (if u \<in> set (ie_recipients ev) then jm_get (ce_payload ev) ''presence'' else last_presence u evs)"
  by (simp add: last_presence_def Let_def)

definition presence_view_ok :: "presence_engine \<times> internal_event list \<Rightarrow> bool" where
  "presence_view_ok s \<longleftrightarrow>
     pe_ok (fst s)
     \<and> (\<forall>ev \<in> set (snd s). wire_event (channel_event.truncate ev) \<and> distinct (ie_recipients ev))
     \<and> (\<forall>u. jm_has (pe_cache (fst s)) u \<longrightarrow>
          last_presence u (snd s) = Some (JArr (map JObj (jm_values (pe_cache (fst s))))))"

lemma presence_exec_process:
  "\<exists>a u d. presence_exec op rid pe = processPresenceAction a u d rid pe"
  by (cases op) (auto simp: pe_ops)

lemma presence_step_view_ok:
  assumes inv: "presence_view_ok s"
  shows "presence_view_ok (presence_step s oprid)"
proof (cases "presence_exec (fst oprid) (snd oprid) (fst s)")
  case (Inl e)
  with inv show ?thesis by (simp add: presence_step_def)
next
  case (Inr r)
  obtain pe' ev where r: "r = (pe', ev)" by force
  obtain a u d where "processPresenceAction a u d (snd oprid) (fst s) = Inr (pe', ev)"
    using presence_exec_process [of "fst oprid" "snd oprid" "fst s"] Inr r by metis
  note facts = process_Inr [OF this] process_ok [OF this] process_wire [OF this]
  have ok': "pe_ok pe'" using inv facts by (simp add: presence_view_ok_def)
  obtain c where payload: "ce_payload ev = presence_payload c (jm_values (pe_cache pe'))"
    using facts by blast
  show ?thesis
    unfolding presence_view_ok_def
    using inv ok' facts payload jm.ok_keys [of "pe_cache pe'"]
    by (auto simp: Inr r presence_step_def presence_view_ok_def last_presence_snoc jm_has_keys pe_ok_def)
qed

interpretation presence_run: invariant_machine presence_step presence_view_ok
  by unfold_locales (rule presence_step_view_ok)

text \<open>
  C22. A presence operation succeeds exactly when it is legal (a join for an absent user, an
  update or a leave for a present one), and then it stores or deletes that user's presence and
  nobody else's, and the event goes to the users present afterwards: the one that joins hears
  it, the one that leaves does not.
\<close>

theorem presence_action_correct:
  "(is_ok (processPresenceAction a u d rid pe) \<longleftrightarrow> presence_legal a u d pe) \<and>
   (\<forall>pe' ev. processPresenceAction a u d rid pe = Inr (pe', ev) \<longrightarrow>
      pe_getPresence pe' = (pe_getPresence pe)(u := d)
      \<and> set (ie_recipients ev) = dom (pe_getPresence pe')
      \<and> ce_payload ev = presence_payload
          (case pe_getPresence pe u of Some c \<Rightarrow> c | None \<Rightarrow> the d) (jm_values (pe_cache pe')))"
proof -
  have get: "pe_getPresence q = jm_get (pe_cache q)" for q by (simp add: pe_getPresence_def fun_eq_iff)
  show ?thesis
    by (auto simp: process_legal get process_Inr(1,3) process_changed jm.set_keys dom_def)
qed

theorem presence_action_correct_witness:
  "\<exists>pe' ev. processPresenceAction P_JOIN ''u'' (Some []) ''r'' (new_presence_engine ''c'') = Inr (pe', ev)
     \<and> set (ie_recipients ev) = {''u''}"
proof -
  obtain pe' ev where p: "processPresenceAction P_JOIN ''u'' (Some []) ''r'' (new_presence_engine ''c'') = Inr (pe', ev)"
    by (simp add: processPresenceAction_def new_presence_engine_def Let_def)
  then have "pe_getPresence pe' = (pe_getPresence (new_presence_engine ''c''))(''u'' := Some [])"
    and "set (ie_recipients ev) = dom (pe_getPresence pe')"
    using presence_action_correct [of P_JOIN "''u''" "Some []" "''r''" "new_presence_engine ''c''"]
    by blast+
  then have "set (ie_recipients ev) = {''u''}"
    by (auto simp: pe_getPresence_def new_presence_engine_def)
  with p show ?thesis by blast
qed

text \<open>
  Whatever operations ran, including ones that threw, a user that is present and
  listens to the presence events has been told exactly the presences the server holds: the
  last event it received lists them all. Every published event passes the client's validator.
\<close>

theorem presence_views_converge:
  assumes "jm_has (pe_cache (fst s)) u" and "s = foldl presence_step (new_presence_engine c, []) ops"
  shows "last_presence u (snd s) = Some (JArr (map JObj (jm_values (pe_cache (fst s)))))
    \<and> (\<forall>ev \<in> set (snd s). parse_channel_event (channel_event_json (channel_event.truncate ev))
          = Inr (channel_event.truncate ev))"
proof -
  have "presence_view_ok (new_presence_engine c, [])"
    by (simp add: presence_view_ok_def new_presence_engine_def pe_ok_def)
  then have "presence_view_ok s"
    unfolding assms(2) by (rule presence_run.run_inv)
  with assms(1) show ?thesis
    by (auto simp: presence_view_ok_def wire_event_accepted)
qed

theorem presence_views_converge_witness:
  "\<exists>s. s = foldl presence_step (new_presence_engine ''c'', [])
            [(Track ''a'' [], ''1''), (Remove ''b'', ''2''), (Track ''b'' [], ''3''), (Remove ''a'', ''4'')]
     \<and> last_presence ''b'' (snd s) = Some (JArr [JObj []])"
proof -
  let ?s = "foldl presence_step (new_presence_engine ''c'', [])
    [(Track ''a'' [], ''1''), (Remove ''b'', ''2''), (Track ''b'' [], ''3''), (Remove ''a'', ''4'')]"
  have cache: "pe_cache (fst ?s) = [(''b'', [])]"
    by code_simp
  then have "jm_has (pe_cache (fst ?s)) ''b''" by (simp add: jm_has_def)
  from presence_views_converge [OF this refl] cache show ?thesis
    by (auto simp: jm_values_def)
qed

end
