(* ===== verification/Subject.thy ===== *)
theory Subject
  imports Common_Types
begin

text \<open>
  Observers, \<open>comnon/src/subjects\<close>: \<open>Subject\<close> keeps a \<open>Set\<close> of observers and notifies them in
  insertion order, \<open>BehaviorSubject\<close> also remembers the last message and replays it to a new
  observer.

  A \<open>Set\<close> may change while \<open>forEach\<close> walks it: an observer deleted before its turn is not
  called, one added at the end is. Every entry therefore carries a stamp that grows with each
  insertion, and the walk goes on with the least stamp it has not passed. Observers act on a
  state of type \<^typ>\<open>'st\<close> that contains the subject.
\<close>

subsection \<open>Subject\<close>

record 'o subject =
  sj_closed :: bool
  sj_entries :: "(nat \<times> 'o) list"
  sj_next :: nat

definition sj_new :: "'o subject" where
  "sj_new = \<lparr>sj_closed = False, sj_entries = [], sj_next = 0\<rparr>"

definition sj_observers :: "'o subject \<Rightarrow> 'o list" where
  "sj_observers s = map snd (sj_entries s)"

definition sj_size :: "'o subject \<Rightarrow> nat" where
  "sj_size s = length (sj_entries s)"

definition sj_subscribe :: "'o \<Rightarrow> 'o subject \<Rightarrow> 'o subject res" where
  "sj_subscribe observer s =
     (if sj_closed s then Inl (Plain_Error ''Cannot subscribe to a closed subject'')
      else if observer \<in> set (sj_observers s) then Inr s
      else Inr (s\<lparr>sj_entries := sj_entries s @ [(sj_next s, observer)], sj_next := Suc (sj_next s)\<rparr>))"

definition sj_unsubscribe :: "'o \<Rightarrow> 'o subject \<Rightarrow> 'o subject" where
  "sj_unsubscribe observer s = s\<lparr>sj_entries := filter (\<lambda>e. snd e \<noteq> observer) (sj_entries s)\<rparr>"

definition sj_close :: "'o subject \<Rightarrow> 'o subject" where
  "sj_close s = s\<lparr>sj_entries := [], sj_closed := True\<rparr>"

text \<open>
  \<open>notifyObserver\<close>: an observer's exception goes to the error handler and does not reach the
  publisher.
\<close>

definition notifyObserver ::
    "('o \<Rightarrow> 'm \<Rightarrow> 'st \<Rightarrow> 'st \<times> exn option) \<Rightarrow> (exn \<Rightarrow> 'o \<Rightarrow> 'st \<Rightarrow> 'st) \<Rightarrow> 'o \<Rightarrow> 'm \<Rightarrow> 'st \<Rightarrow> 'st"
  where
  "notifyObserver call onError observer message st =
     (case call observer message st of
        (st', None) \<Rightarrow> st'
      | (st', Some e) \<Rightarrow> onError e observer st')"

definition next_entry :: "nat \<Rightarrow> 'o subject \<Rightarrow> (nat \<times> 'o) option" where
  "next_entry k s = List.find (\<lambda>e. k \<le> fst e) (sj_entries s)"

text \<open>
  The walk of \<open>forEach\<close>. It need not end (an observer may keep adding observers): the result is
  \<^term>\<open>None\<close> then.
\<close>

partial_function (option) publish_from ::
    "('st \<Rightarrow> 'o subject) \<Rightarrow> ('o \<Rightarrow> 'st \<Rightarrow> 'st) \<Rightarrow> nat \<Rightarrow> 'st \<Rightarrow> 'st option" where
  "publish_from get notify k st =
     (case next_entry k (get st) of
        None \<Rightarrow> Some st
      | Some e \<Rightarrow> publish_from get notify (Suc (fst e)) (notify (snd e) st))"

definition sj_publish ::
    "('st \<Rightarrow> 'o subject) \<Rightarrow> ('o \<Rightarrow> 'm \<Rightarrow> 'st \<Rightarrow> 'st \<times> exn option) \<Rightarrow> (exn \<Rightarrow> 'o \<Rightarrow> 'st \<Rightarrow> 'st) \<Rightarrow>
     'm \<Rightarrow> 'st \<Rightarrow> 'st option" where
  "sj_publish get call onError message st =
     publish_from get (\<lambda>o' st'. notifyObserver call onError o' message st') 0 st"

subsection \<open>The contract of subscribing\<close>

definition sj_ok :: "'o subject \<Rightarrow> bool" where
  "sj_ok s \<longleftrightarrow> sorted_wrt (<) (map fst (sj_entries s)) \<and> (\<forall>e \<in> set (sj_entries s). fst e < sj_next s)
     \<and> distinct (sj_observers s) \<and> (sj_closed s \<longrightarrow> sj_entries s = [])"

locale observable =
  fixes subscribe :: "'o \<Rightarrow> 's \<Rightarrow> 's res"
    and unsubscribe :: "'o \<Rightarrow> 's \<Rightarrow> 's"
    and close :: "'s \<Rightarrow> 's"
    and observers :: "'s \<Rightarrow> 'o list"
    and closed :: "'s \<Rightarrow> bool"
    and ok :: "'s \<Rightarrow> bool"
  assumes subscribe_closed: "closed s \<Longrightarrow> \<exists>e. subscribe x s = Inl e"
    and subscribe_open: "\<not> closed s \<Longrightarrow>
      \<exists>s'. subscribe x s = Inr s' \<and> observers s' = js_add x (observers s) \<and> \<not> closed s'"
    and unsubscribe_observers: "observers (unsubscribe x s) = js_remove x (observers s)"
    and unsubscribe_closed: "closed (unsubscribe x s) = closed s"
    and close_observers: "observers (close s) = []"
    and close_closed: "closed (close s)"
    and ok_subscribe: "ok s \<Longrightarrow> subscribe x s = Inr s' \<Longrightarrow> ok s'"
    and ok_unsubscribe: "ok s \<Longrightarrow> ok (unsubscribe x s)"
    and ok_close: "ok (close s)"
    and ok_distinct: "ok s \<Longrightarrow> distinct (observers s)"
begin

lemma subscribe_Inr_iff: "(\<exists>s'. subscribe x s = Inr s') \<longleftrightarrow> \<not> closed s"
  using subscribe_closed subscribe_open by (metis Inl_Inr_False)

lemma subscribed_last:
  assumes "subscribe x s = Inr s'" "x \<notin> set (observers s)"
  shows "observers s' = observers s @ [x]"
  using assms subscribe_closed subscribe_open
  by (metis Inl_Inr_False Inr_inject js_add_def)

lemma unsubscribe_subscribe:
  assumes "subscribe x s = Inr s'" "x \<notin> set (observers s)"
  shows "observers (unsubscribe x s') = observers s"
  using assms(2) by (auto simp: unsubscribe_observers subscribed_last [OF assms] js_remove_def filter_id_conv)

lemma double_unsubscribe: "observers (unsubscribe x (unsubscribe x s)) = observers (unsubscribe x s)"
  by (simp add: unsubscribe_observers js_remove_def)

end

interpretation sj: observable sj_subscribe sj_unsubscribe sj_close sj_observers sj_closed sj_ok
proof
  fix s :: "'o subject" and x :: 'o
  show "sj_closed s \<Longrightarrow> \<exists>e. sj_subscribe x s = Inl e"
    by (simp add: sj_subscribe_def)
  show "\<not> sj_closed s \<Longrightarrow> \<exists>s'. sj_subscribe x s = Inr s' \<and>
      sj_observers s' = js_add x (sj_observers s) \<and> \<not> sj_closed s'"
    by (simp add: sj_subscribe_def sj_observers_def js_add_def)
  show "sj_observers (sj_unsubscribe x s) = js_remove x (sj_observers s)"
    by (simp add: sj_unsubscribe_def sj_observers_def js_remove_def filter_map comp_def)
  show "sj_closed (sj_unsubscribe x s) = sj_closed s"
    by (simp add: sj_unsubscribe_def)
  show "sj_observers (sj_close s) = []" "sj_closed (sj_close s)" "sj_ok (sj_close s)"
    by (simp_all add: sj_close_def sj_observers_def sj_ok_def)
  show "sj_ok s \<Longrightarrow> sj_subscribe x s = Inr s' \<Longrightarrow> sj_ok s'" for s'
    by (fastforce simp: sj_subscribe_def sj_ok_def sj_observers_def sorted_wrt_append less_Suc_eq
        split: if_splits)
  show "sj_ok s \<Longrightarrow> distinct (sj_observers s)"
    by (simp add: sj_ok_def)
  show "sj_ok s \<Longrightarrow> sj_ok (sj_unsubscribe x s)"
    by (auto simp: sj_ok_def sj_unsubscribe_def sj_observers_def distinct_map_filter
        sorted_wrt_map intro: sorted_wrt_filter)
qed

lemma sj_ok_new [simp]: "sj_ok sj_new"
  by (simp add: sj_ok_def sj_new_def sj_observers_def)

subsection \<open>Publishing\<close>

lemma find_append_skip: "(\<And>x. x \<in> set xs \<Longrightarrow> \<not> P x) \<Longrightarrow> List.find P (xs @ ys) = List.find P ys"
  by (induction xs) auto

lemma next_entry_skip:
  fixes k :: nat
  assumes "\<forall>e \<in> set xs. fst e < k" "\<forall>e \<in> set ys. k \<le> fst e"
  shows "List.find (\<lambda>e. k \<le> fst e) (xs @ ys) = (case ys of [] \<Rightarrow> None | y # _ \<Rightarrow> Some y)"
proof -
  have "List.find (\<lambda>e. k \<le> fst e) (xs @ ys) = List.find (\<lambda>e. k \<le> fst e) ys"
    using assms(1) by (intro find_append_skip) (auto dest!: bspec)
  with assms(2) show ?thesis by (cases ys) auto
qed

lemma publish_from_walk:
  assumes ok: "sorted_wrt (<) (map fst (xs @ ys))"
    and passed: "\<forall>e \<in> set xs. fst e < k" "\<forall>e \<in> set ys. k \<le> fst e"
    and entries: "sj_entries (get st) = xs @ ys"
    and inert: "\<And>o' st. sj_entries (get (notify o' st)) = sj_entries (get st)"
  shows "publish_from get notify k st = Some (fold (\<lambda>e. notify (snd e)) ys st)"
  using assms(1-4)
proof (induction ys arbitrary: xs k st)
  case Nil
  then have "next_entry k (get st) = None"
    using next_entry_skip [of xs k "[]"] by (simp add: next_entry_def)
  then show ?case by (simp add: publish_from.simps)
next
  case (Cons y ys)
  have nx: "next_entry k (get st) = Some y"
    using next_entry_skip [OF Cons.prems(2,3)] by (simp add: next_entry_def Cons.prems(4))
  have "publish_from get notify (Suc (fst y)) (notify (snd y) st)
      = Some (fold (\<lambda>e. notify (snd e)) ys (notify (snd y) st))"
    using Cons.prems
    by (intro Cons.IH [of "xs @ [y]"])
      (auto simp: inert sorted_wrt_append intro: less_SucI dest: less_trans)
  with nx show ?case by (simp add: publish_from.simps [of get notify k])
qed

text \<open>
  A walk ends when its observers may take observers away but add none; an invariant of the
  observers holds afterwards.
\<close>

lemma publish_from_ends:
  assumes inv: "I st"
    and step: "\<And>e st. I st \<Longrightarrow> e \<in> set (sj_entries (get st)) \<Longrightarrow> m \<le> fst e \<Longrightarrow>
      I (notify (snd e) st) \<and> set (sj_entries (get (notify (snd e) st))) \<subseteq> set (sj_entries (get st))"
    and from_m: "m \<le> k"
  shows "\<exists>st'. publish_from get notify k st = Some st' \<and> I st'"
  using inv from_m
proof (induction "card {e \<in> set (sj_entries (get st)). k \<le> fst e}" arbitrary: k st rule: less_induct)
  case less
  show ?case
  proof (cases "next_entry k (get st)")
    case None
    then show ?thesis using less.prems by (subst publish_from.simps) simp
  next
    case (Some e)
    then have e: "e \<in> set (sj_entries (get st))" "k \<le> fst e"
      by (auto simp: next_entry_def find_Some_iff)
    let ?st = "notify (snd e) st"
    note s = step [OF less.prems(1) e(1) order_trans [OF less.prems(2) e(2)]]
    have "{e' \<in> set (sj_entries (get ?st)). Suc (fst e) \<le> fst e'}
        \<subset> {e' \<in> set (sj_entries (get st)). k \<le> fst e'}" (is "?new \<subset> ?old")
    proof
      show "?new \<subseteq> ?old" using s e(2) by auto
      show "?new \<noteq> ?old" using e by force
    qed
    then have "card ?new < card ?old" by (simp add: psubset_card_mono)
    moreover have "I ?st" "m \<le> Suc (fst e)" using s less.prems(2) e(2) by auto
    ultimately have "\<exists>st'. publish_from get notify (Suc (fst e)) ?st = Some st' \<and> I st'"
      by (rule less.hyps)
    then obtain st' where "publish_from get notify (Suc (fst e)) ?st = Some st'" "I st'" by blast
    then show ?thesis using Some by (subst publish_from.simps) simp
  qed
qed

lemma sj_publish_inert:
  assumes ok: "sj_ok (get st)"
    and inert: "\<And>o' st. sj_entries (get (notifyObserver call onError o' m st)) = sj_entries (get st)"
  shows "sj_publish get call onError m st
           = Some (fold (\<lambda>o'. notifyObserver call onError o' m) (sj_observers (get st)) st)"
proof -
  have "publish_from get (\<lambda>o'. notifyObserver call onError o' m) 0 st
      = Some (fold (\<lambda>e. notifyObserver call onError (snd e) m) (sj_entries (get st)) st)"
    using ok by (intro publish_from_walk [of "[]"]) (auto simp: sj_ok_def inert)
  then show ?thesis
    by (simp add: sj_publish_def sj_observers_def fold_map comp_def)
qed

text \<open>
  Every subscriber hears a message once, in the order of subscription, and a subscriber
  that throws does not keep the others from it: when observers do not change the subscriptions,
  publishing ends and is the plain iteration over the observers at that time.
\<close>

theorem publish_in_order:
  assumes ok: "sj_ok (get st)"
    and inert: "\<And>o' st. sj_entries (get (notifyObserver call onError o' m st)) = sj_entries (get st)"
  shows "sj_publish get call onError m st
           = Some (fold (\<lambda>o'. notifyObserver call onError o' m) (sj_observers (get st)) st)"
  by (rule sj_publish_inert [OF assms])

text \<open>
  The witness: two observers that append what they hear to a log, one of which throws.
\<close>

definition demo_subject :: "nat subject" where
  "demo_subject = \<lparr>sj_closed = False, sj_entries = [(0, 7), (3, 8)], sj_next = 4\<rparr>"

theorem publish_in_order_witness:
  "sj_publish fst
     (\<lambda>o' m st. ((fst st, snd st @ [(o', m)]), if o' = 7 then Some Not_An_Error else None))
     (\<lambda>_ _ st. st) ''hi'' (demo_subject, [])
   = Some (demo_subject, [(7, ''hi''), (8, ''hi'')])"
proof -
  have ok: "sj_ok (fst (demo_subject, [] :: (nat \<times> string) list))"
    by (simp add: sj_ok_def demo_subject_def sj_observers_def)
  show ?thesis
    by (subst publish_in_order [where get = fst, OF ok])
      (auto simp: notifyObserver_def demo_subject_def sj_observers_def)
qed

subsection \<open>BehaviorSubject\<close>

text \<open>
  \<open>undefined\<close> for the last message means there is none. A new observer hears the last message
  before it is added; on a closed subject it is still called and only then the exception is
  raised. \<open>publish\<close> records the message even when the subject is closed.
\<close>

record ('o, 'm) behavior =
  bs_subject :: "'o subject"
  bs_last :: "'m option"

definition bs_new :: "'m option \<Rightarrow> ('o, 'm) behavior" where
  "bs_new initialValue = \<lparr>bs_subject = sj_new, bs_last = initialValue\<rparr>"

definition bs_publish ::
    "('st \<Rightarrow> ('o, 'm) behavior) \<Rightarrow> (('o, 'm) behavior \<Rightarrow> 'st \<Rightarrow> 'st) \<Rightarrow>
     ('o \<Rightarrow> 'm \<Rightarrow> 'st \<Rightarrow> 'st \<times> exn option) \<Rightarrow> (exn \<Rightarrow> 'o \<Rightarrow> 'st \<Rightarrow> 'st) \<Rightarrow> 'm \<Rightarrow> 'st \<Rightarrow> 'st option" where
  "bs_publish get put call onError message st =
     sj_publish (\<lambda>s. bs_subject (get s)) call onError message
       (put ((get st)\<lparr>bs_last := Some message\<rparr>) st)"

definition bs_subscribe ::
    "('st \<Rightarrow> ('o, 'm) behavior) \<Rightarrow> (('o, 'm) behavior \<Rightarrow> 'st \<Rightarrow> 'st) \<Rightarrow>
     ('o \<Rightarrow> 'm \<Rightarrow> 'st \<Rightarrow> 'st \<times> exn option) \<Rightarrow> (exn \<Rightarrow> 'o \<Rightarrow> 'st \<Rightarrow> 'st) \<Rightarrow> 'o \<Rightarrow> 'st \<Rightarrow> 'st \<times> exn option" where
  "bs_subscribe get put call onError observer st =
     (let st1 = (case bs_last (get st) of
                   Some m \<Rightarrow> notifyObserver call onError observer m st
                 | None \<Rightarrow> st)
      in case sj_subscribe observer (bs_subject (get st1)) of
           Inl e \<Rightarrow> (st1, Some e)
         | Inr s \<Rightarrow> (put ((get st1)\<lparr>bs_subject := s\<rparr>) st1, None))"

definition bs_unsubscribe :: "'o \<Rightarrow> ('o, 'm) behavior \<Rightarrow> ('o, 'm) behavior" where
  "bs_unsubscribe observer b = b\<lparr>bs_subject := sj_unsubscribe observer (bs_subject b)\<rparr>"

definition bs_close :: "('o, 'm) behavior \<Rightarrow> ('o, 'm) behavior" where
  "bs_close b = b\<lparr>bs_subject := sj_close (bs_subject b)\<rparr>"

text \<open>
  A late subscriber is told the current value: after a publish, subscribing calls the observer
  with the message published last (and, when the subject is open, adds it once).
\<close>

lemma bs_subscribe_replays:
  assumes "bs_last (get st) = Some m"
    and "\<not> sj_closed (bs_subject (get (notifyObserver call onError x m st)))"
  shows "\<exists>s. bs_subscribe get put call onError x st
      = (put ((get (notifyObserver call onError x m st))\<lparr>bs_subject := s\<rparr>)
           (notifyObserver call onError x m st), None)
    \<and> sj_observers s = js_add x (sj_observers (bs_subject (get (notifyObserver call onError x m st))))"
  using assms sj.subscribe_open [OF assms(2), of x] by (auto simp: bs_subscribe_def Let_def)

end
