(* ===== verification/Channel_Types.thy ===== *)
theory Channel_Types
  imports Presence Subject
begin

text \<open>
  The data of \<open>ChannelEngine\<close> (\<open>core/src/engines/channelEngine.ts\<close>): the messages servers
  exchange about a channel (\<open>core/src/types.ts\<close>), what an engine makes happen outside itself
  (its effects), its state, and the small operations every method is made of: emitting an
  effect, drawing a uuid, publishing to the observers, broadcasting to the other nodes.

  Callbacks are effects. Calling a client's \<open>onMessage\<close>, starting the outgoing handlers for a
  recipient, calling the leave callback, resolving a promise, handing a message to the backend
  and removing the channel from its lobby are appended, in the order the code performs them, to
  the log \<open>ch_log\<close>; the code of those callbacks is not part of an engine's own step.
\<close>

subsection \<open>Messages between nodes\<close>

text \<open>
  \<open>DistributedChannelMessage\<close>: the fields every message has, and the body its \<open>type\<close> selects.
  The transport adds \<open>sourceNodeId\<close> on the way. The user a message names travels as a triple
  of id, presence and assigns in a state response.
\<close>

datatype dist_body =
    STATE_REQUEST string
  | STATE_RESPONSE "(string \<times> obj \<times> obj) list"
  | USER_JOINED string obj obj
  | USER_LEFT string
  | USER_MESSAGE string string obj string receivers
  | PRESENCE_UPDATE string obj
  | PRESENCE_REMOVED string
  | ASSIGNS_UPDATE string "obj option" "(string \<times> json) option"
  | EVICT_USER string string
  | USER_REMOVE string
  | USER_GET_REQUEST string string string
  | USER_GET_RESPONSE string string obj obj
  | NODE_HEARTBEAT string

record dist_message =
  dm_endpoint :: string
  dm_channel :: string
  dm_source :: "string option"
  dm_body :: dist_body

subsection \<open>State\<close>

record user_data =
  ud_id :: string
  ud_assigns :: obj
  ud_presence :: obj

text \<open>
  A subscriber of the publisher: a closure over the user's id and the \<open>onMessage\<close> of its
  connection, with an identity of its own.
\<close>

datatype observer = Observer (ob_id: nat) (ob_user: string) (ob_conn: nat)

datatype eff =
    Send nat channel_event
  | Start_Outgoing nat string channel_event
  | To_Nodes dist_message
  | Call_Leave user_data
  | Resolve string "user_data option"
  | Clear_Timeout string
  | Unsubscribe_Backend
  | Unsubscribe_Heartbeats
  | Clear_Stale_Timer
  | Delete_Channel string

text \<open>
  The fields of \<open>ChannelEngine\<close>. \<open>ch_backend\<close> is the backend's heartbeat timeout when there is
  one; \<open>ch_leave\<close> tells whether the lobby has a leave callback; \<open>ch_settled\<close> and \<open>ch_waiting\<close>
  are the promise \<open>distributedReady\<close> and the number of callbacks chained on it; \<open>ch_random\<close> is
  the sequence of the results of \<open>uuid()\<close> and \<open>ch_drawn\<close> how many were used.
\<close>

record chan =
  ch_name :: string
  ch_endpoint :: string
  ch_node :: string
  ch_backend :: "nat option"
  ch_leave :: bool
  ch_presence :: "presence_engine option"
  ch_assigns :: "obj jmap"
  ch_subs :: "observer jmap"
  ch_publisher :: "observer subject"
  ch_next_id :: nat
  ch_dist_sub :: bool
  ch_heartbeat_sub :: bool
  ch_stale_timer :: bool
  ch_last_seen :: "nat jmap"
  ch_node_users :: "string list jmap"
  ch_pending :: "string list"
  ch_closed :: bool
  ch_settled :: bool
  ch_waiting :: nat
  ch_random :: "nat \<Rightarrow> string"
  ch_drawn :: nat
  ch_log :: "eff list"

type_synonym outcome = "chan \<times> exn option"

text \<open>
  The constructor, up to its first suspension: with a backend it starts subscribing to the
  channel, subscribes to the heartbeats and starts the timer of the stale nodes.
\<close>

definition new_channel ::
    "string \<Rightarrow> string \<Rightarrow> nat option \<Rightarrow> bool \<Rightarrow> (nat \<Rightarrow> string) \<Rightarrow> chan" where
  "new_channel name path backend leave random =
     \<lparr>ch_name = name, ch_endpoint = path, ch_node = random 0, ch_backend = backend, ch_leave = leave,
      ch_presence = None, ch_assigns = [], ch_subs = [], ch_publisher = sj_new, ch_next_id = 0,
      ch_dist_sub = False, ch_heartbeat_sub = (backend \<noteq> None), ch_stale_timer = (backend \<noteq> None),
      ch_last_seen = [], ch_node_users = [], ch_pending = [], ch_closed = False,
      ch_settled = (backend = None), ch_waiting = 0, ch_random = random, ch_drawn = 1, ch_log = []\<rparr>"

definition ch_users :: "chan \<Rightarrow> string list" where
  "ch_users c = jm_keys (ch_assigns c)"

definition has_user :: "string \<Rightarrow> chan \<Rightarrow> bool" where
  "has_user u c = jm_has (ch_assigns c) u"

subsection \<open>Small steps\<close>

definition emit :: "eff list \<Rightarrow> chan \<Rightarrow> chan" where
  "emit es c = c\<lparr>ch_log := ch_log c @ es\<rparr>"

definition draw :: "chan \<Rightarrow> string \<times> chan" where
  "draw c = (ch_random c (ch_drawn c), c\<lparr>ch_drawn := Suc (ch_drawn c)\<rparr>)"

definition and_then :: "outcome \<Rightarrow> (chan \<Rightarrow> outcome) \<Rightarrow> outcome" where
  "and_then r f = (case r of (c, None) \<Rightarrow> f c | (c, Some e) \<Rightarrow> (c, Some e))"

lemma and_then_simps [simp]: "and_then (c, None) f = f c" "and_then (c, Some e) f = (c, Some e)"
  by (simp_all add: and_then_def)

text \<open>
  What a subscriber does with an event: nothing unless its user is a recipient; a presence
  event goes to the connection at once, any other event first through the outgoing handlers.
\<close>

definition observe :: "internal_event \<Rightarrow> observer \<Rightarrow> eff list" where
  "observe ev ob =
     (if ob_user ob \<in> set (ie_recipients ev) then
        (if ce_action ev = A_PRESENCE then [Send (ob_conn ob) (channel_event.truncate ev)]
         else [Start_Outgoing (ob_conn ob) (ob_user ob) (channel_event.truncate ev)])
      else [])"

definition publish :: "internal_event \<Rightarrow> chan \<Rightarrow> chan" where
  "publish ev c = fold (\<lambda>ob. emit (observe ev ob)) (sj_observers (ch_publisher c)) c"

definition broadcastToNodes :: "dist_body \<Rightarrow> chan \<Rightarrow> chan" where
  "broadcastToNodes body c =
     (if ch_backend c = None \<or> ch_closed c then c
      else emit [To_Nodes \<lparr>dm_endpoint = ch_endpoint c, dm_channel = ch_name c, dm_source = None,
                           dm_body = body\<rparr>] c)"

lemma emit_Nil [simp]: "emit [] c = c"
  by (simp add: emit_def)

lemma emit_emit [simp]: "emit es (emit ds c) = emit (ds @ es) c"
  by (simp add: emit_def)

lemma fold_emit: "fold (\<lambda>x. emit (f x)) xs c = emit (concat (map f xs)) c"
  by (induction xs arbitrary: c) simp_all

text \<open>
  Publishing is \<open>Subject.publish\<close>, whose walk over the live set of observers the model of
  \<open>Subject\<close> defines; it appends what each observer does to the log.
\<close>

definition deliveries :: "internal_event \<Rightarrow> chan \<Rightarrow> eff list" where
  "deliveries ev c = concat (map (observe ev) (sj_observers (ch_publisher c)))"

lemma publish_emit: "publish ev c = emit (deliveries ev c) c"
  by (simp add: publish_def deliveries_def fold_emit)

lemma publish_is_Subject_publish:
  assumes "sj_ok (ch_publisher c)"
  shows "sj_publish ch_publisher (\<lambda>ob m st. (emit (observe m ob) st, None)) (\<lambda>_ _ st. st) ev c
           = Some (publish ev c)"
  using assms by (subst sj_publish_inert) (simp_all add: publish_def emit_def [abs_def] notifyObserver_def [abs_def])

lemma emit_frame [simp, frame_simps]:
  "ch_name (emit es c) = ch_name c" "ch_endpoint (emit es c) = ch_endpoint c"
  "ch_node (emit es c) = ch_node c" "ch_backend (emit es c) = ch_backend c"
  "ch_leave (emit es c) = ch_leave c" "ch_presence (emit es c) = ch_presence c"
  "ch_assigns (emit es c) = ch_assigns c" "ch_subs (emit es c) = ch_subs c"
  "ch_publisher (emit es c) = ch_publisher c" "ch_next_id (emit es c) = ch_next_id c"
  "ch_dist_sub (emit es c) = ch_dist_sub c" "ch_heartbeat_sub (emit es c) = ch_heartbeat_sub c"
  "ch_stale_timer (emit es c) = ch_stale_timer c" "ch_last_seen (emit es c) = ch_last_seen c"
  "ch_node_users (emit es c) = ch_node_users c" "ch_pending (emit es c) = ch_pending c"
  "ch_closed (emit es c) = ch_closed c" "ch_settled (emit es c) = ch_settled c"
  "ch_waiting (emit es c) = ch_waiting c" "ch_random (emit es c) = ch_random c"
  "ch_drawn (emit es c) = ch_drawn c" "ch_log (emit es c) = ch_log c @ es"
  by (simp_all add: emit_def)

definition to_nodes :: "dist_body \<Rightarrow> chan \<Rightarrow> eff list" where
  "to_nodes body c =
     (if ch_backend c = None \<or> ch_closed c then []
      else [To_Nodes \<lparr>dm_endpoint = ch_endpoint c, dm_channel = ch_name c, dm_source = None,
                      dm_body = body\<rparr>])"

lemma broadcast_emit: "broadcastToNodes body c = emit (to_nodes body c) c"
  by (simp add: broadcastToNodes_def to_nodes_def)

end
