(* ===== verification/Distributor.thy ===== *)
theory Distributor
  imports Channel_Types Json
begin

text \<open>
  The distributed backend over Redis (\<open>core/src/abstracts/distributor.ts\<close>) and the messages it
  carries (\<open>core/src/types.ts\<close>). The client of Redis is outside: the commands it is given are
  logged, and what it calls back is an operation. \<open>JSON.parse\<close> is a parameter; the clock, the
  random id of a node and those of messages are arguments.
\<close>

subsection \<open>Messages on the wire\<close>

definition dist_types :: "string list" where
  "dist_types =
     [''STATE_REQUEST'', ''STATE_RESPONSE'', ''USER_JOINED'', ''USER_LEFT'', ''USER_MESSAGE'', ''PRESENCE_UPDATE'',
      ''PRESENCE_REMOVED'', ''ASSIGNS_UPDATE'', ''EVICT_USER'', ''USER_REMOVE'', ''USER_GET_REQUEST'',
      ''USER_GET_RESPONSE'', ''NODE_HEARTBEAT'']"

fun receivers_json :: "receivers \<Rightarrow> json" where
  "receivers_json ALL_USERS = JStr ''ALL_USERS''"
| "receivers_json ALL_EXCEPT_SENDER = JStr ''ALL_EXCEPT_SENDER''"
| "receivers_json (Users us) = JArr (map JStr us)"
| "receivers_json (Other_Receiver s) = JStr s"

text \<open>The fields each type of message has besides those of every message.\<close>

fun body_fields :: "dist_body \<Rightarrow> string \<times> obj" where
  "body_fields (STATE_REQUEST node) = (''STATE_REQUEST'', [(''fromNode'', JStr node)])"
| "body_fields (STATE_RESPONSE users) = (''STATE_RESPONSE'',
     [(''users'', JArr (map (\<lambda>(u, presence, assigns).
        JObj [(''id'', JStr u), (''assigns'', JObj assigns), (''presence'', JObj presence)]) users))])"
| "body_fields (USER_JOINED u presence assigns) = (''USER_JOINED'',
     [(''userId'', JStr u), (''presence'', JObj presence), (''assigns'', JObj assigns)])"
| "body_fields (USER_LEFT u) = (''USER_LEFT'', [(''userId'', JStr u)])"
| "body_fields (USER_MESSAGE sender event payload rid recipients) = (''USER_MESSAGE'',
     [(''fromUserId'', JStr sender), (''event'', JStr event), (''payload'', JObj payload),
      (''requestId'', JStr rid), (''recipientDescriptor'', receivers_json recipients)])"
| "body_fields (PRESENCE_UPDATE u presence) = (''PRESENCE_UPDATE'',
     [(''userId'', JStr u), (''presence'', JObj presence)])"
| "body_fields (PRESENCE_REMOVED u) = (''PRESENCE_REMOVED'', [(''userId'', JStr u)])"
| "body_fields (ASSIGNS_UPDATE u assigns entry) = (''ASSIGNS_UPDATE'',
     [(''userId'', JStr u)] @ (case assigns of None \<Rightarrow> [] | Some a \<Rightarrow> [(''assigns'', JObj a)])
       @ (case entry of None \<Rightarrow> [] | Some (key, value) \<Rightarrow> [(''key'', JStr key), (''value'', value)]))"
| "body_fields (EVICT_USER u reason) = (''EVICT_USER'', [(''userId'', JStr u), (''reason'', JStr reason)])"
| "body_fields (USER_REMOVE u) = (''USER_REMOVE'', [(''userId'', JStr u)])"
| "body_fields (USER_GET_REQUEST u rid node) = (''USER_GET_REQUEST'',
     [(''userId'', JStr u), (''requestId'', JStr rid), (''fromNode'', JStr node)])"
| "body_fields (USER_GET_RESPONSE u rid assigns presence) = (''USER_GET_RESPONSE'',
     [(''userId'', JStr u), (''requestId'', JStr rid), (''assigns'', JObj assigns), (''presence'', JObj presence)])"
| "body_fields (NODE_HEARTBEAT node) = (''NODE_HEARTBEAT'', [(''nodeId'', JStr node)])"

definition message_obj :: "dist_message \<Rightarrow> obj" where
  "message_obj m =
     (case body_fields (dm_body m) of (kind, own) \<Rightarrow>
        [(''type'', JStr kind), (''endpointName'', JStr (dm_endpoint m)), (''channelName'', JStr (dm_channel m))]
        @ (case dm_source m of None \<Rightarrow> [] | Some node \<Rightarrow> [(''sourceNodeId'', JStr node)]) @ own)"

text \<open>What the handlers of an engine read from a message of each type.\<close>

definition str_field :: "obj \<Rightarrow> string \<Rightarrow> string option" where
  "str_field fs k = (case jm_get fs k of Some (JStr s) \<Rightarrow> Some s | _ \<Rightarrow> None)"

definition obj_field :: "obj \<Rightarrow> string \<Rightarrow> obj option" where
  "obj_field fs k = (case jm_get fs k of Some (JObj x) \<Rightarrow> Some x | _ \<Rightarrow> None)"

definition read_string :: "json \<Rightarrow> string option" where
  "read_string j = (case j of JStr s \<Rightarrow> Some s | _ \<Rightarrow> None)"

definition read_receivers :: "json \<Rightarrow> receivers option" where
  "read_receivers j =
     (case j of
        JStr s \<Rightarrow> Some (if s = ''ALL_USERS'' then ALL_USERS else if s = ''ALL_EXCEPT_SENDER'' then ALL_EXCEPT_SENDER
          else Other_Receiver s)
      | JArr us \<Rightarrow> map_option Users (those (map read_string us))
      | _ \<Rightarrow> None)"

definition read_user :: "json \<Rightarrow> (string \<times> obj \<times> obj) option" where
  "read_user j =
     (case j of
        JObj fs \<Rightarrow> Option.bind (str_field fs ''id'') (\<lambda>u. Option.bind (obj_field fs ''presence'') (\<lambda>presence.
          map_option (\<lambda>assigns. (u, presence, assigns)) (obj_field fs ''assigns'')))
      | _ \<Rightarrow> None)"

definition read_users :: "obj \<Rightarrow> (string \<times> obj \<times> obj) list option" where
  "read_users fs = (case jm_get fs ''users'' of Some (JArr us) \<Rightarrow> those (map read_user us) | _ \<Rightarrow> None)"

definition read_body :: "string \<Rightarrow> obj \<Rightarrow> dist_body option" where
  "read_body kind fs =
     (let u = str_field fs ''userId''; with = \<lambda>k f. Option.bind u (\<lambda>u. map_option (f u) (obj_field fs k)) in
      if kind = ''STATE_REQUEST'' then map_option STATE_REQUEST (str_field fs ''fromNode'')
      else if kind = ''STATE_RESPONSE'' then map_option STATE_RESPONSE (read_users fs)
      else if kind = ''USER_JOINED'' then
        Option.bind (obj_field fs ''assigns'') (\<lambda>assigns. with ''presence'' (\<lambda>u presence. USER_JOINED u presence assigns))
      else if kind = ''USER_LEFT'' then map_option USER_LEFT u
      else if kind = ''USER_MESSAGE'' then
        Option.bind (str_field fs ''fromUserId'') (\<lambda>sender. Option.bind (str_field fs ''event'') (\<lambda>event.
        Option.bind (obj_field fs ''payload'') (\<lambda>payload. Option.bind (str_field fs ''requestId'') (\<lambda>rid.
        Option.bind (jm_get fs ''recipientDescriptor'') (\<lambda>r.
          map_option (USER_MESSAGE sender event payload rid) (read_receivers r))))))
      else if kind = ''PRESENCE_UPDATE'' then with ''presence'' PRESENCE_UPDATE
      else if kind = ''PRESENCE_REMOVED'' then map_option PRESENCE_REMOVED u
      else if kind = ''ASSIGNS_UPDATE'' then
        map_option (\<lambda>u. ASSIGNS_UPDATE u (obj_field fs ''assigns'')
          (Option.bind (str_field fs ''key'') (\<lambda>key. map_option (Pair key) (jm_get fs ''value'')))) u
      else if kind = ''EVICT_USER'' then Option.bind u (\<lambda>u. map_option (EVICT_USER u) (str_field fs ''reason''))
      else if kind = ''USER_REMOVE'' then map_option USER_REMOVE u
      else if kind = ''USER_GET_REQUEST'' then
        Option.bind (str_field fs ''requestId'') (\<lambda>rid. Option.bind u (\<lambda>u.
          map_option (USER_GET_REQUEST u rid) (str_field fs ''fromNode'')))
      else if kind = ''USER_GET_RESPONSE'' then
        Option.bind (str_field fs ''requestId'') (\<lambda>rid. Option.bind (obj_field fs ''assigns'') (\<lambda>assigns.
          with ''presence'' (\<lambda>u presence. USER_GET_RESPONSE u rid assigns presence)))
      else if kind = ''NODE_HEARTBEAT'' then map_option NODE_HEARTBEAT (str_field fs ''nodeId'')
      else None)"

definition read_message :: "obj \<Rightarrow> dist_message option" where
  "read_message fs =
     Option.bind (str_field fs ''type'') (\<lambda>kind. Option.bind (str_field fs ''endpointName'') (\<lambda>endpoint.
     Option.bind (str_field fs ''channelName'') (\<lambda>channel.
       map_option (\<lambda>body. \<lparr>dm_endpoint = endpoint, dm_channel = channel, dm_source = str_field fs ''sourceNodeId'',
         dm_body = body\<rparr>) (read_body kind fs))))"

subsection \<open>The backend\<close>

datatype redis_eff =
    Redis_Connect string
  | Redis_Quit string
  | Redis_Subscribe string
  | Redis_Unsubscribe string
  | Redis_Publish string string
  | Hear_Heartbeat nat string
  | Backend_Error string

record redis_backend =
  rb_prefix :: string
  rb_namespace :: string
  rb_node :: string
  rb_interval :: nat
  rb_timeout :: nat
  rb_reports :: bool
  rb_connected :: bool
  rb_timer :: bool
  rb_heartbeats :: "nat subject"
  rb_log :: "redis_eff list"

definition new_redis_backend ::
    "string option \<Rightarrow> string option \<Rightarrow> nat option \<Rightarrow> nat option \<Rightarrow> bool \<Rightarrow> string \<Rightarrow> redis_backend" where
  "new_redis_backend keyPrefix namespace heartbeatIntervalMs heartbeatTimeoutMs onError nodeId =
     \<lparr>rb_prefix = case_option ''pondsocket'' id keyPrefix, rb_namespace = case_option ''default'' id namespace,
      rb_node = nodeId, rb_interval = case_option 30000 id heartbeatIntervalMs,
      rb_timeout = case_option 90000 id heartbeatTimeoutMs, rb_reports = onError, rb_connected = False,
      rb_timer = False, rb_heartbeats = sj_new, rb_log = []\<rparr>"

definition reconnectStrategy :: "nat \<Rightarrow> nat" where
  "reconnectStrategy retries = min (retries * 100) 5000"

definition rb_emit :: "redis_eff list \<Rightarrow> redis_backend \<Rightarrow> redis_backend" where
  "rb_emit es rb = rb\<lparr>rb_log := rb_log rb @ es\<rparr>"

definition normalizeTopicPart :: "string \<Rightarrow> string" where
  "normalizeTopicPart value = dropWhile (\<lambda>c. c = CHR ''/'') value"

definition HEARTBEAT :: string where "HEARTBEAT = ''__heartbeat__''"

definition buildKey :: "string \<Rightarrow> string \<Rightarrow> redis_backend \<Rightarrow> string" where
  "buildKey endpointName channelName rb =
     (let topic = rb_prefix rb @ '':v1:'' @ rb_namespace rb @ '':''
      in if endpointName = HEARTBEAT \<and> channelName = HEARTBEAT then topic @ HEARTBEAT
         else topic @ normalizeTopicPart endpointName @ '':'' @ channelName)"

definition DISTRIBUTED_PROTOCOL :: string where "DISTRIBUTED_PROTOCOL = ''pondsocket.distributed''"

definition DISTRIBUTED_VERSION :: int where "DISTRIBUTED_VERSION = 1"

text \<open>\<open>typeof null\<close> is \<open>object\<close>, and reading a property of null throws; its callers catch that.\<close>

definition isValidMessage :: "json \<Rightarrow> bool res" where
  "isValidMessage message =
     (case message of
        JNull \<Rightarrow> Inl (Plain_Error ''Cannot read properties of null'')
      | JObj fs \<Rightarrow> Inr (
          jm_get fs ''protocol'' = Some (JStr DISTRIBUTED_PROTOCOL)
          \<and> jm_get fs ''version'' = Some (JNum DISTRIBUTED_VERSION)
          \<and> (case str_field fs ''type'' of Some t \<Rightarrow> t \<in> set dist_types | None \<Rightarrow> False)
          \<and> str_field fs ''messageId'' \<noteq> None \<and> str_field fs ''endpointName'' \<noteq> None
          \<and> str_field fs ''channelName'' \<noteq> None \<and> str_field fs ''sourceNodeId'' \<noteq> None
          \<and> (case jm_get fs ''timestamp'' of Some (JNum _) \<Rightarrow> True | _ \<Rightarrow> False))
      | _ \<Rightarrow> Inr False)"

text \<open>What the listener of a channel hands to its handler (which may throw, unnoticed).\<close>

definition rb_listener :: "(string \<Rightarrow> json res) \<Rightarrow> redis_backend \<Rightarrow> string \<Rightarrow> obj option" where
  "rb_listener json_parse rb message =
     (case res_bind (json_parse message) (\<lambda>parsed. res_bind (isValidMessage parsed) (\<lambda>valid. Inr (valid, parsed))) of
        Inr (True, JObj fs) \<Rightarrow> if jm_get fs ''sourceNodeId'' \<noteq> Some (JStr (rb_node rb)) then Some fs else None
      | _ \<Rightarrow> None)"

definition subscribeToChannel :: "string \<Rightarrow> string \<Rightarrow> redis_backend \<Rightarrow> redis_backend" where
  "subscribeToChannel endpointName channelName rb = rb_emit [Redis_Subscribe (buildKey endpointName channelName rb)] rb"

text \<open>The function \<open>subscribeToChannel\<close> gives: it names no listener.\<close>

definition rb_unsubscribe :: "string \<Rightarrow> string \<Rightarrow> redis_backend \<Rightarrow> redis_backend" where
  "rb_unsubscribe endpointName channelName rb = rb_emit [Redis_Unsubscribe (buildKey endpointName channelName rb)] rb"

definition subscribeToHeartbeats :: "nat \<Rightarrow> redis_backend \<Rightarrow> redis_backend res" where
  "subscribeToHeartbeats handler rb =
     res_bind (sj_subscribe handler (rb_heartbeats rb)) (\<lambda>s. Inr (rb\<lparr>rb_heartbeats := s\<rparr>))"

text \<open>The stamp of a node: spread over the message, its own fields win.\<close>

definition stamp :: "redis_backend \<Rightarrow> string \<Rightarrow> nat \<Rightarrow> string \<Rightarrow> obj \<Rightarrow> obj" where
  "stamp rb endpointName now fresh message =
     obj_merge message
       [(''protocol'', JStr DISTRIBUTED_PROTOCOL), (''version'', JNum DISTRIBUTED_VERSION),
        (''messageId'', the (nullish (jm_get message ''messageId'') (Some (JStr fresh)))),
        (''timestamp'', the (nullish (jm_get message ''timestamp'') (Some (JNum (int now))))),
        (''sourceNodeId'', JStr (rb_node rb)), (''endpointName'', JStr (normalizeTopicPart endpointName))]"

definition rb_broadcast :: "string \<Rightarrow> string \<Rightarrow> obj \<Rightarrow> nat \<Rightarrow> string \<Rightarrow> redis_backend \<Rightarrow> redis_backend res" where
  "rb_broadcast endpointName channelName message now fresh rb =
     (if \<not> rb_connected rb then Inl (Plain_Error ''Redis backend is not connected'')
      else Inr (rb_emit [Redis_Publish (buildKey endpointName channelName rb)
        (json_stringify (JObj (stamp rb endpointName now fresh message)))] rb))"

subsection \<open>Heartbeats\<close>

definition heartbeat_obj :: "nat \<Rightarrow> string \<Rightarrow> redis_backend \<Rightarrow> obj" where
  "heartbeat_obj now fresh rb =
     [(''protocol'', JStr DISTRIBUTED_PROTOCOL), (''version'', JNum DISTRIBUTED_VERSION),
      (''type'', JStr ''NODE_HEARTBEAT''), (''messageId'', JStr fresh), (''endpointName'', JStr HEARTBEAT),
      (''channelName'', JStr HEARTBEAT), (''sourceNodeId'', JStr (rb_node rb)), (''timestamp'', JNum (int now)),
      (''nodeId'', JStr (rb_node rb))]"

definition publishHeartbeat :: "nat \<Rightarrow> string \<Rightarrow> redis_backend \<Rightarrow> redis_backend" where
  "publishHeartbeat now fresh rb =
     (if \<not> rb_connected rb then rb
      else rb_emit [Redis_Publish (buildKey HEARTBEAT HEARTBEAT rb) (json_stringify (JObj (heartbeat_obj now fresh rb)))] rb)"

definition heartbeat_failed :: "string \<Rightarrow> redis_backend \<Rightarrow> redis_backend" where
  "heartbeat_failed message rb =
     (if rb_reports rb then rb_emit [Backend_Error (''Failed to publish heartbeat: '' @ message)] rb else rb)"

definition startHeartbeat :: "nat \<Rightarrow> string \<Rightarrow> redis_backend \<Rightarrow> redis_backend" where
  "startHeartbeat now fresh rb = (publishHeartbeat now fresh rb)\<lparr>rb_timer := True\<rparr>"

definition heartbeat_tick :: "nat \<Rightarrow> string \<Rightarrow> redis_backend \<Rightarrow> redis_backend" where
  "heartbeat_tick now fresh rb = (if rb_timer rb then publishHeartbeat now fresh rb else rb)"

text \<open>An empty node id counts as none.\<close>

definition handleHeartbeatMessage :: "(string \<Rightarrow> json res) \<Rightarrow> string \<Rightarrow> redis_backend \<Rightarrow> redis_backend" where
  "handleHeartbeatMessage json_parse message rb =
     (case res_bind (json_parse message) (\<lambda>parsed. res_bind (isValidMessage parsed) (\<lambda>valid. Inr (valid, parsed))) of
        Inr (True, JObj fs) \<Rightarrow>
          (case str_field fs ''sourceNodeId'' of
             Some node \<Rightarrow>
               if jm_get fs ''type'' = Some (JStr ''NODE_HEARTBEAT'') \<and> node \<noteq> [] \<and> node \<noteq> rb_node rb
               then rb_emit (map (\<lambda>observer. Hear_Heartbeat observer node) (sj_observers (rb_heartbeats rb))) rb
               else rb
           | None \<Rightarrow> rb)
      | _ \<Rightarrow> rb)"

subsection \<open>Connecting\<close>

text \<open>\<open>initialize\<close>, up to each of its awaits.\<close>

definition rb_initialize :: "redis_backend \<Rightarrow> redis_backend" where
  "rb_initialize rb = rb_emit [Redis_Connect ''publish'', Redis_Connect ''subscribe''] rb"

definition rb_clients_connected :: "redis_backend \<Rightarrow> redis_backend" where
  "rb_clients_connected rb = rb_emit [Redis_Subscribe (buildKey HEARTBEAT HEARTBEAT rb)] rb"

definition rb_heartbeats_subscribed :: "nat \<Rightarrow> string \<Rightarrow> redis_backend \<Rightarrow> redis_backend" where
  "rb_heartbeats_subscribed now fresh rb = startHeartbeat now fresh (rb\<lparr>rb_connected := True\<rparr>)"

text \<open>\<open>cleanup\<close>: each client is asked to quit when it is open.\<close>

definition rb_cleanup :: "bool \<Rightarrow> redis_backend \<Rightarrow> redis_backend" where
  "rb_cleanup subscribe_open rb =
     rb_emit (if subscribe_open then [Redis_Quit ''subscribe''] else [])
       (rb\<lparr>rb_timer := False, rb_heartbeats := sj_close (rb_heartbeats rb)\<rparr>)"

definition rb_cleanup_publisher :: "bool \<Rightarrow> redis_backend \<Rightarrow> redis_backend" where
  "rb_cleanup_publisher publish_open rb = rb_emit (if publish_open then [Redis_Quit ''publish''] else []) rb"

definition rb_cleanup_ends :: "redis_backend \<Rightarrow> redis_backend" where
  "rb_cleanup_ends rb = rb\<lparr>rb_connected := False\<rparr>"

definition rb_on_error :: "string \<Rightarrow> string \<Rightarrow> redis_backend \<Rightarrow> redis_backend" where
  "rb_on_error label message rb =
     (let rb1 = rb\<lparr>rb_connected := False\<rparr>
      in if rb_reports rb1 then rb_emit [Backend_Error (''Redis '' @ label @ '' client error: '' @ message)] rb1 else rb1)"

definition rb_on_ready :: "bool \<Rightarrow> bool \<Rightarrow> redis_backend \<Rightarrow> redis_backend" where
  "rb_on_ready publish_ready subscribe_ready rb =
     (if publish_ready \<and> subscribe_ready then rb\<lparr>rb_connected := True\<rparr> else rb)"

definition rb_on_end :: "redis_backend \<Rightarrow> redis_backend" where
  "rb_on_end rb = rb\<lparr>rb_connected := False\<rparr>"

end
