(* ===== verification/Distributor_Props.thy ===== *)
theory Distributor_Props
  imports Distributor
begin

text \<open>
  What the distributed backend promises the channel engines: an announcement reaches the other
  nodes as it was made, with the name of its node, and comes back to its own node never; and which
  channels share a topic.
\<close>

subsection \<open>Reading back what was written\<close>

text \<open>Engines refuse messages with any other receiver before they announce them.\<close>

definition wire_body :: "dist_body \<Rightarrow> bool" where
  "wire_body body =
     (case body of USER_MESSAGE _ _ _ _ (Other_Receiver _) \<Rightarrow> False | _ \<Rightarrow> True)"

definition common_fields :: "string list" where
  "common_fields =
     [''protocol'', ''version'', ''type'', ''messageId'', ''endpointName'', ''channelName'', ''timestamp'', ''sourceNodeId'']"

lemma those_read_string: "those (map (read_string \<circ> JStr) us) = Some us"
  by (induction us) (simp_all add: read_string_def)

lemma those_read_user:
  "those (map (read_user \<circ> (\<lambda>(u, presence, assigns).
     JObj [(''id'', JStr u), (''assigns'', JObj assigns), (''presence'', JObj presence)])) users) = Some users"
  by (induction users) (auto simp: read_user_def str_field_def obj_field_def jm_get_def)

lemma read_receivers_json: "\<forall>s. r \<noteq> Other_Receiver s \<Longrightarrow> read_receivers (receivers_json r) = Some r"
  by (cases r) (simp_all add: read_receivers_def those_read_string)

lemma read_body_fields:
  assumes fs: "\<And>k. k \<notin> set common_fields \<Longrightarrow> jm_get fs k = jm_get (snd (body_fields body)) k"
    and wire: "wire_body body"
  shows "read_body (fst (body_fields body)) fs = Some body"
proof -
  have get: "jm_get fs ''fromNode'' = jm_get (snd (body_fields body)) ''fromNode''"
    "jm_get fs ''users'' = jm_get (snd (body_fields body)) ''users''"
    "jm_get fs ''userId'' = jm_get (snd (body_fields body)) ''userId''"
    "jm_get fs ''presence'' = jm_get (snd (body_fields body)) ''presence''"
    "jm_get fs ''assigns'' = jm_get (snd (body_fields body)) ''assigns''"
    "jm_get fs ''fromUserId'' = jm_get (snd (body_fields body)) ''fromUserId''"
    "jm_get fs ''event'' = jm_get (snd (body_fields body)) ''event''"
    "jm_get fs ''payload'' = jm_get (snd (body_fields body)) ''payload''"
    "jm_get fs ''requestId'' = jm_get (snd (body_fields body)) ''requestId''"
    "jm_get fs ''recipientDescriptor'' = jm_get (snd (body_fields body)) ''recipientDescriptor''"
    "jm_get fs ''key'' = jm_get (snd (body_fields body)) ''key''"
    "jm_get fs ''value'' = jm_get (snd (body_fields body)) ''value''"
    "jm_get fs ''reason'' = jm_get (snd (body_fields body)) ''reason''"
    "jm_get fs ''nodeId'' = jm_get (snd (body_fields body)) ''nodeId''"
    by (rule fs, simp add: common_fields_def)+
  show ?thesis
  proof (cases body)
    case (USER_MESSAGE sender event payload rid r)
    then have "read_receivers (receivers_json r) = Some r"
      using wire by (intro read_receivers_json) (auto simp: wire_body_def split: receivers.splits)
    then show ?thesis
      using USER_MESSAGE by (simp add: read_body_def Let_def get str_field_def obj_field_def jm_get_def [of "_ # _"])
  qed (simp_all add: read_body_def Let_def get str_field_def obj_field_def read_users_def jm_get_def [of "_ # _"]
      jm_get_def [of "[]"] those_read_user split: option.split prod.split)
qed

lemma kind_listed: "fst (body_fields body) \<in> set dist_types"
  by (cases body) (simp_all add: dist_types_def)

lemma own_fields: "k \<in> set common_fields \<Longrightarrow> jm_get (snd (body_fields body)) k = None"
  by (cases body) (auto simp: common_fields_def jm_get_def split: option.split)

lemma message_get:
  "jm_get (message_obj m) ''type'' = Some (JStr (fst (body_fields (dm_body m))))"
  "jm_get (message_obj m) ''channelName'' = Some (JStr (dm_channel m))"
  "jm_get (message_obj m) ''messageId'' = None" "jm_get (message_obj m) ''timestamp'' = None"
  "k \<notin> set common_fields \<Longrightarrow> jm_get (message_obj m) k = jm_get (snd (body_fields (dm_body m))) k"
proof -
  have none: "map_of (snd (body_fields (dm_body m))) ''messageId'' = None"
    "map_of (snd (body_fields (dm_body m))) ''timestamp'' = None"
    using own_fields [of _ "dm_body m"] by (simp_all add: common_fields_def jm_get_def)
  show "jm_get (message_obj m) ''type'' = Some (JStr (fst (body_fields (dm_body m))))"
    "jm_get (message_obj m) ''channelName'' = Some (JStr (dm_channel m))"
    by (simp_all add: message_obj_def jm_get_def split: prod.split)
  show "jm_get (message_obj m) ''messageId'' = None" "jm_get (message_obj m) ''timestamp'' = None"
    using none by (auto simp: message_obj_def jm_get_def map_add_def split: prod.split option.split)
  show "k \<notin> set common_fields \<Longrightarrow> jm_get (message_obj m) k = jm_get (snd (body_fields (dm_body m))) k"
    by (auto simp: message_obj_def jm_get_def common_fields_def map_add_def split: prod.split option.split)
qed

lemma stamp_get:
  "jm_get (stamp rb endpoint now fresh message) k =
     (if k = ''protocol'' then Some (JStr DISTRIBUTED_PROTOCOL)
      else if k = ''version'' then Some (JNum DISTRIBUTED_VERSION)
      else if k = ''messageId'' then nullish (jm_get message ''messageId'') (Some (JStr fresh))
      else if k = ''timestamp'' then nullish (jm_get message ''timestamp'') (Some (JNum (int now)))
      else if k = ''sourceNodeId'' then Some (JStr (rb_node rb))
      else if k = ''endpointName'' then Some (JStr (normalizeTopicPart endpoint))
      else jm_get message k)"
proof -
  have some: "Some (the (nullish x (Some y))) = nullish x (Some y)" for x y
    by (simp add: nullish_def split: option.split json.split)
  have found: "(case nullish x (Some y) of None \<Rightarrow> z | Some v \<Rightarrow> Some v) = nullish x (Some y)" for x y and z :: "json option"
    by (simp add: nullish_def split: option.split json.split)
  show ?thesis
    unfolding stamp_def
    by (subst obj_merge_get, simp add: jm_ok_def) (simp add: jm_get_def [of "_ # _"] some found)
qed

lemma stamped_valid:
  "isValidMessage (JObj (stamp rb endpoint now fresh (message_obj m))) = Inr True"
  using kind_listed [of "dm_body m"]
  by (simp add: isValidMessage_def stamp_get str_field_def message_get nullish_def)

lemma stamped_read:
  assumes "wire_body (dm_body m)"
  shows "read_message (stamp rb endpoint now fresh (message_obj m)) =
    Some (m\<lparr>dm_endpoint := normalizeTopicPart endpoint, dm_source := Some (rb_node rb)\<rparr>)"
proof -
  let ?fs = "stamp rb endpoint now fresh (message_obj m)"
  have "read_body (fst (body_fields (dm_body m))) ?fs = Some (dm_body m)"
    by (rule read_body_fields [OF _ assms]) (simp add: stamp_get common_fields_def message_get)
  then show ?thesis by (simp add: read_message_def stamp_get str_field_def message_get)
qed

text \<open>
  An announcement of a connected node is one command to Redis, with the key every node of the
  same prefix and namespace listens on for that endpoint and channel. The listener of any other
  node hands its engine the announcement as it was made, with the name of the node that made it
  and the endpoint without leading slashes; the node itself does not hear it.
\<close>

theorem nodes_hear:
  assumes "rb_connected a" "rb_prefix b = rb_prefix a" "rb_namespace b = rb_namespace a" "rb_node b \<noteq> rb_node a"
    and "wire_body (dm_body m)"
    and "json_parse (json_stringify (JObj (stamp a endpoint now fresh (message_obj m))))
      = Inr (JObj (stamp a endpoint now fresh (message_obj m)))"
  shows "\<exists>text fs. rb_broadcast endpoint channel (message_obj m) now fresh a
        = Inr (rb_emit [Redis_Publish (buildKey endpoint channel b) text] a)
    \<and> rb_listener json_parse b text = Some fs
    \<and> read_message fs = Some (m\<lparr>dm_endpoint := normalizeTopicPart endpoint, dm_source := Some (rb_node a)\<rparr>)
    \<and> rb_listener json_parse a text = None"
proof -
  let ?fs = "stamp a endpoint now fresh (message_obj m)"
  have key: "buildKey endpoint channel a = buildKey endpoint channel b"
    using assms(2,3) by (simp add: buildKey_def Let_def)
  have "rb_listener json_parse b (json_stringify (JObj ?fs)) = Some ?fs"
    "rb_listener json_parse a (json_stringify (JObj ?fs)) = None"
    using assms(4,6) by (simp_all add: rb_listener_def res_bind_def stamped_valid stamp_get)
  then show ?thesis
    using assms(1) stamped_read [OF assms(5)] by (auto simp: rb_broadcast_def key)
qed

text \<open>Two nodes of a cluster, a departure announced by the first.\<close>

definition demo_node :: "string \<Rightarrow> redis_backend" where
  "demo_node name = (new_redis_backend None None None None False name)\<lparr>rb_connected := True\<rparr>"

theorem nodes_hear_witness:
  "\<exists>text fs. rb_broadcast ''/api'' ''room'' (message_obj \<lparr>dm_endpoint = ''/api'', dm_channel = ''room'',
        dm_source = None, dm_body = USER_LEFT ''u''\<rparr>) 5 ''m'' (demo_node ''A'')
      = Inr (rb_emit [Redis_Publish ''pondsocket:v1:default:api:room'' text] (demo_node ''A''))
    \<and> read_message fs = Some \<lparr>dm_endpoint = ''api'', dm_channel = ''room'', dm_source = Some ''A'', dm_body = USER_LEFT ''u''\<rparr>"
proof -
  let ?m = "\<lparr>dm_endpoint = ''/api'', dm_channel = ''room'', dm_source = None, dm_body = USER_LEFT ''u''\<rparr>"
  let ?parse = "\<lambda>s. Inr (JObj (stamp (demo_node ''A'') ''/api'' 5 ''m'' (message_obj ?m)))"
  have "buildKey ''/api'' ''room'' (demo_node ''B'') = ''pondsocket:v1:default:api:room''"
    by (simp add: buildKey_def demo_node_def new_redis_backend_def normalizeTopicPart_def HEARTBEAT_def)
  moreover have "normalizeTopicPart ''/api'' = ''api''" by (simp add: normalizeTopicPart_def)
  moreover have "rb_connected (demo_node ''A'')" "rb_prefix (demo_node ''B'') = rb_prefix (demo_node ''A'')"
    "rb_namespace (demo_node ''B'') = rb_namespace (demo_node ''A'')" "rb_node (demo_node ''B'') \<noteq> rb_node (demo_node ''A'')"
    "rb_node (demo_node ''A'') = ''A''"
    by (simp_all add: demo_node_def new_redis_backend_def)
  moreover have "wire_body (dm_body ?m)" by (simp add: wire_body_def)
  ultimately show ?thesis
    using nodes_hear [of "demo_node ''A''" "demo_node ''B''" ?m ?parse "''/api''" 5 "''m''" "''room''"]
    by (simp only: refl simp_thms dist_message.update_convs dist_message.select_convs) blast
qed

subsection \<open>Topics\<close>

lemma append_colon_eq:
  assumes "CHR '':'' \<notin> set xs" "CHR '':'' \<notin> set ys"
  shows "xs @ CHR '':'' # us = ys @ CHR '':'' # vs \<longleftrightarrow> xs = ys \<and> us = vs"
  using assms
proof (induction xs arbitrary: ys)
  case Nil
  then show ?case by (cases ys) auto
next
  case (Cons x xs)
  then show ?case by (cases ys) auto
qed

text \<open>
  On one node, two channels share a topic exactly when their names are the same and their
  endpoints are, up to leading slashes, provided no endpoint contains a colon; none shares the
  topic of the heartbeats. With colons two different channels may share one.
\<close>

theorem topics_separate:
  assumes "CHR '':'' \<notin> set (normalizeTopicPart e1)" "CHR '':'' \<notin> set (normalizeTopicPart e2)"
    and "\<not> (e1 = HEARTBEAT \<and> c1 = HEARTBEAT)" "\<not> (e2 = HEARTBEAT \<and> c2 = HEARTBEAT)"
  shows "(buildKey e1 c1 rb = buildKey e2 c2 rb \<longleftrightarrow> normalizeTopicPart e1 = normalizeTopicPart e2 \<and> c1 = c2)
    \<and> buildKey e1 c1 rb \<noteq> buildKey HEARTBEAT HEARTBEAT rb
    \<and> buildKey ''a:b'' ''c'' rb = buildKey ''a'' ''b:c'' rb"
proof -
  have key: "buildKey e c rb = rb_prefix rb @ '':v1:'' @ rb_namespace rb @ '':'' @ normalizeTopicPart e @ CHR '':'' # c"
    if "\<not> (e = HEARTBEAT \<and> c = HEARTBEAT)" for e c
    using that by (simp add: buildKey_def Let_def)
  have "CHR '':'' \<in> set (normalizeTopicPart e1 @ CHR '':'' # c1)" "CHR '':'' \<notin> set HEARTBEAT"
    by (simp_all add: HEARTBEAT_def)
  then have "normalizeTopicPart e1 @ CHR '':'' # c1 \<noteq> HEARTBEAT" by metis
  moreover have "buildKey HEARTBEAT HEARTBEAT rb = rb_prefix rb @ '':v1:'' @ rb_namespace rb @ '':'' @ HEARTBEAT"
    by (simp add: buildKey_def Let_def)
  moreover have "buildKey ''a:b'' ''c'' rb = buildKey ''a'' ''b:c'' rb"
    by (simp add: buildKey_def HEARTBEAT_def normalizeTopicPart_def Let_def)
  ultimately show ?thesis
    using append_colon_eq [OF assms(1,2)] by (simp add: key [OF assms(3)] key [OF assms(4)])
qed

theorem topics_separate_witness:
  "buildKey ''/api'' ''a:b'' (demo_node ''A'') \<noteq> buildKey ''/api/a'' ''b'' (demo_node ''A'')"
  using topics_separate [of "''/api''" "''/api/a''" "''a:b''" "''b''" "demo_node ''A''"]
  by (simp add: normalizeTopicPart_def HEARTBEAT_def)

end
