(* ===== verification/Channel_Engine.thy ===== *)
theory Channel_Engine
  imports Channel_Types
begin

text \<open>
  \<open>ChannelEngine\<close> (\<open>core/src/engines/channelEngine.ts\<close>), method by method, in the order of the
  file. A method takes the engine and returns it with the exception it threw, if any: what it
  did before the exception stays done. \<open>broadcastMessage\<close> runs the handlers of the lobby and
  is in the lobby's theory.
\<close>

subsection \<open>Recipients\<close>

definition getUsersFromRecipients :: "receivers \<Rightarrow> string \<Rightarrow> chan \<Rightarrow> string list res" where
  "getUsersFromRecipients recipients sender c =
     (let allUsers = ch_users c in
      case recipients of
        ALL_USERS \<Rightarrow> Inr allUsers
      | ALL_EXCEPT_SENDER \<Rightarrow>
          if sender = SYSTEM_CHANNEL then
            Inl (Http_Error 400 (''ChannelEngine: Invalid sender '' @ sender @ '' for recipients ALL_EXCEPT_SENDER''))
          else Inr (filter (\<lambda>user. user \<noteq> sender) allUsers)
      | Users us \<Rightarrow>
          if \<exists>user \<in> set us. user \<notin> set allUsers then
            Inl (Http_Error 400 (''ChannelEngine: Invalid user ids in recipients '' @ js_join '','' us))
          else Inr us
      | Other_Receiver s \<Rightarrow>
          Inl (Http_Error 400 (''ChannelEngine: Invalid recipients '' @ s @
            '' must be an array of user ids or ALL_USERS'')))"

subsection \<open>Joining and messages\<close>

definition buildSubscriber :: "string \<Rightarrow> nat \<Rightarrow> chan \<Rightarrow> outcome" where
  "buildSubscriber userId onMessage c =
     (let ob = Observer (ch_next_id c) userId onMessage in
      case sj_subscribe ob (ch_publisher c) of
        Inl e \<Rightarrow> (c, Some e)
      | Inr p \<Rightarrow> (c\<lparr>ch_publisher := p, ch_next_id := Suc (ch_next_id c),
                     ch_subs := jm_set userId ob (ch_subs c)\<rparr>, None))"

text \<open>
  \<open>afterDistributedReady\<close> and the callback it is used with: without a backend the callback
  runs at once (and broadcasts nothing), otherwise it waits for the promise.
\<close>

definition requestChannelState :: "chan \<Rightarrow> chan" where
  "requestChannelState c = broadcastToNodes (STATE_REQUEST (ch_node c)) c"

definition afterDistributedReady :: "chan \<Rightarrow> chan" where
  "afterDistributedReady c =
     (if ch_backend c = None then requestChannelState c else c\<lparr>ch_waiting := Suc (ch_waiting c)\<rparr>)"

definition ack_event :: "string \<Rightarrow> chan \<Rightarrow> channel_event" where
  "ack_event requestId c =
     \<lparr>ce_action = A_SYSTEM, ce_event = EV_ACKNOWLEDGE, ce_channel = ch_name c, ce_request = requestId,
      ce_payload = []\<rparr>"

definition addUser :: "string \<Rightarrow> obj \<Rightarrow> nat \<Rightarrow> string \<Rightarrow> chan \<Rightarrow> outcome" where
  "addUser userId assigns onMessage requestId c =
     (if has_user userId c then
        (c, Some (Http_Error 400 (''ChannelEngine: User with id '' @ userId @
          '' already exists in channel '' @ ch_name c)))
      else
        (let isFirstUser = (ch_users c = []);
             c1 = emit [Send onMessage (ack_event requestId c)] c;
             c2 = c1\<lparr>ch_assigns := jm_set userId assigns (ch_assigns c1)\<rparr> in
         and_then (buildSubscriber userId onMessage c2) (\<lambda>c3.
           (let c4 = (if isFirstUser \<and> ch_backend c3 \<noteq> None then afterDistributedReady c3 else c3)
            in (broadcastToNodes (USER_JOINED userId [] assigns) c4, None)))))"

definition user_event :: "server_action \<Rightarrow> string \<Rightarrow> obj \<Rightarrow> string \<Rightarrow> string list \<Rightarrow> chan \<Rightarrow> internal_event" where
  "user_event action event payload requestId recipients c =
     \<lparr>ce_action = action, ce_event = event, ce_channel = ch_name c, ce_request = requestId,
      ce_payload = payload, ie_recipients = recipients\<rparr>"

definition sendMessage ::
    "string \<Rightarrow> receivers \<Rightarrow> server_action \<Rightarrow> string \<Rightarrow> obj \<Rightarrow> string \<Rightarrow> chan \<Rightarrow> outcome" where
  "sendMessage sender recipient action event payload requestId c =
     (if \<not> has_user sender c \<and> sender \<noteq> SYSTEM_CHANNEL then
        (c, Some (Http_Error 404 (''ChannelEngine: User with id '' @ sender @
          '' does not exist in channel '' @ ch_name c)))
      else
        (case getUsersFromRecipients recipient sender c of
           Inl e \<Rightarrow> (c, Some e)
         | Inr recipients \<Rightarrow>
             (broadcastToNodes (USER_MESSAGE sender event payload requestId recipient)
                (publish (user_event action event payload requestId recipients c) c), None)))"

text \<open>The default \<open>requestId = uuid()\<close> is drawn before the body runs.\<close>

definition sendMessage_uuid ::
    "string \<Rightarrow> receivers \<Rightarrow> server_action \<Rightarrow> string \<Rightarrow> obj \<Rightarrow> chan \<Rightarrow> outcome" where
  "sendMessage_uuid sender recipient action event payload c =
     (case draw c of (rid, c') \<Rightarrow> sendMessage sender recipient action event payload rid c')"

subsection \<open>Presence\<close>

definition getOrCreatePresenceEngine :: "chan \<Rightarrow> presence_engine" where
  "getOrCreatePresenceEngine c =
     (case ch_presence c of Some pe \<Rightarrow> pe | None \<Rightarrow> new_presence_engine (ch_name c))"

text \<open>
  A presence operation on an engine: its exception, or the new engine and its event, which
  the engine's callback publishes. A uuid is drawn only for an event.
\<close>

definition run_presence ::
    "(string \<Rightarrow> presence_engine \<Rightarrow> (presence_engine \<times> internal_event) res) \<Rightarrow> presence_engine \<Rightarrow>
     chan \<Rightarrow> outcome" where
  "run_presence op pe c =
     (case draw c of (rid, c') \<Rightarrow>
        case op rid pe of
          Inl e \<Rightarrow> (c\<lparr>ch_presence := Some pe\<rparr>, Some e)
        | Inr (pe', ev) \<Rightarrow> (publish ev (c'\<lparr>ch_presence := Some pe'\<rparr>), None))"

definition trackPresence :: "string \<Rightarrow> obj \<Rightarrow> chan \<Rightarrow> outcome" where
  "trackPresence userId presence c =
     and_then (run_presence (pe_track userId presence) (getOrCreatePresenceEngine c) c)
       (\<lambda>c. (broadcastToNodes (PRESENCE_UPDATE userId presence) c, None))"

definition updatePresence :: "string \<Rightarrow> obj \<Rightarrow> chan \<Rightarrow> outcome" where
  "updatePresence userId presence c =
     and_then (run_presence (pe_update userId presence) (getOrCreatePresenceEngine c) c)
       (\<lambda>c. (broadcastToNodes (PRESENCE_UPDATE userId presence) c, None))"

definition removePresence :: "string \<Rightarrow> chan \<Rightarrow> outcome" where
  "removePresence userId c =
     (case ch_presence c of
        None \<Rightarrow> (c, None)
      | Some pe \<Rightarrow> and_then (run_presence (pe_remove userId) pe c)
          (\<lambda>c. (broadcastToNodes (PRESENCE_REMOVED userId) c, None)))"

definition upsertPresence :: "string \<Rightarrow> obj \<Rightarrow> chan \<Rightarrow> outcome" where
  "upsertPresence userId presence c =
     and_then (run_presence (pe_upsert userId presence) (getOrCreatePresenceEngine c) c)
       (\<lambda>c. (broadcastToNodes (PRESENCE_UPDATE userId presence) c, None))"

definition safeRemovePresence :: "string \<Rightarrow> chan \<Rightarrow> chan" where
  "safeRemovePresence userId c =
     (case ch_presence c of None \<Rightarrow> c | Some pe \<Rightarrow> fst (run_presence (pe_remove userId) pe c))"

subsection \<open>Assigns\<close>

definition updateAssigns :: "string \<Rightarrow> obj \<Rightarrow> chan \<Rightarrow> outcome" where
  "updateAssigns userId assigns c =
     (case jm_get (ch_assigns c) userId of
        None \<Rightarrow> (c, Some (Http_Error 404 (''User with id '' @ userId @
          '' does not exist in channel '' @ ch_name c)))
      | Some currentAssigns \<Rightarrow>
          (let newAssigns = obj_merge currentAssigns assigns in
           (broadcastToNodes (ASSIGNS_UPDATE userId (Some newAssigns) None)
              (c\<lparr>ch_assigns := jm_set userId newAssigns (ch_assigns c)\<rparr>), None)))"

definition getAssigns :: "chan \<Rightarrow> obj jmap" where
  "getAssigns c = ch_assigns c"

definition getPresence :: "chan \<Rightarrow> obj jmap" where
  "getPresence c = (case ch_presence c of None \<Rightarrow> [] | Some pe \<Rightarrow> pe_getAllPresence pe)"

definition presence_of :: "chan \<Rightarrow> string \<Rightarrow> obj option" where
  "presence_of c u = (case ch_presence c of None \<Rightarrow> None | Some pe \<Rightarrow> pe_getPresence pe u)"

definition getUserData :: "string \<Rightarrow> chan \<Rightarrow> user_data res" where
  "getUserData userId c =
     (let assigns = jm_get (ch_assigns c) userId; presence = presence_of c userId in
      if assigns = None \<and> presence = None then
        Inl (Http_Error 404 (''User with id '' @ userId @ '' does not exist in the channel '' @ ch_name c))
      else Inr \<lparr>ud_id = userId, ud_assigns = case_option [] id assigns,
                ud_presence = case_option [] id presence\<rparr>)"

subsection \<open>Leaving and closing\<close>

definition unsubscribe_observer :: "observer \<Rightarrow> chan \<Rightarrow> chan" where
  "unsubscribe_observer ob c = c\<lparr>ch_publisher := sj_unsubscribe ob (ch_publisher c)\<rparr>"

definition close :: "chan \<Rightarrow> chan" where
  "close c =
     (let c1 = fold unsubscribe_observer (jm_values (ch_subs c)) (c\<lparr>ch_closed := True\<rparr>);
          effects = (if ch_dist_sub c then [Unsubscribe_Backend] else [])
            @ (if ch_heartbeat_sub c then [Unsubscribe_Heartbeats] else [])
            @ (if ch_stale_timer c then [Clear_Stale_Timer] else [])
            @ map Clear_Timeout (ch_pending c)
      in emit (effects @ [Delete_Channel (ch_name c)])
        (c1\<lparr>ch_subs := [], ch_assigns := [], ch_presence := None, ch_dist_sub := False,
            ch_heartbeat_sub := False, ch_stale_timer := False, ch_pending := [],
            ch_last_seen := [], ch_node_users := [], ch_publisher := sj_close (ch_publisher c1)\<rparr>))"

text \<open>\<open>unsubscribe(); userSubscriptions.delete(userId)\<close>, when the user has a subscription.\<close>

definition drop_subscription :: "string \<Rightarrow> chan \<Rightarrow> chan" where
  "drop_subscription userId c =
     (case jm_get (ch_subs c) userId of
        None \<Rightarrow> c
      | Some ob \<Rightarrow> (unsubscribe_observer ob c)\<lparr>ch_subs := jm_delete userId (ch_subs c)\<rparr>)"

definition removeUser :: "string \<Rightarrow> bool \<Rightarrow> chan \<Rightarrow> chan" where
  "removeUser userId skipDistributedBroadcast c =
     (case getUserData userId c of
        Inl _ \<Rightarrow> c
      | Inr userData \<Rightarrow>
          (let c1 = c\<lparr>ch_assigns := jm_delete userId (ch_assigns c)\<rparr>;
               c2 = drop_subscription userId (safeRemovePresence userId c1);
               c3 = (if skipDistributedBroadcast then c2 else broadcastToNodes (USER_LEFT userId) c2);
               c4 = (if ch_users c3 = [] then close c3 else c3)
           in if ch_leave c4 then emit [Call_Leave userData] c4 else c4))"

definition kickUser :: "string \<Rightarrow> string \<Rightarrow> chan \<Rightarrow> outcome" where
  "kickUser userId reason c =
     and_then (sendMessage_uuid SYSTEM_CHANNEL (Users [userId]) A_SYSTEM ''kicked_out''
         [(''message'', JStr reason), (''code'', JNum 403)] c) (\<lambda>c1.
     and_then (sendMessage_uuid SYSTEM_CHANNEL ALL_USERS A_SYSTEM ''kicked''
         [(''userId'', JStr userId), (''reason'', JStr reason)] c1) (\<lambda>c2.
       (removeUser userId True (broadcastToNodes (EVICT_USER userId reason) c2), None)))"

definition requestUserRemoval :: "string \<Rightarrow> chan \<Rightarrow> chan" where
  "requestUserRemoval userId c = broadcastToNodes (USER_REMOVE userId) c"

definition destroy :: "string option \<Rightarrow> chan \<Rightarrow> outcome" where
  "destroy reason c =
     and_then (sendMessage_uuid SYSTEM_CHANNEL ALL_USERS A_ERROR ''destroyed''
         [(''message'', JStr (case_option ''Channel has been destroyed'' id reason))] c)
       (\<lambda>c1. (close c1, None))"

subsection \<open>Users of other nodes\<close>

text \<open>
  \<open>getUserAcrossNodes\<close>: without a backend the promise is resolved with null at once (under no
  request id); otherwise a request is pending until a response or the timeout.
\<close>

definition getUserAcrossNodes :: "string \<Rightarrow> chan \<Rightarrow> chan" where
  "getUserAcrossNodes userId c =
     (if ch_backend c = None then emit [Resolve [] None] c
      else (case draw c of (requestId, c1) \<Rightarrow>
        broadcastToNodes (USER_GET_REQUEST userId requestId (ch_node c1))
          (c1\<lparr>ch_pending := js_add requestId (ch_pending c1)\<rparr>)))"

definition user_get_timeout :: "string \<Rightarrow> chan \<Rightarrow> chan" where
  "user_get_timeout requestId c =
     emit [Resolve requestId None] (c\<lparr>ch_pending := js_remove requestId (ch_pending c)\<rparr>)"

subsection \<open>The subscription to the backend\<close>

text \<open>
  \<open>setupDistributedSubscription\<close> after its \<open>await\<close>: the subscription failed (the exception is
  swallowed by the constructor) or is there, and is given back at once if the channel closed
  in the meantime. Either way the promise is settled then, and each waiting callback runs later.
\<close>

definition distributed_ready :: "bool \<Rightarrow> chan \<Rightarrow> chan" where
  "distributed_ready subscribed c =
     (let c1 = c\<lparr>ch_settled := True\<rparr> in
      if \<not> subscribed then c1
      else if ch_closed c then emit [Unsubscribe_Backend] c1
      else c1\<lparr>ch_dist_sub := True\<rparr>)"

definition run_waiting :: "chan \<Rightarrow> chan" where
  "run_waiting c =
     (if ch_settled c \<and> 0 < ch_waiting c then
        (let c1 = c\<lparr>ch_waiting := ch_waiting c - 1\<rparr> in
         if ch_closed c1 then c1 else requestChannelState c1)
      else c)"

subsection \<open>Users per node\<close>

definition trackNodeUser :: "string option \<Rightarrow> string \<Rightarrow> nat \<Rightarrow> chan \<Rightarrow> chan" where
  "trackNodeUser source userId now c =
     (case source of
        None \<Rightarrow> c
      | Some node \<Rightarrow>
          if node = [] then c
          else (let users = (case jm_get (ch_node_users c) node of Some us \<Rightarrow> us | None \<Rightarrow> []);
                    c1 = c\<lparr>ch_node_users := jm_set node (js_add userId users) (ch_node_users c)\<rparr>
                in if jm_has (ch_last_seen c1) node then c1
                   else c1\<lparr>ch_last_seen := jm_set node now (ch_last_seen c1)\<rparr>))"

definition untrackNodeUser :: "string option \<Rightarrow> string \<Rightarrow> chan \<Rightarrow> chan" where
  "untrackNodeUser source userId c =
     (case source of
        None \<Rightarrow> c
      | Some node \<Rightarrow>
          if node = [] then c
          else (case jm_get (ch_node_users c) node of
                  None \<Rightarrow> c
                | Some users \<Rightarrow>
                    (let users' = js_remove userId users in
                     c\<lparr>ch_node_users := (if users' = [] then jm_delete node (ch_node_users c)
                                         else jm_set node users' (ch_node_users c))\<rparr>)))"

definition heartbeat :: "string \<Rightarrow> nat \<Rightarrow> chan \<Rightarrow> chan" where
  "heartbeat node now c = c\<lparr>ch_last_seen := jm_set node now (ch_last_seen c)\<rparr>"

definition forget_user :: "string \<Rightarrow> chan \<Rightarrow> chan" where
  "forget_user userId c =
     safeRemovePresence userId (c\<lparr>ch_assigns := jm_delete userId (ch_assigns c)\<rparr>)"

text \<open>
  One round of the loop over \<open>nodeLastSeen\<close>. The loop only deletes the entry it is at, so it
  visits the entries the map had when it began. (\<open>now - lastSeen >= timeout\<close> compares
  numbers; \<open>lastSeen + timeout \<le> now\<close> is that comparison without a negative difference.)
\<close>

definition cleanup_node :: "nat \<Rightarrow> nat \<Rightarrow> string \<times> nat \<Rightarrow> chan \<Rightarrow> chan" where
  "cleanup_node now timeout entry c =
     (case entry of (nodeId, lastSeen) \<Rightarrow>
        if lastSeen + timeout \<le> now then
          (let c1 = (case jm_get (ch_node_users c) nodeId of
                       None \<Rightarrow> c
                     | Some users \<Rightarrow> (let c0 = fold forget_user users c in
                         c0\<lparr>ch_node_users := jm_delete nodeId (ch_node_users c0)\<rparr>))
           in c1\<lparr>ch_last_seen := jm_delete nodeId (ch_last_seen c1)\<rparr>)
        else c)"

definition cleanupStaleNodes :: "nat \<Rightarrow> chan \<Rightarrow> chan" where
  "cleanupStaleNodes now c =
     (case ch_backend c of
        None \<Rightarrow> c
      | Some timeout \<Rightarrow> fold (cleanup_node now timeout) (ch_last_seen c) c)"

subsection \<open>Messages from other nodes\<close>

definition handleStateRequest :: "chan \<Rightarrow> chan" where
  "handleStateRequest c =
     (if ch_users c = [] then c
      else broadcastToNodes (STATE_RESPONSE
        (map (\<lambda>(u, assigns). (u, case_option [] id (presence_of c u), assigns)) (ch_assigns c))) c)"

definition state_response_user :: "string option \<Rightarrow> nat \<Rightarrow> string \<times> obj \<times> obj \<Rightarrow> chan \<Rightarrow> chan" where
  "state_response_user source now user c =
     (case user of (u, presence, assigns) \<Rightarrow>
        if has_user u c then c
        else (let c1 = trackNodeUser source u now (c\<lparr>ch_assigns := jm_set u assigns (ch_assigns c)\<rparr>)
              in if presence = [] then c1
                 else fst (run_presence (pe_upsert u presence) (getOrCreatePresenceEngine c1) c1)))"

definition handleStateResponse ::
    "string option \<Rightarrow> nat \<Rightarrow> (string \<times> obj \<times> obj) list \<Rightarrow> chan \<Rightarrow> chan" where
  "handleStateResponse source now users c = fold (state_response_user source now) users c"

definition handleRemoteUserJoined ::
    "string option \<Rightarrow> nat \<Rightarrow> string \<Rightarrow> obj \<Rightarrow> obj \<Rightarrow> chan \<Rightarrow> outcome" where
  "handleRemoteUserJoined source now userId presence assigns c =
     (if has_user userId c then (c, None)
      else (let c1 = trackNodeUser source userId now
                       (c\<lparr>ch_assigns := jm_set userId assigns (ch_assigns c)\<rparr>)
            in if presence = [] then (c1, None)
               else run_presence (pe_track userId presence) (getOrCreatePresenceEngine c1) c1))"

definition handleRemoteUserLeft :: "string option \<Rightarrow> string \<Rightarrow> chan \<Rightarrow> chan" where
  "handleRemoteUserLeft source userId c =
     safeRemovePresence userId
       (untrackNodeUser source userId (c\<lparr>ch_assigns := jm_delete userId (ch_assigns c)\<rparr>))"

definition remote_recipients :: "receivers \<Rightarrow> string \<Rightarrow> chan \<Rightarrow> string list" where
  "remote_recipients descriptor sender c =
     (case descriptor of
        ALL_USERS \<Rightarrow> ch_users c
      | ALL_EXCEPT_SENDER \<Rightarrow> filter (\<lambda>u. u \<noteq> sender) (ch_users c)
      | Users us \<Rightarrow> filter (\<lambda>u. u \<in> set us) (ch_users c)
      | Other_Receiver _ \<Rightarrow> [])"

definition handleRemoteMessage :: "string \<Rightarrow> string \<Rightarrow> obj \<Rightarrow> string \<Rightarrow> receivers \<Rightarrow> chan \<Rightarrow> chan" where
  "handleRemoteMessage sender event payload requestId descriptor c =
     (let recipients = remote_recipients descriptor sender c in
      if recipients = [] then c
      else publish (user_event A_BROADCAST event payload requestId recipients c) c)"

definition handleRemotePresenceUpdate :: "string \<Rightarrow> obj \<Rightarrow> chan \<Rightarrow> outcome" where
  "handleRemotePresenceUpdate userId presence c =
     run_presence (pe_upsert userId presence) (getOrCreatePresenceEngine c) c"

definition handleRemoteAssignsUpdate ::
    "string \<Rightarrow> obj option \<Rightarrow> (string \<times> json) option \<Rightarrow> chan \<Rightarrow> chan" where
  "handleRemoteAssignsUpdate userId assigns entry c =
     (case jm_get (ch_assigns c) userId of
        None \<Rightarrow> c
      | Some current \<Rightarrow>
          (case assigns of
             Some a \<Rightarrow> c\<lparr>ch_assigns := jm_set userId a (ch_assigns c)\<rparr>
           | None \<Rightarrow>
               (case entry of
                  Some (key, value) \<Rightarrow>
                    if key = [] then c
                    else c\<lparr>ch_assigns := jm_set userId (jm_set key value current) (ch_assigns c)\<rparr>
                | None \<Rightarrow> c)))"

definition handleRemoteEvictUser :: "string \<Rightarrow> string \<Rightarrow> chan \<Rightarrow> chan" where
  "handleRemoteEvictUser userId reason c =
     (let c1 = (if jm_has (ch_subs c) userId
                then (case draw c of (rid, c') \<Rightarrow>
                  publish (user_event A_SYSTEM ''kicked_out''
                    [(''message'', JStr reason), (''code'', JNum 403)] rid [userId] c') c')
                else c);
          c2 = safeRemovePresence userId (c1\<lparr>ch_assigns := jm_delete userId (ch_assigns c1)\<rparr>)
      in drop_subscription userId c2)"

definition handleRemoteUserRemove :: "string option \<Rightarrow> string \<Rightarrow> chan \<Rightarrow> chan" where
  "handleRemoteUserRemove source userId c =
     (if jm_has (ch_subs c) userId then removeUser userId False c
      else untrackNodeUser source userId
        (safeRemovePresence userId (c\<lparr>ch_assigns := jm_delete userId (ch_assigns c)\<rparr>)))"

definition handleRemoteUserGetRequest :: "string \<Rightarrow> string \<Rightarrow> chan \<Rightarrow> chan" where
  "handleRemoteUserGetRequest userId requestId c =
     (if \<not> jm_has (ch_subs c) userId then c
      else broadcastToNodes (USER_GET_RESPONSE userId requestId
        (case_option [] id (jm_get (ch_assigns c) userId)) (case_option [] id (presence_of c userId))) c)"

definition handleRemoteUserGetResponse :: "string \<Rightarrow> string \<Rightarrow> obj \<Rightarrow> obj \<Rightarrow> chan \<Rightarrow> chan" where
  "handleRemoteUserGetResponse userId requestId assigns presence c =
     (if requestId \<notin> set (ch_pending c) then c
      else emit [Clear_Timeout requestId, Resolve requestId (Some \<lparr>ud_id = userId, ud_assigns = assigns,
                   ud_presence = presence\<rparr>)]
        (c\<lparr>ch_pending := js_remove requestId (ch_pending c)\<rparr>))"

definition handleDistributedMessage :: "nat \<Rightarrow> dist_message \<Rightarrow> chan \<Rightarrow> outcome" where
  "handleDistributedMessage now m c =
     (case dm_body m of
        STATE_REQUEST _ \<Rightarrow> (handleStateRequest c, None)
      | STATE_RESPONSE users \<Rightarrow> (handleStateResponse (dm_source m) now users c, None)
      | USER_JOINED u presence assigns \<Rightarrow> handleRemoteUserJoined (dm_source m) now u presence assigns c
      | USER_LEFT u \<Rightarrow> (handleRemoteUserLeft (dm_source m) u c, None)
      | USER_MESSAGE sender event payload rid descriptor \<Rightarrow>
          (handleRemoteMessage sender event payload rid descriptor c, None)
      | PRESENCE_UPDATE u presence \<Rightarrow> handleRemotePresenceUpdate u presence c
      | PRESENCE_REMOVED u \<Rightarrow> (safeRemovePresence u c, None)
      | ASSIGNS_UPDATE u assigns entry \<Rightarrow> (handleRemoteAssignsUpdate u assigns entry c, None)
      | EVICT_USER u reason \<Rightarrow> (handleRemoteEvictUser u reason c, None)
      | USER_REMOVE u \<Rightarrow> (handleRemoteUserRemove (dm_source m) u c, None)
      | USER_GET_REQUEST u rid _ \<Rightarrow> (handleRemoteUserGetRequest u rid c, None)
      | USER_GET_RESPONSE u rid assigns presence \<Rightarrow>
          (handleRemoteUserGetResponse u rid assigns presence c, None)
      | NODE_HEARTBEAT _ \<Rightarrow> (c, None))"

end
