(* ===== verification/Channel_Inv.thy ===== *)
theory Channel_Inv
  imports Channel_Engine
begin

text \<open>
  The invariant of a channel engine and that every operation keeps it. The frame lemmas say
  which fields a helper leaves alone; the invariant says in particular that the publisher has
  exactly one observer per locally subscribed user, that a subscribed user is a user of the
  channel, and that the users tracked per remote node are not subscribed here.
\<close>

subsection \<open>Frames\<close>

lemma publish_frame [simp, frame_simps]:
  "ch_name (publish ev c) = ch_name c" "ch_endpoint (publish ev c) = ch_endpoint c"
  "ch_node (publish ev c) = ch_node c" "ch_backend (publish ev c) = ch_backend c"
  "ch_leave (publish ev c) = ch_leave c" "ch_presence (publish ev c) = ch_presence c"
  "ch_assigns (publish ev c) = ch_assigns c" "ch_subs (publish ev c) = ch_subs c"
  "ch_publisher (publish ev c) = ch_publisher c" "ch_next_id (publish ev c) = ch_next_id c"
  "ch_dist_sub (publish ev c) = ch_dist_sub c" "ch_heartbeat_sub (publish ev c) = ch_heartbeat_sub c"
  "ch_stale_timer (publish ev c) = ch_stale_timer c" "ch_last_seen (publish ev c) = ch_last_seen c"
  "ch_node_users (publish ev c) = ch_node_users c" "ch_pending (publish ev c) = ch_pending c"
  "ch_closed (publish ev c) = ch_closed c" "ch_settled (publish ev c) = ch_settled c"
  "ch_waiting (publish ev c) = ch_waiting c" "ch_drawn (publish ev c) = ch_drawn c"
  by (simp_all add: publish_emit)

lemma broadcast_frame [simp, frame_simps]:
  "ch_name (broadcastToNodes b c) = ch_name c" "ch_endpoint (broadcastToNodes b c) = ch_endpoint c"
  "ch_node (broadcastToNodes b c) = ch_node c" "ch_backend (broadcastToNodes b c) = ch_backend c"
  "ch_leave (broadcastToNodes b c) = ch_leave c" "ch_presence (broadcastToNodes b c) = ch_presence c"
  "ch_assigns (broadcastToNodes b c) = ch_assigns c" "ch_subs (broadcastToNodes b c) = ch_subs c"
  "ch_publisher (broadcastToNodes b c) = ch_publisher c" "ch_next_id (broadcastToNodes b c) = ch_next_id c"
  "ch_dist_sub (broadcastToNodes b c) = ch_dist_sub c"
  "ch_heartbeat_sub (broadcastToNodes b c) = ch_heartbeat_sub c"
  "ch_stale_timer (broadcastToNodes b c) = ch_stale_timer c"
  "ch_last_seen (broadcastToNodes b c) = ch_last_seen c"
  "ch_node_users (broadcastToNodes b c) = ch_node_users c" "ch_pending (broadcastToNodes b c) = ch_pending c"
  "ch_closed (broadcastToNodes b c) = ch_closed c" "ch_settled (broadcastToNodes b c) = ch_settled c"
  "ch_waiting (broadcastToNodes b c) = ch_waiting c" "ch_drawn (broadcastToNodes b c) = ch_drawn c"
  by (simp_all add: broadcast_emit)

lemma run_presence_frame [simp, frame_simps]:
  "ch_name (fst (run_presence op pe c)) = ch_name c"
  "ch_endpoint (fst (run_presence op pe c)) = ch_endpoint c"
  "ch_node (fst (run_presence op pe c)) = ch_node c"
  "ch_backend (fst (run_presence op pe c)) = ch_backend c"
  "ch_leave (fst (run_presence op pe c)) = ch_leave c"
  "ch_assigns (fst (run_presence op pe c)) = ch_assigns c"
  "ch_subs (fst (run_presence op pe c)) = ch_subs c"
  "ch_publisher (fst (run_presence op pe c)) = ch_publisher c"
  "ch_next_id (fst (run_presence op pe c)) = ch_next_id c"
  "ch_dist_sub (fst (run_presence op pe c)) = ch_dist_sub c"
  "ch_heartbeat_sub (fst (run_presence op pe c)) = ch_heartbeat_sub c"
  "ch_stale_timer (fst (run_presence op pe c)) = ch_stale_timer c"
  "ch_last_seen (fst (run_presence op pe c)) = ch_last_seen c"
  "ch_node_users (fst (run_presence op pe c)) = ch_node_users c"
  "ch_pending (fst (run_presence op pe c)) = ch_pending c"
  "ch_closed (fst (run_presence op pe c)) = ch_closed c"
  "ch_settled (fst (run_presence op pe c)) = ch_settled c"
  "ch_waiting (fst (run_presence op pe c)) = ch_waiting c"
  by (simp_all add: run_presence_def draw_def split: sum.split)

lemma safeRemove_frame [simp, frame_simps]:
  "ch_name (safeRemovePresence u c) = ch_name c" "ch_endpoint (safeRemovePresence u c) = ch_endpoint c"
  "ch_node (safeRemovePresence u c) = ch_node c" "ch_backend (safeRemovePresence u c) = ch_backend c"
  "ch_leave (safeRemovePresence u c) = ch_leave c"
  "ch_assigns (safeRemovePresence u c) = ch_assigns c" "ch_subs (safeRemovePresence u c) = ch_subs c"
  "ch_publisher (safeRemovePresence u c) = ch_publisher c"
  "ch_next_id (safeRemovePresence u c) = ch_next_id c"
  "ch_dist_sub (safeRemovePresence u c) = ch_dist_sub c"
  "ch_heartbeat_sub (safeRemovePresence u c) = ch_heartbeat_sub c"
  "ch_stale_timer (safeRemovePresence u c) = ch_stale_timer c"
  "ch_last_seen (safeRemovePresence u c) = ch_last_seen c"
  "ch_node_users (safeRemovePresence u c) = ch_node_users c"
  "ch_pending (safeRemovePresence u c) = ch_pending c"
  "ch_closed (safeRemovePresence u c) = ch_closed c"
  "ch_settled (safeRemovePresence u c) = ch_settled c"
  "ch_waiting (safeRemovePresence u c) = ch_waiting c"
  by (simp_all add: safeRemovePresence_def split: option.split)

text \<open>What an operation does to the presences, independently of the events it publishes.\<close>

lemma presence_of_frame [simp]:
  "presence_of (emit es c) u = presence_of c u"
  "presence_of (publish ev c) u = presence_of c u"
  "presence_of (broadcastToNodes b c) u = presence_of c u"
  by (simp_all add: presence_of_def)

lemma presence_of_upd [simp]:
  "presence_of (c\<lparr>ch_presence := p\<rparr>) u = (case p of None \<Rightarrow> None | Some pe \<Rightarrow> pe_getPresence pe u)"
  "presence_of (c\<lparr>ch_drawn := n\<rparr>) u = presence_of c u"
  "presence_of (c\<lparr>ch_assigns := a\<rparr>) u = presence_of c u"
  "presence_of (c\<lparr>ch_subs := s\<rparr>) u = presence_of c u"
  "presence_of (c\<lparr>ch_publisher := b\<rparr>) u = presence_of c u"
  "presence_of (c\<lparr>ch_next_id := n\<rparr>) u = presence_of c u"
  "presence_of (c\<lparr>ch_node_users := m\<rparr>) u = presence_of c u"
  "presence_of (c\<lparr>ch_last_seen := l\<rparr>) u = presence_of c u"
  "presence_of (c\<lparr>ch_pending := q\<rparr>) u = presence_of c u"
  by (simp_all add: presence_of_def)

lemma presence_of_getOrCreate: "pe_getPresence (getOrCreatePresenceEngine c) u = presence_of c u"
  by (simp add: presence_of_def getOrCreatePresenceEngine_def new_presence_engine_def
      pe_getPresence_def split: option.split)

lemma presence_of_safeRemove:
  "presence_of (safeRemovePresence u c) = (presence_of c)(u := None)"
proof (cases "ch_presence c")
  case None
  then show ?thesis by (simp add: safeRemovePresence_def presence_of_def fun_eq_iff)
next
  case (Some pe)
  show ?thesis
  proof (cases "pe_remove u (ch_random c (ch_drawn c)) pe")
    case (Inl e)
    with pe.remove_law(1) [of u "ch_random c (ch_drawn c)" pe] have "pe_getPresence pe u = None"
      by (simp add: is_ok_def)
    with Some Inl show ?thesis
      by (auto simp: safeRemovePresence_def run_presence_def draw_def presence_of_def fun_eq_iff)
  next
    case (Inr r)
    obtain pe' ev where r: "r = (pe', ev)" by force
    from pe.remove_law(2) [OF Inr [unfolded r]] Some Inr r show ?thesis
      by (simp add: safeRemovePresence_def run_presence_def draw_def presence_of_def fun_eq_iff)
  qed
qed

lemma presence_of_upsert:
  "presence_of (fst (run_presence (pe_upsert u d) (getOrCreatePresenceEngine c) c)) = (presence_of c)(u \<mapsto> d)"
  "snd (run_presence (pe_upsert u d) (getOrCreatePresenceEngine c) c) = None"
proof -
  obtain pe' ev where up: "pe_upsert u d (ch_random c (ch_drawn c)) (getOrCreatePresenceEngine c) = Inr (pe', ev)"
    and get: "pe_getPresence pe' = (pe_getPresence (getOrCreatePresenceEngine c))(u \<mapsto> d)"
    using pe.upsert_total by blast
  have gp: "pe_getPresence (getOrCreatePresenceEngine c) = presence_of c"
    by (simp add: presence_of_getOrCreate fun_eq_iff)
  from up get show "presence_of (fst (run_presence (pe_upsert u d) (getOrCreatePresenceEngine c) c)) = (presence_of c)(u \<mapsto> d)"
    by (auto simp: run_presence_def draw_def gp fun_eq_iff)
  from up show "snd (run_presence (pe_upsert u d) (getOrCreatePresenceEngine c) c) = None"
    by (simp add: run_presence_def draw_def)
qed

subsection \<open>The invariant\<close>

definition subs_ok :: "chan \<Rightarrow> bool" where
  "subs_ok c \<longleftrightarrow> jm_ok (ch_assigns c) \<and> jm_ok (ch_subs c) \<and> sj_ok (ch_publisher c)
     \<and> (\<forall>u ob. jm_get (ch_subs c) u = Some ob \<longrightarrow> ob_user ob = u)
     \<and> set (sj_observers (ch_publisher c)) = {ob. \<exists>u. jm_get (ch_subs c) u = Some ob}
     \<and> (\<forall>ob \<in> set (sj_observers (ch_publisher c)). ob_id ob < ch_next_id c)
     \<and> (\<forall>u. jm_has (ch_subs c) u \<longrightarrow> has_user u c)"

definition presence_ok :: "chan \<Rightarrow> bool" where
  "presence_ok c \<longleftrightarrow> (\<forall>pe. ch_presence c = Some pe \<longrightarrow> pe_ok pe \<and> pe_channel pe = ch_name c)"

definition nodes_ok :: "chan \<Rightarrow> bool" where
  "nodes_ok c \<longleftrightarrow> jm_ok (ch_node_users c) \<and> jm_ok (ch_last_seen c)
     \<and> (\<forall>n us. jm_get (ch_node_users c) n = Some us \<longrightarrow>
          us \<noteq> [] \<and> distinct us \<and> jm_has (ch_last_seen c) n \<and> (\<forall>u \<in> set us. \<not> jm_has (ch_subs c) u))"

definition life_ok :: "chan \<Rightarrow> bool" where
  "life_ok c \<longleftrightarrow> (sj_closed (ch_publisher c) \<longleftrightarrow> ch_closed c) \<and> distinct (ch_pending c)
     \<and> (ch_closed c \<longrightarrow> ch_subs c = [] \<and> \<not> ch_dist_sub c \<and> \<not> ch_heartbeat_sub c \<and> \<not> ch_stale_timer c)
     \<and> (ch_backend c = None \<longrightarrow> \<not> ch_dist_sub c \<and> \<not> ch_heartbeat_sub c \<and> \<not> ch_stale_timer c \<and> ch_pending c = [])"

definition chan_ok :: "chan \<Rightarrow> bool" where
  "chan_ok c \<longleftrightarrow> subs_ok c \<and> presence_ok c \<and> nodes_ok c \<and> life_ok c"

lemmas chan_ok_defs = chan_ok_def subs_ok_def presence_ok_def nodes_ok_def life_ok_def

text \<open>The fields the invariant reads, the presences apart.\<close>

definition same_core :: "chan \<Rightarrow> chan \<Rightarrow> bool" where
  "same_core c d \<longleftrightarrow> ch_name c = ch_name d \<and> ch_assigns c = ch_assigns d \<and> ch_subs c = ch_subs d
     \<and> ch_publisher c = ch_publisher d \<and> ch_next_id c = ch_next_id d \<and> ch_node_users c = ch_node_users d
     \<and> ch_last_seen c = ch_last_seen d \<and> ch_pending c = ch_pending d \<and> ch_closed c = ch_closed d
     \<and> ch_dist_sub c = ch_dist_sub d \<and> ch_heartbeat_sub c = ch_heartbeat_sub d
     \<and> ch_stale_timer c = ch_stale_timer d \<and> ch_backend c = ch_backend d"

lemma chan_ok_core: "same_core c d \<Longrightarrow> chan_ok d \<Longrightarrow> presence_ok c \<Longrightarrow> chan_ok c"
  by (simp add: same_core_def chan_ok_defs has_user_def)

lemma emit_ok [simp, inv_intros]: "chan_ok (emit es c) \<longleftrightarrow> chan_ok c"
  by (simp add: chan_ok_defs has_user_def)

lemma publish_ok [simp, inv_intros]: "chan_ok (publish ev c) \<longleftrightarrow> chan_ok c"
  by (simp add: publish_emit)

lemma broadcast_ok [simp, inv_intros]: "chan_ok (broadcastToNodes b c) \<longleftrightarrow> chan_ok c"
  by (simp add: broadcast_emit)

lemma draw_ok [simp]: "chan_ok (c\<lparr>ch_drawn := n\<rparr>) \<longleftrightarrow> chan_ok c"
  by (simp add: chan_ok_defs has_user_def)

lemma waiting_ok [simp]: "chan_ok (c\<lparr>ch_waiting := n\<rparr>) \<longleftrightarrow> chan_ok c"
  by (simp add: chan_ok_defs has_user_def)

subsection \<open>Helpers keep the invariant\<close>

definition keeps_pe :: "(string \<Rightarrow> presence_engine \<Rightarrow> (presence_engine \<times> internal_event) res) \<Rightarrow> bool" where
  "keeps_pe op \<longleftrightarrow> (\<forall>rid pe pe' ev. op rid pe = Inr (pe', ev) \<longrightarrow> pe_ok pe \<longrightarrow>
     pe_ok pe' \<and> pe_channel pe' = pe_channel pe)"

lemma keeps_pe_ops [simp, intro]:
  "keeps_pe (pe_track u d)" "keeps_pe (pe_update u d)" "keeps_pe (pe_remove u)" "keeps_pe (pe_upsert u d)"
  unfolding keeps_pe_def pe_ops by (auto dest: process_ok process_Inr(2) split: if_splits)

lemma run_presence_pres:
  "keeps_pe op \<Longrightarrow> pe_ok pe \<Longrightarrow> pe_channel pe = ch_name c \<Longrightarrow> presence_ok (fst (run_presence op pe c))"
  by (auto simp: run_presence_def draw_def presence_ok_def keeps_pe_def split: sum.split)

lemma safeRemove_pres: "presence_ok c \<Longrightarrow> presence_ok (safeRemovePresence u c)"
  using run_presence_pres [of "pe_remove u"]
  by (cases "ch_presence c") (auto simp: safeRemovePresence_def presence_ok_def)

lemma run_presence_ok:
  assumes "chan_ok c" "keeps_pe op" "pe_ok pe" "pe_channel pe = ch_name c"
  shows "chan_ok (fst (run_presence op pe c))"
  using assms by (intro chan_ok_core [OF _ assms(1)] run_presence_pres) (simp_all add: same_core_def)

lemma getOrCreate_ok:
  assumes "chan_ok c"
  shows "pe_ok (getOrCreatePresenceEngine c)" "pe_channel (getOrCreatePresenceEngine c) = ch_name c"
  using assms
  by (auto simp: chan_ok_def presence_ok_def getOrCreatePresenceEngine_def new_presence_engine_def
      pe_ok_def split: option.split)

lemma run_created_ok [inv_intros]:
  "chan_ok c \<Longrightarrow> keeps_pe op \<Longrightarrow> chan_ok (fst (run_presence op (getOrCreatePresenceEngine c) c))"
  by (simp add: run_presence_ok getOrCreate_ok)

lemma safeRemove_ok [inv_intros]: "chan_ok c \<Longrightarrow> chan_ok (safeRemovePresence u c)"
  by (rule chan_ok_core [of _ c]) (simp_all add: same_core_def safeRemove_pres chan_ok_def)

lemma pending_ok [inv_intros]:
  "chan_ok c \<Longrightarrow> distinct q \<Longrightarrow> (ch_backend c = None \<Longrightarrow> q = []) \<Longrightarrow> chan_ok (c\<lparr>ch_pending := q\<rparr>)"
  by (simp add: chan_ok_defs has_user_def)

lemma add_assigns_ok [inv_intros]: "chan_ok c \<Longrightarrow> chan_ok (c\<lparr>ch_assigns := jm_set u a (ch_assigns c)\<rparr>)"
  by (simp add: chan_ok_defs has_user_def jmap_simps jm.ok_put)

lemma delete_assigns_ok [inv_intros]:
  "chan_ok c \<Longrightarrow> \<not> jm_has (ch_subs c) u \<Longrightarrow> chan_ok (c\<lparr>ch_assigns := jm_delete u (ch_assigns c)\<rparr>)"
  by (auto simp: chan_ok_defs has_user_def jmap_simps jm.ok_del)

lemma unsubscribe_frame [simp, frame_simps]:
  "ch_name (unsubscribe_observer ob c) = ch_name c" "ch_backend (unsubscribe_observer ob c) = ch_backend c"
  "ch_endpoint (unsubscribe_observer ob c) = ch_endpoint c"
  "ch_leave (unsubscribe_observer ob c) = ch_leave c" "ch_presence (unsubscribe_observer ob c) = ch_presence c"
  "ch_assigns (unsubscribe_observer ob c) = ch_assigns c" "ch_subs (unsubscribe_observer ob c) = ch_subs c"
  "ch_next_id (unsubscribe_observer ob c) = ch_next_id c" "ch_dist_sub (unsubscribe_observer ob c) = ch_dist_sub c"
  "ch_heartbeat_sub (unsubscribe_observer ob c) = ch_heartbeat_sub c"
  "ch_stale_timer (unsubscribe_observer ob c) = ch_stale_timer c"
  "ch_last_seen (unsubscribe_observer ob c) = ch_last_seen c"
  "ch_node_users (unsubscribe_observer ob c) = ch_node_users c" "ch_pending (unsubscribe_observer ob c) = ch_pending c"
  "ch_closed (unsubscribe_observer ob c) = ch_closed c" "ch_log (unsubscribe_observer ob c) = ch_log c"
  "ch_drawn (unsubscribe_observer ob c) = ch_drawn c" "ch_random (unsubscribe_observer ob c) = ch_random c"
  by (simp_all add: unsubscribe_observer_def)

lemma drop_frame [simp, frame_simps]:
  "ch_name (drop_subscription u c) = ch_name c" "ch_backend (drop_subscription u c) = ch_backend c"
  "ch_endpoint (drop_subscription u c) = ch_endpoint c"
  "ch_leave (drop_subscription u c) = ch_leave c" "ch_presence (drop_subscription u c) = ch_presence c"
  "ch_assigns (drop_subscription u c) = ch_assigns c"
  "ch_dist_sub (drop_subscription u c) = ch_dist_sub c"
  "ch_heartbeat_sub (drop_subscription u c) = ch_heartbeat_sub c"
  "ch_stale_timer (drop_subscription u c) = ch_stale_timer c"
  "ch_last_seen (drop_subscription u c) = ch_last_seen c"
  "ch_node_users (drop_subscription u c) = ch_node_users c" "ch_pending (drop_subscription u c) = ch_pending c"
  "ch_closed (drop_subscription u c) = ch_closed c" "ch_log (drop_subscription u c) = ch_log c"
  "ch_drawn (drop_subscription u c) = ch_drawn c" "ch_random (drop_subscription u c) = ch_random c"
  by (simp_all add: drop_subscription_def split: option.split)

lemma presence_of_drop [simp]: "presence_of (drop_subscription u c) v = presence_of c v"
  by (simp add: presence_of_def)

lemma drop_subs: "ch_subs (drop_subscription u c) = jm_delete u (ch_subs c)"
  by (simp add: drop_subscription_def jm_delete_absent jm_has_get split: option.split)

lemma drop_observers:
  assumes "subs_ok c"
  shows "sj_observers (ch_publisher (drop_subscription u c))
    = filter (\<lambda>ob. ob_user ob \<noteq> u) (sj_observers (ch_publisher c))"
proof (cases "jm_get (ch_subs c) u")
  case None
  with assms show ?thesis
    by (auto simp: drop_subscription_def subs_ok_def intro!: filter_True [symmetric])
next
  case (Some ob)
  with assms have "ob' \<noteq> ob \<longleftrightarrow> ob_user ob' \<noteq> u" if "ob' \<in> set (sj_observers (ch_publisher c))" for ob'
    using that by (auto simp: subs_ok_def)
  with Some show ?thesis
    by (simp add: drop_subscription_def unsubscribe_observer_def sj.unsubscribe_observers js_remove_def
        cong: filter_cong)
qed

text \<open>Forgetting a user: its assigns, its presence and its subscription go, whatever the order.\<close>

lemma drop_user_ok:
  assumes ok: "chan_ok c" and core: "same_core d (c\<lparr>ch_assigns := jm_delete u (ch_assigns c)\<rparr>)"
    and pres: "presence_ok d"
  shows "chan_ok (drop_subscription u d)"
proof -
  have eq: "ch_subs d = ch_subs c" "ch_publisher d = ch_publisher c" "ch_next_id d = ch_next_id c"
      "ch_assigns d = jm_delete u (ch_assigns c)"
    using core by (simp_all add: same_core_def)
  have obs: "sj_observers (ch_publisher (drop_subscription u d))
      = filter (\<lambda>ob. ob_user ob \<noteq> u) (sj_observers (ch_publisher c))"
    using drop_observers [of c u] ok eq
    by (auto simp: chan_ok_def drop_subscription_def unsubscribe_observer_def split: option.splits)
  have sj: "sj_ok (ch_publisher (drop_subscription u d))"
      "sj_closed (ch_publisher (drop_subscription u d)) = sj_closed (ch_publisher c)"
      "ch_next_id (drop_subscription u d) = ch_next_id c"
    using ok eq by (auto simp: drop_subscription_def unsubscribe_observer_def chan_ok_def subs_ok_def
        sj.ok_unsubscribe sj.unsubscribe_closed split: option.split)
  have "subs_ok (drop_subscription u d)"
    using ok by (auto simp: chan_ok_def subs_ok_def obs sj drop_subs eq jm.ok_del jm.get_del has_user_def
        jmap_simps)
  moreover have "nodes_ok (drop_subscription u d)"
    using ok core by (auto simp: chan_ok_def nodes_ok_def same_core_def drop_subs jmap_simps)
  moreover have "life_ok (drop_subscription u d)"
    using ok core by (auto simp: chan_ok_def life_ok_def same_core_def drop_subs sj(2))
  ultimately show ?thesis
    using pres by (simp add: chan_ok_def presence_ok_def)
qed

lemma nodes_update_ok:
  "chan_ok c \<Longrightarrow> nodes_ok (c\<lparr>ch_node_users := m, ch_last_seen := l\<rparr>)
     \<Longrightarrow> chan_ok (c\<lparr>ch_node_users := m, ch_last_seen := l\<rparr>)"
  by (simp add: chan_ok_def subs_ok_def presence_ok_def life_ok_def has_user_def)

lemma track_node_ok [inv_intros]:
  assumes ok: "chan_ok c" and free: "\<not> jm_has (ch_subs c) u"
  shows "chan_ok (trackNodeUser source u now c)"
proof -
  have nodes: "nodes_ok c" using ok by (simp add: chan_ok_def)
  have "chan_ok (trackNodeUser (Some n) u now c)" if n: "n \<noteq> []" for n
  proof -
    define us where "us = (case jm_get (ch_node_users c) n of Some us \<Rightarrow> us | None \<Rightarrow> [])"
    have us: "distinct us" "\<forall>v \<in> set us. \<not> jm_has (ch_subs c) v"
      using nodes by (cases "jm_get (ch_node_users c) n"; simp add: us_def nodes_ok_def)+
    define l where "l = (if jm_has (ch_last_seen c) n then ch_last_seen c else jm_set n now (ch_last_seen c))"
    have eq: "trackNodeUser (Some n) u now c
        = c\<lparr>ch_node_users := jm_set n (js_add u us) (ch_node_users c), ch_last_seen := l\<rparr>"
      using n by (simp add: trackNodeUser_def Let_def us_def l_def)
    show ?thesis
      unfolding eq using nodes us free
      by (intro nodes_update_ok ok)
        (auto simp: nodes_ok_def l_def jm.ok_put jm.get_put jm_has_set split: if_splits)
  qed
  with ok show ?thesis
    by (cases source) (auto simp: trackNodeUser_def)
qed

lemma untrack_node_ok [inv_intros]:
  assumes ok: "chan_ok c"
  shows "chan_ok (untrackNodeUser source u c)"
proof -
  have nodes: "nodes_ok c" using ok by (simp add: chan_ok_def)
  have "chan_ok (untrackNodeUser (Some n) u c)" if n: "n \<noteq> []" for n
  proof (cases "jm_get (ch_node_users c) n")
    case None
    with ok n show ?thesis by (simp add: untrackNodeUser_def)
  next
    case (Some us)
    define m where "m = (if js_remove u us = [] then jm_delete n (ch_node_users c)
      else jm_set n (js_remove u us) (ch_node_users c))"
    have eq: "untrackNodeUser (Some n) u c = c\<lparr>ch_node_users := m, ch_last_seen := ch_last_seen c\<rparr>"
      using n Some by (simp add: untrackNodeUser_def Let_def m_def)
    show ?thesis
      unfolding eq using nodes Some
      by (intro nodes_update_ok ok)
        (auto simp: nodes_ok_def m_def jm.ok_put jm.ok_del jm.get_put jm.get_del split: if_splits)
  qed
  with ok show ?thesis
    by (cases source) (auto simp: untrackNodeUser_def)
qed

lemma node_frames [simp, frame_simps]:
  "ch_assigns (trackNodeUser s u n c) = ch_assigns c" "ch_subs (trackNodeUser s u n c) = ch_subs c"
  "ch_publisher (trackNodeUser s u n c) = ch_publisher c" "ch_presence (trackNodeUser s u n c) = ch_presence c"
  "ch_name (trackNodeUser s u n c) = ch_name c" "ch_backend (trackNodeUser s u n c) = ch_backend c"
  "ch_closed (trackNodeUser s u n c) = ch_closed c" "ch_log (trackNodeUser s u n c) = ch_log c"
  "ch_assigns (untrackNodeUser s u c) = ch_assigns c" "ch_subs (untrackNodeUser s u c) = ch_subs c"
  "ch_publisher (untrackNodeUser s u c) = ch_publisher c" "ch_presence (untrackNodeUser s u c) = ch_presence c"
  "ch_name (untrackNodeUser s u c) = ch_name c" "ch_backend (untrackNodeUser s u c) = ch_backend c"
  "ch_closed (untrackNodeUser s u c) = ch_closed c" "ch_log (untrackNodeUser s u c) = ch_log c"
  by (simp_all add: trackNodeUser_def untrackNodeUser_def Let_def split: option.split)

lemma fold_unsubscribe:
  "fold unsubscribe_observer obs c = c\<lparr>ch_publisher := fold sj_unsubscribe obs (ch_publisher c)\<rparr>"
  by (induction obs arbitrary: c) (simp_all add: unsubscribe_observer_def)

text \<open>A closed engine holds nothing but its name, its log and what the transport still owes it.\<close>

lemma close_fields [simp]:
  "ch_closed (close c)" "ch_subs (close c) = []" "ch_assigns (close c) = []" "ch_presence (close c) = None"
  "\<not> ch_dist_sub (close c)" "\<not> ch_heartbeat_sub (close c)" "\<not> ch_stale_timer (close c)"
  "ch_pending (close c) = []" "ch_last_seen (close c) = []" "ch_node_users (close c) = []"
  "sj_observers (ch_publisher (close c)) = []" "sj_closed (ch_publisher (close c))"
  "ch_name (close c) = ch_name c" "ch_backend (close c) = ch_backend c" "ch_leave (close c) = ch_leave c"
  "ch_endpoint (close c) = ch_endpoint c"
  by (simp_all add: close_def Let_def fold_unsubscribe sj.close_observers sj.close_closed)

lemma close_ok [inv_intros]: "chan_ok (close c)"
proof -
  have "sj_ok (ch_publisher (close c))"
    by (simp add: close_def Let_def fold_unsubscribe sj.ok_close)
  then show ?thesis
    by (simp add: chan_ok_defs has_user_def)
qed

lemma forget_user_ok [inv_intros]:
  "chan_ok c \<Longrightarrow> \<not> jm_has (ch_subs c) u \<Longrightarrow> chan_ok (forget_user u c)"
  by (simp add: forget_user_def safeRemove_ok delete_assigns_ok)

lemma forget_user_frame [simp, frame_simps]:
  "ch_subs (forget_user u c) = ch_subs c" "ch_node_users (forget_user u c) = ch_node_users c"
  "ch_last_seen (forget_user u c) = ch_last_seen c" "ch_publisher (forget_user u c) = ch_publisher c"
  "ch_backend (forget_user u c) = ch_backend c" "ch_closed (forget_user u c) = ch_closed c"
  "ch_name (forget_user u c) = ch_name c"
  by (simp_all add: forget_user_def)

lemma fold_forget_frame [simp]:
  "ch_subs (fold forget_user us c) = ch_subs c" "ch_node_users (fold forget_user us c) = ch_node_users c"
  "ch_last_seen (fold forget_user us c) = ch_last_seen c"
  "ch_publisher (fold forget_user us c) = ch_publisher c"
  by (induction us arbitrary: c) simp_all

lemma fold_forget_ok:
  "chan_ok c \<Longrightarrow> \<forall>u \<in> set us. \<not> jm_has (ch_subs c) u \<Longrightarrow> chan_ok (fold forget_user us c)"
  by (induction us arbitrary: c) (simp_all add: forget_user_ok)

lemma cleanup_node_ok: "chan_ok c \<Longrightarrow> chan_ok (cleanup_node now timeout entry c)"
proof (cases entry)
  case (Pair n seen)
  assume ok: "chan_ok c"
  show ?thesis
  proof (cases "jm_get (ch_node_users c) n")
    case None
    with ok show ?thesis
      by (auto simp: Pair cleanup_node_def chan_ok_defs has_user_def jm.ok_del jm_has_delete)
  next
    case (Some us)
    with ok have "chan_ok (fold forget_user us c)"
      by (intro fold_forget_ok) (auto simp: chan_ok_def nodes_ok_def)
    with ok Some show ?thesis
      by (auto simp: Pair cleanup_node_def Let_def chan_ok_defs has_user_def jm.ok_del jm.get_del jm_has_delete)
  qed
qed

lemma cleanup_ok [inv_intros]: "chan_ok c \<Longrightarrow> chan_ok (cleanupStaleNodes now c)"
proof -
  have "chan_ok (fold (cleanup_node now t) es c)" if "chan_ok c" for t es
    using that by (induction es arbitrary: c) (simp_all add: cleanup_node_ok)
  then show "chan_ok c \<Longrightarrow> chan_ok (cleanupStaleNodes now c)"
    by (simp add: cleanupStaleNodes_def split: option.split)
qed

end
