(* ===== verification/Channel_Run.thy ===== *)
theory Channel_Run
  imports Channel_Inv
begin

text \<open>
  A channel engine over its life: every operation keeps the invariant, so it holds after any
  sequence of calls, remote messages and timers.
\<close>

subsection \<open>Every operation keeps the invariant\<close>

lemma outcome_and_then [inv_intros]:
  "chan_ok (fst r) \<Longrightarrow> (\<And>c. r = (c, None) \<Longrightarrow> chan_ok c \<Longrightarrow> chan_ok (fst (f c))) \<Longrightarrow> chan_ok (fst (and_then r f))"
  by (cases r; cases "snd r") (auto simp: and_then_def)

lemma subscriber_ok:
  assumes ok: "chan_ok c" and user: "has_user u c" and absent: "\<not> jm_has (ch_subs c) u"
    and free: "\<forall>n us. jm_get (ch_node_users c) n = Some us \<longrightarrow> u \<notin> set us"
  shows "chan_ok (fst (buildSubscriber u conn c))"
proof (cases "ch_closed c")
  case True
  with ok show ?thesis
    by (simp add: buildSubscriber_def sj_subscribe_def chan_ok_def life_ok_def)
next
  case False
  let ?ob = "Observer (ch_next_id c) u conn"
  have open_sj: "\<not> sj_closed (ch_publisher c)" and sub: "subs_ok c"
    using False ok by (auto simp: chan_ok_def life_ok_def)
  obtain p where p: "sj_subscribe ?ob (ch_publisher c) = Inr p" "\<not> sj_closed p"
      "sj_observers p = js_add ?ob (sj_observers (ch_publisher c))"
    using sj.subscribe_open [OF open_sj] by blast
  have sjp: "sj_ok p"
    using p(1) sub sj.ok_subscribe by (auto simp: subs_ok_def)
  define d where "d = c\<lparr>ch_publisher := p, ch_next_id := Suc (ch_next_id c), ch_subs := jm_set u ?ob (ch_subs c)\<rparr>"
  have "jm_get (ch_subs c) v = Some ob \<Longrightarrow> v \<noteq> u" for v ob
    using absent by (auto simp: jm_has_get)
  then have "subs_ok d"
    using sub sjp user
    by (auto simp: d_def subs_ok_def p(3) jm.ok_put jm.get_put jm_has_set has_user_def less_Suc_eq)
  moreover have "nodes_ok d" "life_ok d" "presence_ok d"
    using ok p(2) False free
    by (auto simp: d_def chan_ok_def nodes_ok_def life_ok_def presence_ok_def jm_has_set)
  ultimately show ?thesis
    using p(1) by (simp add: buildSubscriber_def d_def chan_ok_def)
qed

lemma request_state_ok [inv_intros]: "chan_ok (requestChannelState c) \<longleftrightarrow> chan_ok c"
  by (simp add: requestChannelState_def)

lemma after_ready_ok [inv_intros]: "chan_ok c \<Longrightarrow> chan_ok (afterDistributedReady c)"
  by (simp add: afterDistributedReady_def request_state_ok)

text \<open>The user id is not one tracked for another node (client ids are fresh uuids).\<close>

definition fresh_user :: "string \<Rightarrow> chan \<Rightarrow> bool" where
  "fresh_user u c = list_all (\<lambda>(n, us). u \<notin> set us) (ch_node_users c)"

lemma fresh_user_get: "fresh_user u c \<Longrightarrow> jm_get (ch_node_users c) n = Some us \<Longrightarrow> u \<notin> set us"
  by (auto simp: fresh_user_def jm_get_def list_all_iff dest: map_of_SomeD)

lemma add_user_ok [inv_intros]:
  assumes ok: "chan_ok c" and fresh: "fresh_user u c"
  shows "chan_ok (fst (addUser u a conn rid c))"
proof (cases "has_user u c")
  case True
  with ok show ?thesis by (simp add: addUser_def)
next
  case False
  let ?c2 = "(emit [Send conn (ack_event rid c)] c)\<lparr>ch_assigns := jm_set u a (ch_assigns c)\<rparr>"
  have "chan_ok ?c2"
    using ok add_assigns_ok [of "emit [Send conn (ack_event rid c)] c"] by simp
  moreover have "\<not> jm_has (ch_subs ?c2) u"
    using ok False by (auto simp: chan_ok_def subs_ok_def)
  ultimately have "chan_ok (fst (buildSubscriber u conn ?c2))"
    using fresh by (intro subscriber_ok) (auto simp: has_user_def jm_has_set dest: fresh_user_get)
  then show ?thesis
    using False by (auto simp: addUser_def Let_def after_ready_ok intro!: outcome_and_then)
qed

lemma send_ok [inv_intros]: "chan_ok (fst (sendMessage s r a e p rid c)) \<longleftrightarrow> chan_ok c"
  by (simp add: sendMessage_def split: sum.split)

lemma send_uuid_ok [inv_intros]: "chan_ok (fst (sendMessage_uuid s r a e p c)) \<longleftrightarrow> chan_ok c"
  by (simp add: sendMessage_uuid_def draw_def send_ok)

lemma presence_ops_ok [inv_intros]:
  assumes "chan_ok c"
  shows "chan_ok (fst (trackPresence u d c))" "chan_ok (fst (updatePresence u d c))"
    "chan_ok (fst (upsertPresence u d c))" "chan_ok (fst (removePresence u c))"
proof -
  show "chan_ok (fst (trackPresence u d c))" "chan_ok (fst (updatePresence u d c))"
      "chan_ok (fst (upsertPresence u d c))"
    using assms unfolding trackPresence_def updatePresence_def upsertPresence_def
    by (auto intro!: outcome_and_then run_created_ok)
  show "chan_ok (fst (removePresence u c))"
  proof (cases "ch_presence c")
    case None
    with assms show ?thesis by (simp add: removePresence_def)
  next
    case (Some pe)
    with assms have "pe_ok pe" "pe_channel pe = ch_name c"
      by (auto simp: chan_ok_def presence_ok_def)
    with assms Some show ?thesis
      by (auto simp: removePresence_def intro!: outcome_and_then run_presence_ok)
  qed
qed

lemma update_assigns_ok [inv_intros]: "chan_ok c \<Longrightarrow> chan_ok (fst (updateAssigns u a c))"
  by (simp add: updateAssigns_def Let_def add_assigns_ok split: option.split)

text \<open>Forgetting a subscribed user, as \<open>removeUser\<close> and an eviction do.\<close>

lemma forget_drop_ok:
  assumes "chan_ok c"
  shows "chan_ok (drop_subscription u (safeRemovePresence u (c\<lparr>ch_assigns := jm_delete u (ch_assigns c)\<rparr>)))"
proof (rule drop_user_ok [OF assms])
  let ?d = "c\<lparr>ch_assigns := jm_delete u (ch_assigns c)\<rparr>"
  show "same_core (safeRemovePresence u ?d) ?d"
    by (simp add: same_core_def)
  from assms show "presence_ok (safeRemovePresence u ?d)"
    by (intro safeRemove_pres) (simp add: chan_ok_def presence_ok_def)
qed

lemma remove_user_ok [inv_intros]: "chan_ok c \<Longrightarrow> chan_ok (removeUser u skip c)"
  using forget_drop_ok [of c u] by (simp add: removeUser_def Let_def close_ok split: sum.split)

lemma kick_ok [inv_intros]: "chan_ok c \<Longrightarrow> chan_ok (fst (kickUser u reason c))"
  by (auto simp: kickUser_def send_uuid_ok remove_user_ok intro!: outcome_and_then)

lemma destroy_ok [inv_intros]: "chan_ok c \<Longrightarrow> chan_ok (fst (destroy reason c))"
  by (auto simp: destroy_def send_uuid_ok close_ok intro!: outcome_and_then)

lemma get_user_ok [inv_intros]: "chan_ok c \<Longrightarrow> chan_ok (getUserAcrossNodes u c)"
proof (cases "ch_backend c = None")
  case False
  let ?c = "c\<lparr>ch_drawn := Suc (ch_drawn c)\<rparr>"
  assume "chan_ok c"
  then have "chan_ok ?c" by simp
  moreover from this have "distinct (ch_pending ?c)" unfolding chan_ok_def life_ok_def by blast
  ultimately have "chan_ok (?c\<lparr>ch_pending := js_add rid (ch_pending c)\<rparr>)" for rid
    using False by (intro pending_ok) simp_all
  with False show ?thesis
    by (auto simp: getUserAcrossNodes_def draw_def)
qed (simp add: getUserAcrossNodes_def)

lemma remove_pending_ok [inv_intros]:
  "chan_ok c \<Longrightarrow> chan_ok (c\<lparr>ch_pending := js_remove rid (ch_pending c)\<rparr>)"
  by (rule pending_ok) (auto simp: chan_ok_def life_ok_def js_remove_def)

lemma timeout_ok [inv_intros]: "chan_ok c \<Longrightarrow> chan_ok (user_get_timeout rid c)"
  by (simp add: user_get_timeout_def remove_pending_ok)

lemma settled_ok [simp]: "chan_ok (c\<lparr>ch_settled := b\<rparr>) \<longleftrightarrow> chan_ok c"
  by (simp add: chan_ok_defs has_user_def)

lemma dist_sub_ok: "chan_ok c \<Longrightarrow> \<not> ch_closed c \<Longrightarrow> ch_backend c \<noteq> None \<Longrightarrow> chan_ok (c\<lparr>ch_dist_sub := b\<rparr>)"
  by (auto simp: chan_ok_def subs_ok_def presence_ok_def nodes_ok_def life_ok_def has_user_def)

lemma ready_ok [inv_intros]:
  "chan_ok c \<Longrightarrow> ch_backend c \<noteq> None \<Longrightarrow> chan_ok (distributed_ready b c)"
  using dist_sub_ok [of "c\<lparr>ch_settled := True\<rparr>" True] by (simp add: distributed_ready_def Let_def)

lemma run_waiting_ok [inv_intros]: "chan_ok c \<Longrightarrow> chan_ok (run_waiting c)"
  by (simp add: run_waiting_def Let_def request_state_ok)

lemma heartbeat_ok [inv_intros]: "chan_ok c \<Longrightarrow> chan_ok (heartbeat n now c)"
proof -
  assume "chan_ok c"
  then have "chan_ok (c\<lparr>ch_node_users := ch_node_users c, ch_last_seen := jm_set n now (ch_last_seen c)\<rparr>)"
    by (intro nodes_update_ok) (auto simp: chan_ok_def nodes_ok_def jm.ok_put jm_has_set)
  then show ?thesis by (simp add: heartbeat_def)
qed

subsection \<open>Remote messages keep the invariant\<close>

lemma absent_not_subscribed: "chan_ok c \<Longrightarrow> \<not> has_user u c \<Longrightarrow> \<not> jm_has (ch_subs c) u"
  by (auto simp: chan_ok_def subs_ok_def)

lemma learn_user_ok:
  "chan_ok c \<Longrightarrow> \<not> has_user u c \<Longrightarrow>
     chan_ok (trackNodeUser source u now (c\<lparr>ch_assigns := jm_set u a (ch_assigns c)\<rparr>))"
  by (intro track_node_ok add_assigns_ok) (simp_all add: absent_not_subscribed)

lemma state_user_ok: "chan_ok c \<Longrightarrow> chan_ok (state_response_user source now x c)"
  by (cases x) (simp add: state_response_user_def Let_def learn_user_ok run_created_ok)

lemma state_response_ok [inv_intros]: "chan_ok c \<Longrightarrow> chan_ok (handleStateResponse source now users c)"
  unfolding handleStateResponse_def by (induction users arbitrary: c) (simp_all add: state_user_ok)

lemma joined_ok [inv_intros]: "chan_ok c \<Longrightarrow> chan_ok (fst (handleRemoteUserJoined source now u p a c))"
  by (simp add: handleRemoteUserJoined_def Let_def learn_user_ok run_created_ok)

lemma left_ok [inv_intros]:
  "chan_ok c \<Longrightarrow> \<not> jm_has (ch_subs c) u \<Longrightarrow> chan_ok (handleRemoteUserLeft source u c)"
  by (simp add: handleRemoteUserLeft_def safeRemove_ok untrack_node_ok delete_assigns_ok)

lemma evict_ok [inv_intros]: "chan_ok c \<Longrightarrow> chan_ok (handleRemoteEvictUser u reason c)"
proof -
  assume ok: "chan_ok c"
  let ?c1 = "if jm_has (ch_subs c) u then (case draw c of (rid, c') \<Rightarrow>
      publish (user_event A_SYSTEM ''kicked_out'' [(''message'', JStr reason), (''code'', JNum 403)] rid [u] c') c')
    else c"
  from ok have "chan_ok ?c1" by (simp add: draw_def)
  from forget_drop_ok [OF this, of u] show ?thesis
    unfolding handleRemoteEvictUser_def Let_def .
qed

lemma user_remove_ok [inv_intros]: "chan_ok c \<Longrightarrow> chan_ok (handleRemoteUserRemove source u c)"
  by (simp add: handleRemoteUserRemove_def remove_user_ok untrack_node_ok safeRemove_ok delete_assigns_ok)

text \<open>
  The transport does not report that a user joined here has left on another node: a client
  is connected to one node.
\<close>

fun sane_message :: "dist_body \<Rightarrow> chan \<Rightarrow> bool" where
  "sane_message (USER_LEFT u) c = (\<not> jm_has (ch_subs c) u)"
| "sane_message _ c = True"

lemma distributed_ok [inv_intros]:
  "chan_ok c \<Longrightarrow> sane_message (dm_body m) c \<Longrightarrow> chan_ok (fst (handleDistributedMessage now m c))"
  by (cases "dm_body m")
    (simp_all add: handleDistributedMessage_def handleStateRequest_def handleRemoteMessage_def Let_def
      state_response_ok joined_ok left_ok handleRemotePresenceUpdate_def run_created_ok safeRemove_ok
      handleRemoteAssignsUpdate_def add_assigns_ok evict_ok user_remove_ok handleRemoteUserGetRequest_def
      handleRemoteUserGetResponse_def remove_pending_ok split: option.split)

subsection \<open>The machine\<close>

datatype chan_op =
    Add_User string obj nat string
  | Send_Message string receivers server_action string obj string
  | Track_Presence string obj
  | Update_Presence string obj
  | Remove_Presence string
  | Upsert_Presence string obj
  | Update_Assigns string obj
  | Kick_User string string
  | Request_Removal string
  | Get_User string
  | Get_Timeout string
  | Destroy "string option"
  | Remove_User string
  | Subscribed bool
  | Waiting_Callback
  | Heartbeat string nat
  | Cleanup nat
  | Receive nat dist_message

fun chan_exec :: "chan_op \<Rightarrow> chan \<Rightarrow> outcome" where
  "chan_exec (Add_User u a conn rid) c = addUser u a conn rid c"
| "chan_exec (Send_Message s r a e p rid) c = sendMessage s r a e p rid c"
| "chan_exec (Track_Presence u d) c = trackPresence u d c"
| "chan_exec (Update_Presence u d) c = updatePresence u d c"
| "chan_exec (Remove_Presence u) c = removePresence u c"
| "chan_exec (Upsert_Presence u d) c = upsertPresence u d c"
| "chan_exec (Update_Assigns u a) c = updateAssigns u a c"
| "chan_exec (Kick_User u reason) c = kickUser u reason c"
| "chan_exec (Request_Removal u) c = (requestUserRemoval u c, None)"
| "chan_exec (Get_User u) c = (getUserAcrossNodes u c, None)"
| "chan_exec (Get_Timeout rid) c = (user_get_timeout rid c, None)"
| "chan_exec (Destroy reason) c = destroy reason c"
| "chan_exec (Remove_User u) c = (removeUser u False c, None)"
| "chan_exec (Subscribed ok) c = (distributed_ready ok c, None)"
| "chan_exec Waiting_Callback c = (run_waiting c, None)"
| "chan_exec (Heartbeat n now) c = (heartbeat n now c, None)"
| "chan_exec (Cleanup now) c = (cleanupStaleNodes now c, None)"
| "chan_exec (Receive now m) c = handleDistributedMessage now m c"

text \<open>
  What the surroundings of an engine guarantee: client ids are not reused across nodes, the
  backend calls back only if there is one, a timeout fires for a pending request.
\<close>

fun chan_legal :: "chan_op \<Rightarrow> chan \<Rightarrow> bool" where
  "chan_legal (Add_User u a conn rid) c = fresh_user u c"
| "chan_legal (Subscribed ok) c = (ch_backend c \<noteq> None \<and> \<not> ch_settled c)"
| "chan_legal (Get_Timeout rid) c = (rid \<in> set (ch_pending c))"
| "chan_legal (Receive now m) c = sane_message (dm_body m) c"
| "chan_legal _ c = True"

definition chan_step :: "chan \<Rightarrow> chan_op \<Rightarrow> chan" where
  "chan_step c op = (if chan_legal op c then fst (chan_exec op c) else c)"

lemma chan_exec_ok: "chan_ok c \<Longrightarrow> chan_legal op c \<Longrightarrow> chan_ok (fst (chan_exec op c))"
  by (cases op)
    (simp_all add: add_user_ok send_ok presence_ops_ok update_assigns_ok kick_ok requestUserRemoval_def
      get_user_ok timeout_ok destroy_ok remove_user_ok ready_ok run_waiting_ok heartbeat_ok cleanup_ok
      distributed_ok)

interpretation chan_run: invariant_machine chan_step chan_ok
  by unfold_locales (simp add: chan_step_def chan_exec_ok)

lemma new_channel_ok: "chan_ok (new_channel name path backend leave random)"
  by (simp add: new_channel_def chan_ok_defs sj_new_def sj_observers_def sj_ok_def)

end
