(* ===== verification/Channel_Props.thy ===== *)
theory Channel_Props
  imports Channel_Run
begin

text \<open>
  What the operations of a channel engine promise: who hears a message and how often, what a
  join, a departure, an eviction and the cleanup of a dead node do to the channel, and what
  happens to requests that wait for other nodes.
\<close>

subsection \<open>Deliveries\<close>

fun delivered_to :: "string \<Rightarrow> eff \<Rightarrow> bool" where
  "delivered_to u (Start_Outgoing conn v ev) = (u = v)"
| "delivered_to u _ = False"

fun is_to_nodes :: "eff \<Rightarrow> bool" where
  "is_to_nodes (To_Nodes m) = True"
| "is_to_nodes _ = False"

fun is_leave :: "eff \<Rightarrow> bool" where
  "is_leave (Call_Leave ud) = True"
| "is_leave _ = False"

definition connection_of :: "chan \<Rightarrow> string \<Rightarrow> nat" where
  "connection_of c u = ob_conn (the (jm_get (ch_subs c) u))"

lemma filter_unique:
  "distinct xs \<Longrightarrow> x \<in> set xs \<Longrightarrow> (\<And>y. y \<in> set xs \<Longrightarrow> P y \<longleftrightarrow> y = x) \<Longrightarrow> filter P xs = [x]"
proof (induction xs)
  case (Cons y xs)
  show ?case
  proof (cases "y = x")
    case True
    with Cons.prems have "filter P xs = []" by (auto simp: filter_empty_conv)
    with True Cons.prems show ?thesis by simp
  next
    case False
    with Cons show ?thesis by auto
  qed
qed simp

lemma filter_deliveries:
  "filter P (deliveries ev c) = concat (map (\<lambda>ob. filter P (observe ev ob)) (sj_observers (ch_publisher c)))"
  by (simp add: deliveries_def filter_concat comp_def)

text \<open>The subscriber of a user, and that it is the only one.\<close>

lemma observer_iff:
  assumes "chan_ok c"
  shows "ob \<in> set (sj_observers (ch_publisher c)) \<and> ob_user ob = u \<longleftrightarrow> jm_get (ch_subs c) u = Some ob"
proof -
  from assms have users: "\<forall>v ob. jm_get (ch_subs c) v = Some ob \<longrightarrow> ob_user ob = v"
    and obs: "set (sj_observers (ch_publisher c)) = {ob. \<exists>v. jm_get (ch_subs c) v = Some ob}"
    by (simp_all add: chan_ok_def subs_ok_def)
  show ?thesis unfolding obs using users by blast
qed

lemma observers_distinct: "chan_ok c \<Longrightarrow> distinct (sj_observers (ch_publisher c))"
  by (simp add: chan_ok_def subs_ok_def sj.ok_distinct)

lemma observers_of_user:
  assumes ok: "chan_ok c"
  shows "filter (\<lambda>ob. ob_user ob = u) (sj_observers (ch_publisher c))
    = (case jm_get (ch_subs c) u of None \<Rightarrow> [] | Some ob \<Rightarrow> [ob])"
proof (cases "jm_get (ch_subs c) u")
  case None
  with observer_iff [OF ok, of _ u] show ?thesis by (auto simp: filter_empty_conv)
next
  case (Some ob)
  have mem: "ob \<in> set (sj_observers (ch_publisher c))"
    using observer_iff [OF ok, of ob u] Some by blast
  have only: "ob_user y = u \<longleftrightarrow> y = ob" if "y \<in> set (sj_observers (ch_publisher c))" for y
    using observer_iff [OF ok, of y u] Some that by auto
  show ?thesis
    using filter_unique [OF observers_distinct [OF ok] mem only] Some by simp
qed

lemma concat_map_if:
  "concat (map (\<lambda>x. if P x then [f x] else []) xs) = map f (filter P xs)"
  by (induction xs) simp_all

lemma delivered_once:
  assumes ok: "chan_ok c" and ev: "ce_action ev \<noteq> A_PRESENCE"
  shows "filter (delivered_to u) (deliveries ev c) =
    (if u \<in> set (ie_recipients ev) \<and> jm_has (ch_subs c) u
     then [Start_Outgoing (connection_of c u) u (channel_event.truncate ev)] else [])"
proof -
  have f: "filter (delivered_to u) (observe ev ob) =
      (if u \<in> set (ie_recipients ev) \<and> ob_user ob = u
       then [Start_Outgoing (ob_conn ob) u (channel_event.truncate ev)] else [])" for ob
    using ev by (auto simp: observe_def)
  have "filter (delivered_to u) (deliveries ev c) =
      (if u \<in> set (ie_recipients ev)
       then map (\<lambda>ob. Start_Outgoing (ob_conn ob) u (channel_event.truncate ev))
         (filter (\<lambda>ob. ob_user ob = u) (sj_observers (ch_publisher c))) else [])"
    unfolding filter_deliveries f by (simp add: concat_map_if)
  then show ?thesis
    by (simp add: observers_of_user [OF ok] jm_has_get connection_of_def split: option.split)
qed

lemma no_others_in_deliveries:
  "filter is_to_nodes (deliveries ev c) = []" "filter is_leave (deliveries ev c) = []"
  unfolding filter_deliveries by (auto simp: observe_def)

lemma no_others_in_to_nodes:
  "filter (delivered_to u) (to_nodes b c) = []" "filter is_leave (to_nodes b c) = []"
  "filter is_to_nodes (to_nodes b c) = to_nodes b c"
  by (simp_all add: to_nodes_def)

lemmas effect_filters [simp] = no_others_in_deliveries no_others_in_to_nodes

lemma deliveries_frame [simp]:
  "deliveries ev (emit es c) = deliveries ev c" "to_nodes b (emit es c) = to_nodes b c"
  "to_nodes b (publish ev c) = to_nodes b c" "deliveries ev (c\<lparr>ch_drawn := n\<rparr>) = deliveries ev c"
  by (simp_all add: deliveries_def to_nodes_def)

definition event_of :: "server_action \<Rightarrow> string \<Rightarrow> obj \<Rightarrow> string \<Rightarrow> chan \<Rightarrow> channel_event" where
  "event_of action event payload rid c =
     \<lparr>ce_action = action, ce_event = event, ce_channel = ch_name c, ce_request = rid, ce_payload = payload\<rparr>"

lemma truncate_user_event [simp]:
  "channel_event.truncate (user_event a e p rid rs c) = event_of a e p rid c"
  "ce_action (user_event a e p rid rs c) = a" "ie_recipients (user_event a e p rid rs c) = rs"
  by (simp_all add: user_event_def event_of_def channel_event.defs)

text \<open>The users a receiver description stands for.\<close>

fun addressed :: "receivers \<Rightarrow> string \<Rightarrow> string \<Rightarrow> bool" where
  "addressed ALL_USERS sender u = True"
| "addressed ALL_EXCEPT_SENDER sender u = (u \<noteq> sender)"
| "addressed (Users us) sender u = (u \<in> set us)"
| "addressed (Other_Receiver s) sender u = False"

lemma recipients_addressed:
  "getUsersFromRecipients r s c = Inr rs \<Longrightarrow> u \<in> set rs \<longleftrightarrow> has_user u c \<and> addressed r s u"
  by (auto simp: getUsersFromRecipients_def Let_def ch_users_def has_user_def jm_has_keys
      split: receivers.splits if_splits)

lemma remote_addressed: "u \<in> set (remote_recipients r s c) \<longleftrightarrow> has_user u c \<and> addressed r s u"
  by (auto simp: remote_recipients_def ch_users_def has_user_def jm_has_keys split: receivers.splits)

lemma sendMessage_Inr:
  assumes "sendMessage s r a e p rid c = (c', None)"
  obtains rs where "getUsersFromRecipients r s c = Inr rs"
    and "c' = emit (deliveries (user_event a e p rid rs c) c @ to_nodes (USER_MESSAGE s e p rid r) c) c"
  using assms
  by (auto simp: sendMessage_def publish_emit broadcast_emit split: if_splits sum.splits)

lemma subscribed_user: "chan_ok c \<Longrightarrow> jm_has (ch_subs c) u \<Longrightarrow> has_user u c"
  by (simp add: chan_ok_def subs_ok_def)



text \<open>
  C1. A message that is accepted changes nothing but the log: every locally subscribed user the
  sender addressed is served exactly once, with the event as it was sent, nobody else is, and
  the other nodes are told once with the receiver description.
\<close>

theorem sendMessage_delivery:
  assumes ok: "chan_ok c" and action: "a \<noteq> A_PRESENCE"
    and sent: "sendMessage s r a e p rid c = (c', None)"
  shows "\<exists>es. c' = emit es c
    \<and> (\<forall>u. filter (delivered_to u) es =
          (if jm_has (ch_subs c) u \<and> addressed r s u
           then [Start_Outgoing (connection_of c u) u (event_of a e p rid c)] else []))
    \<and> filter is_to_nodes es = to_nodes (USER_MESSAGE s e p rid r) c"
proof -
  from sendMessage_Inr [OF sent] obtain rs
    where rs: "getUsersFromRecipients r s c = Inr rs"
      and c': "c' = emit (deliveries (user_event a e p rid rs c) c @ to_nodes (USER_MESSAGE s e p rid r) c) c"
    by blast
  have "u \<in> set rs \<and> jm_has (ch_subs c) u \<longleftrightarrow> jm_has (ch_subs c) u \<and> addressed r s u" for u
    using recipients_addressed [OF rs] subscribed_user [OF ok] by blast
  with ok action show ?thesis
    by (intro exI [of _ "deliveries (user_event a e p rid rs c) c @ to_nodes (USER_MESSAGE s e p rid r) c"])
      (simp add: c' delivered_once)
qed

text \<open>
  The channel of the witnesses: two users joined on a node with a backend, a third user is on
  another node, and two of them are present.
\<close>

definition demo_chan :: chan where
  "demo_chan =
     \<lparr>ch_name = ''room'', ch_endpoint = ''/api'', ch_node = ''n1'', ch_backend = Some 100, ch_leave = True,
      ch_presence = Some \<lparr>pe_channel = ''room'', pe_cache = [(''ann'', [(''on'', JBool True)]), (''bob'', [])]\<rparr>,
      ch_assigns = [(''ann'', [(''role'', JStr ''host'')]), (''bob'', []), (''eve'', [])],
      ch_subs = [(''ann'', Observer 0 ''ann'' 1), (''bob'', Observer 1 ''bob'' 2)],
      ch_publisher = \<lparr>sj_closed = False,
        sj_entries = [(0, Observer 0 ''ann'' 1), (1, Observer 1 ''bob'' 2)], sj_next = 2\<rparr>,
      ch_next_id = 2, ch_dist_sub = True, ch_heartbeat_sub = True, ch_stale_timer = True,
      ch_last_seen = [(''n2'', 5)], ch_node_users = [(''n2'', [''eve''])], ch_pending = [],
      ch_closed = False, ch_settled = True, ch_waiting = 0, ch_random = (\<lambda>n. replicate n CHR ''x''),
      ch_drawn = 3, ch_log = []\<rparr>"

lemma demo_fields [simp]:
  "ch_name demo_chan = ''room''" "ch_endpoint demo_chan = ''/api''" "ch_backend demo_chan = Some 100"
  "ch_leave demo_chan" "ch_assigns demo_chan = [(''ann'', [(''role'', JStr ''host'')]), (''bob'', []), (''eve'', [])]"
  "ch_subs demo_chan = [(''ann'', Observer 0 ''ann'' 1), (''bob'', Observer 1 ''bob'' 2)]"
  "ch_presence demo_chan = Some \<lparr>pe_channel = ''room'',
     pe_cache = [(''ann'', [(''on'', JBool True)]), (''bob'', [])]\<rparr>"
  "sj_observers (ch_publisher demo_chan) = [Observer 0 ''ann'' 1, Observer 1 ''bob'' 2]"
  "\<not> ch_closed demo_chan" "ch_last_seen demo_chan = [(''n2'', 5)]"
  "ch_node_users demo_chan = [(''n2'', [''eve''])]" "ch_pending demo_chan = []" "ch_log demo_chan = []"
  "ch_drawn demo_chan = 3" "ch_random demo_chan = (\<lambda>n. replicate n CHR ''x'')"
  by (simp_all add: demo_chan_def sj_observers_def)

lemmas demo_eval = jm_get_def jm_has_def jm_keys_def jm_set_def jm_delete_def

lemma range_two:
  "a \<noteq> b \<Longrightarrow> {z. \<exists>u. (if u = a then Some x else if u = b then Some y else None) = Some z} = {x, y}"
  by (auto split: if_splits)

lemma demo_chan_ok: "chan_ok demo_chan"
proof -
  have get: "jm_get (ch_subs demo_chan) u = (if u = ''ann'' then Some (Observer 0 ''ann'' 1)
      else if u = ''bob'' then Some (Observer 1 ''bob'' 2) else None)" for u
    by (simp add: demo_eval)
  have "set (sj_observers (ch_publisher demo_chan)) = {ob. \<exists>u. jm_get (ch_subs demo_chan) u = Some ob}"
    unfolding get by (subst range_two) simp_all
  moreover have "ob_user ob = u" if "jm_get (ch_subs demo_chan) u = Some ob" for u ob
    using that unfolding get by (auto split: if_splits)
  moreover have "has_user u demo_chan" if "jm_has (ch_subs demo_chan) u" for u
    using that unfolding jm_has_get get by (auto simp: has_user_def demo_eval split: if_splits)
  moreover have "sj_ok (ch_publisher demo_chan)" "ch_next_id demo_chan = 2"
    by (simp_all add: demo_chan_def sj_ok_def sj_observers_def)
  moreover have "jm_ok (ch_assigns demo_chan)" "jm_ok (ch_subs demo_chan)"
    by (simp_all add: jm_ok_def)
  moreover have "\<forall>ob \<in> set (sj_observers (ch_publisher demo_chan)). ob_id ob < ch_next_id demo_chan"
    by (simp add: \<open>ch_next_id demo_chan = 2\<close>)
  ultimately have "subs_ok demo_chan"
    unfolding subs_ok_def by blast
  moreover have "nodes_ok demo_chan"
    by (auto simp: nodes_ok_def demo_eval jm_ok_def split: if_splits)
  moreover have "presence_ok demo_chan" "life_ok demo_chan"
    by (simp_all add: presence_ok_def pe_ok_def jm_ok_def life_ok_def) (simp_all add: demo_chan_def)
  ultimately show ?thesis by (simp add: chan_ok_def)
qed

theorem sendMessage_delivery_witness:
  "\<exists>es. fst (sendMessage ''ann'' ALL_EXCEPT_SENDER A_BROADCAST ''hi'' [] ''r3'' demo_chan) = emit es demo_chan
    \<and> filter (delivered_to ''bob'') es = [Start_Outgoing 2 ''bob'' (event_of A_BROADCAST ''hi'' [] ''r3'' demo_chan)]
    \<and> filter (delivered_to ''ann'') es = []"
proof -
  have "sendMessage ''ann'' ALL_EXCEPT_SENDER A_BROADCAST ''hi'' [] ''r3'' demo_chan
      = (fst (sendMessage ''ann'' ALL_EXCEPT_SENDER A_BROADCAST ''hi'' [] ''r3'' demo_chan), None)"
    by (rule prod_eqI) (simp_all add: sendMessage_def has_user_def demo_eval getUsersFromRecipients_def SYSTEM_CHANNEL_def)
  from sendMessage_delivery [OF demo_chan_ok _ this] obtain es
    where es: "fst (sendMessage ''ann'' ALL_EXCEPT_SENDER A_BROADCAST ''hi'' [] ''r3'' demo_chan) = emit es demo_chan"
      "\<forall>u. filter (delivered_to u) es =
          (if jm_has (ch_subs demo_chan) u \<and> addressed ALL_EXCEPT_SENDER ''ann'' u
           then [Start_Outgoing (connection_of demo_chan u) u (event_of A_BROADCAST ''hi'' [] ''r3'' demo_chan)]
           else [])"
    by auto
  have "jm_has (ch_subs demo_chan) ''bob''" "connection_of demo_chan ''bob'' = 2"
    by (simp_all add: demo_eval connection_of_def)
  with es show ?thesis by auto
qed

text \<open>
  A message is refused, and then nothing at all happens, exactly when its sender is neither
  a user of the channel nor the channel itself, when the channel excludes itself, when a listed
  recipient is not a user, or when the receiver is neither a list nor a wildcard.
\<close>

theorem sendMessage_refusal:
  "(snd (sendMessage s r a e p rid c) = None \<longleftrightarrow>
      (has_user s c \<or> s = SYSTEM_CHANNEL) \<and>
      (case r of ALL_USERS \<Rightarrow> True | ALL_EXCEPT_SENDER \<Rightarrow> s \<noteq> SYSTEM_CHANNEL
       | Users us \<Rightarrow> list_all (\<lambda>u. has_user u c) us | Other_Receiver x \<Rightarrow> False))
   \<and> (snd (sendMessage s r a e p rid c) = None \<or> fst (sendMessage s r a e p rid c) = c)"
  by (cases r) (auto simp: sendMessage_def getUsersFromRecipients_def ch_users_def has_user_def
      jm_has_keys list_all_iff)

text \<open>
  A message of another node is delivered like a local one: once to each user subscribed here
  whom the descriptor addresses, and it is not sent on. Its action is \<open>BROADCAST\<close> whatever the
  action of the original was.
\<close>

theorem remote_message_delivery:
  assumes ok: "chan_ok c" and body: "dm_body m = USER_MESSAGE s e p rid r"
  shows "\<exists>es. handleDistributedMessage now m c = (emit es c, None)
    \<and> (\<forall>u. filter (delivered_to u) es =
          (if jm_has (ch_subs c) u \<and> addressed r s u
           then [Start_Outgoing (connection_of c u) u (event_of A_BROADCAST e p rid c)] else []))
    \<and> filter is_to_nodes es = []"
proof -
  let ?rs = "remote_recipients r s c"
  have iff: "u \<in> set ?rs \<and> jm_has (ch_subs c) u \<longleftrightarrow> jm_has (ch_subs c) u \<and> addressed r s u" for u
    using remote_addressed subscribed_user [OF ok] by blast
  show ?thesis
  proof (cases "?rs = []")
    case True
    with iff have "\<not> (jm_has (ch_subs c) u \<and> addressed r s u)" for u by fastforce
    with True show ?thesis
      by (intro exI [of _ "[]"]) (auto simp: handleDistributedMessage_def body handleRemoteMessage_def)
  next
    case False
    with ok iff show ?thesis
      by (intro exI [of _ "deliveries (user_event A_BROADCAST e p rid ?rs c) c"])
        (simp add: handleDistributedMessage_def body handleRemoteMessage_def publish_emit delivered_once)
  qed
qed

theorem remote_message_delivery_witness:
  "\<exists>es. handleDistributedMessage 9
       \<lparr>dm_endpoint = ''/api'', dm_channel = ''room'', dm_source = Some ''n2'',
        dm_body = USER_MESSAGE ''CHANNEL'' ''kicked_out'' [] ''r9'' (Users [''bob'', ''eve''])\<rparr> demo_chan
     = (emit es demo_chan, None)
   \<and> filter (delivered_to ''bob'') es = [Start_Outgoing 2 ''bob'' (event_of A_BROADCAST ''kicked_out'' [] ''r9'' demo_chan)]"
proof -
  have "jm_has (ch_subs demo_chan) ''bob''" "connection_of demo_chan ''bob'' = 2"
    by (simp_all add: demo_eval connection_of_def)
  then show ?thesis
    using remote_message_delivery [OF demo_chan_ok, of "\<lparr>dm_endpoint = ''/api'', dm_channel = ''room'',
      dm_source = Some ''n2'', dm_body = USER_MESSAGE ''CHANNEL'' ''kicked_out'' [] ''r9'' (Users [''bob'', ''eve''])\<rparr>"
      "''CHANNEL''" "''kicked_out''" "[]" "''r9''" "Users [''bob'', ''eve'']" 9]
    by auto
qed

end
