(* ===== verification/Channel_Leave.thy ===== *)
theory Channel_Leave
  imports Channel_Props
begin

text \<open>
  Joining, leaving, being removed, and the end of a channel: what \<open>addUser\<close>, \<open>removeUser\<close>,
  \<open>kickUser\<close>, \<open>close\<close> and the cleanup of a silent node do.
\<close>

subsection \<open>Effects of the helpers\<close>

definition leave_effects :: "string \<Rightarrow> chan \<Rightarrow> eff list" where
  "leave_effects u c =
     (case ch_presence c of
        None \<Rightarrow> []
      | Some pe \<Rightarrow> (case pe_remove u (ch_random c (ch_drawn c)) pe of
          Inl _ \<Rightarrow> []
        | Inr (pe', ev) \<Rightarrow> deliveries ev c))"

definition close_effects :: "chan \<Rightarrow> eff list" where
  "close_effects c = (if ch_dist_sub c then [Unsubscribe_Backend] else [])
     @ (if ch_heartbeat_sub c then [Unsubscribe_Heartbeats] else [])
     @ (if ch_stale_timer c then [Clear_Stale_Timer] else [])
     @ map Clear_Timeout (ch_pending c) @ [Delete_Channel (ch_name c)]"

lemma deliveries_cong: "ch_publisher c = ch_publisher d \<Longrightarrow> deliveries ev c = deliveries ev d"
  by (simp add: deliveries_def)

lemma safeRemove_log [simp]: "ch_log (safeRemovePresence u c) = ch_log c @ leave_effects u c"
  by (auto simp: safeRemovePresence_def run_presence_def draw_def leave_effects_def publish_emit
      intro!: deliveries_cong split: option.split sum.split)

lemma leave_effects_upd [simp]: "leave_effects u (c\<lparr>ch_assigns := a\<rparr>) = leave_effects u c"
  by (auto simp: leave_effects_def intro!: deliveries_cong split: option.split sum.split)

lemma close_log [simp]: "ch_log (close c) = ch_log c @ close_effects c"
  by (simp add: close_def Let_def fold_unsubscribe close_effects_def)

lemma close_effects_frame [simp]:
  "close_effects (emit es c) = close_effects c" "close_effects (broadcastToNodes b c) = close_effects c"
  "close_effects (safeRemovePresence u c) = close_effects c"
  "close_effects (drop_subscription u c) = close_effects c"
  "close_effects (c\<lparr>ch_assigns := a\<rparr>) = close_effects c"
  by (simp_all add: close_effects_def)

lemma to_nodes_frame [simp]:
  "to_nodes b (safeRemovePresence u c) = to_nodes b c" "to_nodes b (drop_subscription v c) = to_nodes b c"
  "to_nodes b (c\<lparr>ch_assigns := a\<rparr>) = to_nodes b c"
  by (simp_all add: to_nodes_def)

lemma presence_event_effects:
  "ce_action ev = A_PRESENCE \<Longrightarrow> filter (delivered_to v) (deliveries ev c) = []"
  unfolding filter_deliveries by (simp add: observe_def)

lemma leave_effects_filters [simp]:
  "filter (delivered_to v) (leave_effects u c) = []" "filter is_to_nodes (leave_effects u c) = []"
  "filter is_leave (leave_effects u c) = []"
  by (auto simp: leave_effects_def presence_event_effects pe_remove_def dest: process_Inr(4)
      split: option.split sum.split)

lemma close_effects_filters [simp]:
  "filter (delivered_to v) (close_effects c) = []" "filter is_to_nodes (close_effects c) = []"
  "filter is_leave (close_effects c) = []"
  by (auto simp: close_effects_def filter_empty_conv)

text \<open>The presence event of a departure goes to others only.\<close>

lemma leave_effects_not_self:
  assumes ok: "chan_ok c" and eff: "x \<in> set (leave_effects u c)"
  shows "\<exists>v ev. x = Send (connection_of c v) ev \<and> v \<noteq> u \<and> jm_has (ch_subs c) v \<and> ce_event ev = ''LEAVE''"
proof -
  from eff obtain pe pe' ev where pe: "pe_remove u (ch_random c (ch_drawn c)) pe = Inr (pe', ev)"
    and x: "x \<in> set (deliveries ev c)"
    unfolding leave_effects_def by (auto split: option.split_asm sum.split_asm) metis
  from pe have act: "ce_action ev = A_PRESENCE" "ce_event ev = ''LEAVE''"
    by (auto simp: pe_remove_def dest: process_Inr(4,5))
  from x obtain ob where ob: "ob \<in> set (sj_observers (ch_publisher c))" "x \<in> set (observe ev ob)"
    by (auto simp: deliveries_def)
  then have "x = Send (ob_conn ob) (channel_event.truncate ev)" "ob_user ob \<in> set (ie_recipients ev)"
    by (auto simp: observe_def act split: if_splits)
  moreover have "u \<notin> set (ie_recipients ev)" by (rule pe.removed_not_told [OF pe])
  moreover have "jm_get (ch_subs c) (ob_user ob) = Some ob" using observer_iff [OF ok] ob(1) by blast
  ultimately show ?thesis
    by (intro exI [of _ "ob_user ob"] exI [of _ "channel_event.truncate ev"])
      (auto simp: connection_of_def jm_has_get channel_event.defs act)
qed

subsection \<open>removeUser\<close>

definition removed_core :: "string \<Rightarrow> chan \<Rightarrow> chan" where
  "removed_core u c = drop_subscription u (safeRemovePresence u (c\<lparr>ch_assigns := jm_delete u (ch_assigns c)\<rparr>))"

lemma removed_core_fields [simp]:
  "ch_assigns (removed_core u c) = jm_delete u (ch_assigns c)"
  "ch_subs (removed_core u c) = jm_delete u (ch_subs c)"
  "ch_log (removed_core u c) = ch_log c @ leave_effects u c"
  "ch_leave (removed_core u c) = ch_leave c" "ch_closed (removed_core u c) = ch_closed c"
  "ch_name (removed_core u c) = ch_name c" "ch_backend (removed_core u c) = ch_backend c"
  "close_effects (removed_core u c) = close_effects c" "to_nodes b (removed_core u c) = to_nodes b c"
  by (simp_all add: removed_core_def drop_subs)

lemma removed_core_presence: "presence_of (removed_core u c) = (presence_of c)(u := None)"
  by (simp add: removed_core_def presence_of_safeRemove fun_eq_iff)

lemma removeUser_unfold:
  "getUserData u c = Inr ud \<Longrightarrow> removeUser u skip c =
     (let c3 = emit (if skip then [] else to_nodes (USER_LEFT u) c) (removed_core u c);
          c4 = (if jm_delete u (ch_assigns c) = [] then close c3 else c3)
      in if ch_leave c then emit [Call_Leave ud] c4 else c4)"
  by (simp add: removeUser_def removed_core_def Let_def broadcast_emit ch_users_def)

lemma getUserData_absent:
  "jm_get (ch_assigns c) u = None \<Longrightarrow> presence_of c u = None \<Longrightarrow> removeUser u skip c = c"
  by (simp add: removeUser_def getUserData_def)


lemma demo_bob: "getUserData ''bob'' demo_chan = Inr \<lparr>ud_id = ''bob'', ud_assigns = [], ud_presence = []\<rparr>"
  by (simp add: getUserData_def presence_of_def pe_getPresence_def demo_eval)


lemma closed_removed [simp]:
  "removeUser u again (close d) = close d" "removeUser u again (emit es (close d)) = emit es (close d)"
  by (simp_all add: removeUser_def getUserData_def presence_of_def)

text \<open>
  When the last user leaves, the channel closes: the departure is announced to the present
  users and to the other nodes first, then everything the engine holds outside itself is given
  back, the channel is taken out of its lobby, and only then the leave callback runs. Nothing
  is left to hear a message.
\<close>

theorem last_departure:
  assumes user: "getUserData u c = Inr ud" and last: "set (ch_users c) \<subseteq> {u}"
  shows "let c' = removeUser u skip c in
    ch_closed c' \<and> ch_users c' = [] \<and> ch_subs c' = [] \<and> ch_presence c' = None \<and> ch_pending c' = []
    \<and> ch_node_users c' = [] \<and> \<not> ch_dist_sub c' \<and> \<not> ch_heartbeat_sub c' \<and> \<not> ch_stale_timer c'
    \<and> (\<forall>ev. deliveries ev c' = [])
    \<and> ch_log c' = ch_log c @ leave_effects u c @ (if skip then [] else to_nodes (USER_LEFT u) c)
                   @ close_effects c @ (if ch_leave c then [Call_Leave ud] else [])
    \<and> (\<forall>again. removeUser u again c' = c')"
proof -
  from last have "set (jm_keys (jm_delete u (ch_assigns c))) = {}"
    by (auto simp: ch_users_def jm.keys_del)
  then have "jm_delete u (ch_assigns c) = []" by (simp add: jm_keys_def)
  then have eq: "removeUser u skip c = emit (if ch_leave c then [Call_Leave ud] else [])
      (close (emit (if skip then [] else to_nodes (USER_LEFT u) c) (removed_core u c)))"
    using removeUser_unfold [OF user, of skip] by simp
  show ?thesis
    unfolding Let_def eq by (simp add: ch_users_def deliveries_def)
qed

theorem last_departure_witness:
  "let c = removeUser ''ann'' True (removeUser ''bob'' True (removeUser ''eve'' True demo_chan)) in
   ch_closed c \<and> (\<forall>ev. deliveries ev c = [])"
proof -
  let ?c = "removeUser ''bob'' True (removeUser ''eve'' True demo_chan)"
  have "ch_assigns ?c = [(''ann'', [(''role'', JStr ''host'')])]"
    by (simp add: removeUser_def getUserData_def demo_eval presence_of_def pe_getPresence_def Let_def
        ch_users_def safeRemovePresence_def run_presence_def draw_def pe_remove_def
        processPresenceAction_def publish_emit drop_subscription_def)
  then have "set (ch_users ?c) \<subseteq> {''ann''}"
    "\<exists>ud. getUserData ''ann'' ?c = Inr ud"
    by (simp_all add: ch_users_def demo_eval getUserData_def)
  then show ?thesis
    using last_departure [of "''ann''" ?c _ True] by (auto simp: Let_def)
qed

subsection \<open>addUser\<close>

lemma buildSubscriber_open:
  assumes ok: "chan_ok c" and open_chan: "\<not> ch_closed c"
  shows "\<exists>p. buildSubscriber u conn c =
      (c\<lparr>ch_publisher := p, ch_next_id := Suc (ch_next_id c),
         ch_subs := jm_set u (Observer (ch_next_id c) u conn) (ch_subs c)\<rparr>, None)
    \<and> sj_observers p = sj_observers (ch_publisher c) @ [Observer (ch_next_id c) u conn]"
proof -
  let ?ob = "Observer (ch_next_id c) u conn"
  have "?ob \<notin> set (sj_observers (ch_publisher c))"
  proof
    assume mem: "?ob \<in> set (sj_observers (ch_publisher c))"
    have "\<forall>ob \<in> set (sj_observers (ch_publisher c)). ob_id ob < ch_next_id c"
      using ok by (simp add: chan_ok_def subs_ok_def)
    from bspec [OF this mem] show False by simp
  qed
  moreover have "\<not> sj_closed (ch_publisher c)"
    using ok open_chan by (simp add: chan_ok_def life_ok_def)
  moreover from this obtain p where p: "sj_subscribe ?ob (ch_publisher c) = Inr p"
    using sj.subscribe_open [of "ch_publisher c" ?ob] by auto
  ultimately have "sj_observers p = sj_observers (ch_publisher c) @ [?ob]"
    using sj.subscribed_last [OF p] by simp
  with p show ?thesis
    by (auto simp: buildSubscriber_def)
qed

lemma after_join:
  "(if b \<and> ch_backend d \<noteq> None then afterDistributedReady d else d)
     = d\<lparr>ch_waiting := (if b \<and> ch_backend d \<noteq> None then Suc (ch_waiting d) else ch_waiting d)\<rparr>"
  by (simp add: afterDistributedReady_def)

lemma addUser_open:
  assumes "\<not> has_user u c"
    and "buildSubscriber u conn ((emit [Send conn (ack_event rid c)] c)\<lparr>ch_assigns := jm_set u a (ch_assigns c)\<rparr>)
      = (d, None)"
  shows "addUser u a conn rid c = (broadcastToNodes (USER_JOINED u [] a) (d\<lparr>ch_waiting :=
      (if ch_users c = [] \<and> ch_backend d \<noteq> None then Suc (ch_waiting d) else ch_waiting d)\<rparr>), None)"
  using assms by (simp only: addUser_def Let_def emit_frame if_False and_then_simps after_join)

lemma addUser_result:
  assumes ok: "chan_ok c" and open_chan: "\<not> ch_closed c" and new: "\<not> has_user u c"
  shows "\<exists>p. addUser u a conn rid c = (emit (Send conn (ack_event rid c) # to_nodes (USER_JOINED u [] a) c)
      (c\<lparr>ch_assigns := jm_set u a (ch_assigns c), ch_publisher := p, ch_next_id := Suc (ch_next_id c),
         ch_subs := jm_set u (Observer (ch_next_id c) u conn) (ch_subs c),
         ch_waiting := (if ch_users c = [] \<and> ch_backend c \<noteq> None then Suc (ch_waiting c) else ch_waiting c)\<rparr>), None)
    \<and> sj_observers p = sj_observers (ch_publisher c) @ [Observer (ch_next_id c) u conn]"
proof -
  let ?c2 = "(emit [Send conn (ack_event rid c)] c)\<lparr>ch_assigns := jm_set u a (ch_assigns c)\<rparr>"
  have "chan_ok ?c2"
    using ok add_assigns_ok [of "emit [Send conn (ack_event rid c)] c"] by simp
  from buildSubscriber_open [OF this, of u conn] open_chan obtain p where
    p: "buildSubscriber u conn ?c2 = (?c2\<lparr>ch_publisher := p, ch_next_id := Suc (ch_next_id c),
         ch_subs := jm_set u (Observer (ch_next_id c) u conn) (ch_subs c)\<rparr>, None)"
      "sj_observers p = sj_observers (ch_publisher c) @ [Observer (ch_next_id c) u conn]"
    by auto
  show ?thesis
    unfolding addUser_open [OF new p(1)] using p(2)
    by (intro exI [of _ p]) (simp add: broadcast_emit to_nodes_def emit_def)
qed

text \<open>
  A new user is acknowledged before anything else, becomes the last of the users and the last
  of the observers with a subscription of its own, and is announced to the other nodes; the
  first user of a channel also makes it ask the other nodes for theirs, once the subscription
  to the backend is settled. Users already there keep everything.
\<close>

theorem addUser_joins:
  assumes ok: "chan_ok c" and open_chan: "\<not> ch_closed c" and new: "\<not> has_user u c"
  shows "let c' = fst (addUser u a conn rid c); ob = Observer (ch_next_id c) u conn in
    snd (addUser u a conn rid c) = None
    \<and> ch_users c' = ch_users c @ [u]
    \<and> jm_get (ch_assigns c') = (jm_get (ch_assigns c))(u \<mapsto> a)
    \<and> jm_get (ch_subs c') = (jm_get (ch_subs c))(u \<mapsto> ob)
    \<and> sj_observers (ch_publisher c') = sj_observers (ch_publisher c) @ [ob]
    \<and> ch_waiting c' = (if ch_users c = [] \<and> ch_backend c \<noteq> None then Suc (ch_waiting c) else ch_waiting c)
    \<and> ch_log c' = ch_log c @ Send conn (ack_event rid c) # to_nodes (USER_JOINED u [] a) c"
  using addUser_result [OF assms, of a conn rid] new
  by (auto simp: Let_def ch_users_def jm.get_put jm_keys_set has_user_def simp del: jm_empty)

theorem addUser_joins_witness:
  "ch_users (fst (addUser ''dan'' [] 4 ''r4'' demo_chan)) = [''ann'', ''bob'', ''eve'', ''dan'']"
proof -
  have "\<not> has_user ''dan'' demo_chan" "\<not> ch_closed demo_chan" "ch_users demo_chan = [''ann'', ''bob'', ''eve'']"
    by (simp_all add: has_user_def ch_users_def demo_eval)
  then show ?thesis
    using addUser_joins [OF demo_chan_ok, of "''dan''" "[]" 4 "''r4''"] by (simp add: Let_def)
qed

text \<open>
  On a closed engine (a join that was accepted after the last user had left) the client is
  still told that it joined and is recorded as a user, and only then the exception comes; it
  has no subscription and will not hear anything.
\<close>

theorem addUser_after_close:
  assumes ok: "chan_ok c" and closed: "ch_closed c" and new: "\<not> has_user u c"
  shows "snd (addUser u a conn rid c) = Some (Plain_Error ''Cannot subscribe to a closed subject'')
    \<and> ch_log (fst (addUser u a conn rid c)) = ch_log c @ [Send conn (ack_event rid c)]
    \<and> has_user u (fst (addUser u a conn rid c))
    \<and> deliveries ev (fst (addUser u a conn rid c)) = []"
proof -
  have "sj_closed (ch_publisher c)" "sj_observers (ch_publisher c) = []"
    using ok closed by (simp_all add: chan_ok_def life_ok_def subs_ok_def sj_ok_def sj_observers_def)
  with new show ?thesis
    by (simp add: addUser_def Let_def buildSubscriber_def sj_subscribe_def has_user_def jm_has_set
        deliveries_def)
qed

theorem addUser_after_close_witness:
  "has_user ''dan'' (fst (addUser ''dan'' [] 4 ''r4'' (close demo_chan)))
   \<and> snd (addUser ''dan'' [] 4 ''r4'' (close demo_chan)) \<noteq> None"
  using addUser_after_close [OF close_ok [of demo_chan], of "''dan''" "[]" 4 "''r4''"]
  by (simp add: has_user_def)

end
