(* ===== verification/Channel_Log.thy ===== *)
theory Channel_Log
  imports Channel_Leave
begin

text \<open>
  What every operation of a channel engine has in common: the log only grows, the name, the
  endpoint and the backend stay, and the engine is closed exactly when it was or when it has asked its lobby to
  delete it.
\<close>

definition extends :: "chan \<Rightarrow> chan \<Rightarrow> bool" where
  "extends c d \<longleftrightarrow> ch_name d = ch_name c \<and> ch_leave d = ch_leave c \<and> ch_backend d = ch_backend c
     \<and> ch_endpoint d = ch_endpoint c
     \<and> (\<exists>es. ch_log d = ch_log c @ es \<and> (ch_closed d \<longleftrightarrow> ch_closed c \<or> Delete_Channel (ch_name c) \<in> set es))"

lemma extends_refl [simp]: "extends c c"
  by (auto simp: extends_def intro: exI [of _ "[]"])

lemma extends_trans: "extends c d \<Longrightarrow> extends d e \<Longrightarrow> extends c e"
  unfolding extends_def by (elim conjE exE) (intro conjI exI, auto)

lemma extends_same:
  "ch_name d = ch_name c \<Longrightarrow> ch_leave d = ch_leave c \<Longrightarrow> ch_backend d = ch_backend c \<Longrightarrow>
     ch_endpoint d = ch_endpoint c \<Longrightarrow> ch_closed d = ch_closed c \<Longrightarrow> ch_log d = ch_log c \<Longrightarrow> extends c d"
  by (auto simp: extends_def intro: exI [of _ "[]"])

lemma extends_emit: "\<forall>n. Delete_Channel n \<notin> set es \<Longrightarrow> extends c (emit es c)"
  by (auto simp: extends_def)

lemma no_delete_deliveries: "Delete_Channel n \<notin> set (deliveries ev c)"
  by (auto simp: deliveries_def observe_def)

lemma no_delete_to_nodes: "Delete_Channel n \<notin> set (to_nodes b c)"
  by (auto simp: to_nodes_def)

lemma extends_publish: "extends c (publish ev c)"
  by (simp add: publish_emit extends_emit no_delete_deliveries)

lemma extends_broadcast: "extends c (broadcastToNodes b c)"
  by (simp add: broadcast_emit extends_emit no_delete_to_nodes)

lemma extends_and_then:
  "extends c (fst r) \<Longrightarrow> (\<And>d. extends d (fst (f d))) \<Longrightarrow> extends c (fst (and_then r f))"
  by (cases r; cases "snd r") (auto simp: and_then_def intro: extends_trans)

lemma extends_upd:
  "extends c (c\<lparr>ch_assigns := a\<rparr>)" "extends c (c\<lparr>ch_drawn := n\<rparr>)" "extends c (c\<lparr>ch_presence := p\<rparr>)"
  "extends c (c\<lparr>ch_pending := q\<rparr>)" "extends c (c\<lparr>ch_waiting := n\<rparr>)" "extends c (c\<lparr>ch_settled := b\<rparr>)"
  "extends c (c\<lparr>ch_dist_sub := b\<rparr>)" "extends c (c\<lparr>ch_last_seen := l\<rparr>)" "extends c (c\<lparr>ch_node_users := m\<rparr>)"
  "extends c (c\<lparr>ch_publisher := s, ch_next_id := n, ch_subs := t\<rparr>)"
  by (simp_all add: extends_same)

lemma extends_run_presence: "extends c (fst (run_presence op pe c))"
proof -
  have "extends c (publish ev (c\<lparr>ch_drawn := n, ch_presence := p\<rparr>))" for ev n p
    by (rule extends_trans [OF _ extends_publish]) (simp add: extends_same)
  then show ?thesis
    by (simp add: run_presence_def draw_def extends_upd split: sum.split)
qed

lemma extends_safeRemove: "extends c (safeRemovePresence u c)"
  by (simp add: safeRemovePresence_def extends_run_presence split: option.split)

lemma extends_drop: "extends c (drop_subscription u c)"
  by (simp add: extends_same)

lemma extends_close: "extends c (close c)"
  by (auto simp: extends_def close_effects_def intro: exI [of _ "close_effects c"])

lemma extends_on:
  "extends c d \<Longrightarrow> extends c (safeRemovePresence u d)" "extends c d \<Longrightarrow> extends c (drop_subscription u d)"
  "extends c (c\<lparr>ch_assigns := a\<rparr>)"
  by (rule extends_trans, assumption, rule extends_safeRemove)
    (rule extends_trans, assumption, rule extends_drop, rule extends_upd(1))

lemma extends_sendMessage: "extends c (fst (sendMessage s r a e p rid c))"
  by (auto simp: sendMessage_def intro: extends_trans [OF extends_publish extends_broadcast] split: sum.split)

lemma extends_send_uuid: "extends c (fst (sendMessage_uuid s r a e p c))"
  by (simp add: sendMessage_uuid_def draw_def extends_trans [OF extends_upd(2) extends_sendMessage])

lemma extends_subscriber: "extends c (fst (buildSubscriber u conn c))"
  by (simp add: buildSubscriber_def Let_def extends_upd split: sum.split)

lemma extends_request: "extends c (requestChannelState c)"
  by (simp add: requestChannelState_def extends_broadcast)

lemma extends_after_ready: "extends c (afterDistributedReady c)"
  by (simp add: afterDistributedReady_def extends_request extends_upd)

lemma extends_addUser: "extends c (fst (addUser u a conn rid c))"
proof -
  have "extends c ((emit [Send conn ev] c)\<lparr>ch_assigns := m\<rparr>)" for ev m
    by (rule extends_trans [OF extends_emit extends_upd(1)]) simp
  then have "extends c (fst (buildSubscriber u conn ((emit [Send conn ev] c)\<lparr>ch_assigns := m\<rparr>)))" for ev m
    by (rule extends_trans [OF _ extends_subscriber])
  then show ?thesis
    by (auto simp: addUser_def Let_def intro!: extends_and_then
        intro: extends_trans [OF extends_after_ready extends_broadcast] extends_broadcast)
qed

lemma extends_presence_ops:
  "extends c (fst (trackPresence u d c))" "extends c (fst (updatePresence u d c))"
  "extends c (fst (upsertPresence u d c))" "extends c (fst (removePresence u c))"
  by (auto simp: trackPresence_def updatePresence_def upsertPresence_def removePresence_def
      intro!: extends_and_then extends_run_presence extends_broadcast split: option.split)

lemma extends_updateAssigns: "extends c (fst (updateAssigns u a c))"
  by (auto simp: updateAssigns_def Let_def intro: extends_trans [OF extends_upd(1) extends_broadcast]
      split: option.split)

lemma extends_removeUser: "extends c (removeUser u skip c)"
proof -
  have core: "extends c (removed_core u c)"
    unfolding removed_core_def by (intro extends_on)
  have c3: "extends c (emit (if skip then [] else to_nodes (USER_LEFT u) c) (removed_core u c))"
    by (rule extends_trans [OF core extends_emit]) (simp add: no_delete_to_nodes)
  have leave: "extends d (if ch_leave c then emit [Call_Leave ud] d else d)" for d ud
    by (simp add: extends_emit)
  show ?thesis
  proof (cases "getUserData u c")
    case (Inl e)
    then show ?thesis by (simp add: removeUser_def)
  next
    case (Inr ud)
    define d where "d = emit (if skip then [] else to_nodes (USER_LEFT u) c) (removed_core u c)"
    have "extends c (if jm_delete u (ch_assigns c) = [] then close d else d)"
      using c3 extends_trans [OF c3 extends_close] by (simp add: d_def)
    from extends_trans [OF this leave] show ?thesis
      unfolding removeUser_unfold [OF Inr] Let_def d_def [symmetric] .
  qed
qed

lemma extends_kick: "extends c (fst (kickUser u reason c))"
  by (auto simp: kickUser_def intro!: extends_and_then extends_send_uuid
      extends_trans [OF extends_broadcast extends_removeUser])

lemma extends_destroy: "extends c (fst (destroy reason c))"
  by (auto simp: destroy_def intro!: extends_and_then extends_send_uuid extends_close)

lemma extends_get_user: "extends c (getUserAcrossNodes u c)"
  by (auto simp: getUserAcrossNodes_def draw_def extends_emit
      intro!: extends_trans [OF _ extends_broadcast] intro: extends_same)

lemma extends_timeout: "extends c (user_get_timeout rid c)"
  unfolding user_get_timeout_def by (rule extends_trans [OF extends_upd(4) extends_emit]) simp

lemma extends_ready: "extends c (distributed_ready b c)"
proof -
  have "extends c (emit [Unsubscribe_Backend] (c\<lparr>ch_settled := True\<rparr>))"
    by (rule extends_trans [OF extends_upd(6) extends_emit]) simp
  then show ?thesis
    by (simp add: distributed_ready_def Let_def extends_upd extends_trans [OF extends_upd(6) extends_upd(7)])
qed

lemma extends_waiting: "extends c (run_waiting c)"
  by (simp add: run_waiting_def Let_def extends_upd extends_trans [OF extends_upd(5) extends_request])

lemma extends_track: "extends c (trackNodeUser s u n c)"
  by (simp add: trackNodeUser_def Let_def extends_same split: option.split)

lemma extends_untrack: "extends c (untrackNodeUser s u c)"
  by (simp add: untrackNodeUser_def Let_def extends_upd split: option.split)

lemma extends_fold: "(\<And>x c. extends c (f x c)) \<Longrightarrow> extends c (fold f xs c)"
  by (induction xs arbitrary: c) (auto intro: extends_trans)

lemma extends_forget: "extends c (forget_user u c)"
  unfolding forget_user_def by (rule extends_trans [OF extends_upd(1) extends_safeRemove])

lemma extends_cleanup_node: "extends c (cleanup_node now t e c)"
proof (cases e)
  case (Pair n seen)
  have a: "extends c (d\<lparr>ch_last_seen := l\<rparr>)" if "extends c d" for d l
    by (rule extends_trans [OF that extends_upd(8)])
  have b: "extends c ((fold forget_user us c)\<lparr>ch_node_users := m\<rparr>)" for us m
    by (rule extends_trans [OF extends_fold [OF extends_forget] extends_upd(9)])
  show ?thesis
    by (auto simp: cleanup_node_def Pair Let_def intro!: a b split: option.split)
qed

lemma extends_cleanup: "extends c (cleanupStaleNodes now c)"
  by (simp add: cleanupStaleNodes_def extends_fold extends_cleanup_node split: option.split)

lemma extends_learn: "extends c (trackNodeUser s u n (c\<lparr>ch_assigns := m\<rparr>))"
  by (rule extends_trans [OF extends_upd(1) extends_track])

lemma extends_state_user: "extends c (state_response_user s n x c)"
proof (cases x)
  case (fields u p a)
  then show ?thesis
    by (auto simp: state_response_user_def Let_def extends_learn
        intro: extends_trans [OF extends_learn extends_run_presence])
qed

lemma extends_joined: "extends c (fst (handleRemoteUserJoined s n u p a c))"
  by (auto simp: handleRemoteUserJoined_def Let_def extends_learn
      intro: extends_trans [OF extends_learn extends_run_presence])

lemma extends_left: "extends c (handleRemoteUserLeft s u c)"
  unfolding handleRemoteUserLeft_def
  by (rule extends_on(1) [OF extends_trans [OF extends_upd(1) extends_untrack]])

lemma extends_evict: "extends c (handleRemoteEvictUser u reason c)"
proof -
  define d where "d = (if jm_has (ch_subs c) u then (case draw c of (rid, c') \<Rightarrow>
      publish (user_event A_SYSTEM ''kicked_out'' [(''message'', JStr reason), (''code'', JNum 403)] rid [u] c') c')
    else c)"
  have "extends c (publish ev (c\<lparr>ch_drawn := n\<rparr>))" for ev n
    by (rule extends_trans [OF extends_upd(2) extends_publish])
  then have "extends c d"
    by (simp add: draw_def d_def)
  then have "extends c (d\<lparr>ch_assigns := m\<rparr>)" for m
    by (rule extends_trans [OF _ extends_upd(1)])
  then show ?thesis
    unfolding handleRemoteEvictUser_def Let_def d_def [symmetric] by (intro extends_on(1,2))
qed

lemma extends_user_remove: "extends c (handleRemoteUserRemove s u c)"
proof -
  have "extends c (untrackNodeUser s u (safeRemovePresence u (c\<lparr>ch_assigns := m\<rparr>)))" for m
    by (rule extends_trans [OF extends_on(1) [OF extends_upd(1)] extends_untrack])
  then show ?thesis by (simp add: handleRemoteUserRemove_def extends_removeUser)
qed

lemma extends_response: "extends c (handleRemoteUserGetResponse u rid a p c)"
proof -
  have "extends c (emit [Clear_Timeout rid, Resolve rid d] (c\<lparr>ch_pending := q\<rparr>))" for d q
    by (rule extends_trans [OF extends_upd(4) extends_emit]) simp
  then show ?thesis by (simp add: handleRemoteUserGetResponse_def)
qed

lemma extends_distributed: "extends c (fst (handleDistributedMessage now m c))"
  by (cases "dm_body m")
    (simp_all add: handleDistributedMessage_def handleStateRequest_def extends_broadcast handleStateResponse_def
      extends_fold extends_state_user extends_joined extends_left handleRemoteMessage_def Let_def
      extends_publish handleRemotePresenceUpdate_def extends_run_presence extends_safeRemove
      handleRemoteAssignsUpdate_def extends_upd extends_evict extends_user_remove
      handleRemoteUserGetRequest_def extends_response split: option.split)

lemma chan_exec_extends: "extends c (fst (chan_exec op c))"
  by (cases op)
    (simp_all add: extends_addUser extends_sendMessage extends_presence_ops extends_updateAssigns
      extends_kick requestUserRemoval_def extends_broadcast extends_get_user extends_timeout extends_destroy
      extends_removeUser extends_ready extends_waiting heartbeat_def extends_upd extends_cleanup
      extends_distributed)

end
