(* ===== verification/Channel_Nodes.thy ===== *)
theory Channel_Nodes
  imports Channel_Leave
begin

text \<open>
  A channel that lives on several nodes: evictions, requests for a user of another node, the
  cleanup of a node that stopped sending heartbeats, and the replication of the user tables.
\<close>

subsection \<open>Evictions\<close>

lemma sendMessage_uuid_ok:
  assumes "getUsersFromRecipients r SYSTEM_CHANNEL c = Inr rs"
  shows "sendMessage_uuid SYSTEM_CHANNEL r a e p c =
    (emit (deliveries (user_event a e p (ch_random c (ch_drawn c)) rs c) c
        @ to_nodes (USER_MESSAGE SYSTEM_CHANNEL e p (ch_random c (ch_drawn c)) r) c)
      (c\<lparr>ch_drawn := Suc (ch_drawn c)\<rparr>), None)"
proof -
  have "getUsersFromRecipients r SYSTEM_CHANNEL (c\<lparr>ch_drawn := n\<rparr>) = Inr rs" for n
    using assms by (simp add: getUsersFromRecipients_def ch_users_def)
  then show ?thesis
    by (simp add: sendMessage_uuid_def draw_def sendMessage_def publish_emit broadcast_emit user_event_def
        to_nodes_def)
qed

lemma recipients_all: "getUsersFromRecipients ALL_USERS s c = Inr (ch_users c)"
  by (simp add: getUsersFromRecipients_def)

lemma recipients_one: "has_user u c \<Longrightarrow> getUsersFromRecipients (Users [u]) s c = Inr [u]"
  by (simp add: getUsersFromRecipients_def has_user_def ch_users_def jm_has_keys)

definition kicked_out_payload :: "string \<Rightarrow> obj" where
  "kicked_out_payload reason = [(''message'', JStr reason), (''code'', JNum 403)]"

definition kicked_payload :: "string \<Rightarrow> string \<Rightarrow> obj" where
  "kicked_payload u reason = [(''userId'', JStr u), (''reason'', JStr reason)]"

definition kick_effects :: "string \<Rightarrow> string \<Rightarrow> chan \<Rightarrow> eff list" where
  "kick_effects u reason c =
     deliveries (user_event A_SYSTEM ''kicked_out'' (kicked_out_payload reason) (ch_random c (ch_drawn c)) [u] c) c
     @ to_nodes (USER_MESSAGE SYSTEM_CHANNEL ''kicked_out'' (kicked_out_payload reason)
         (ch_random c (ch_drawn c)) (Users [u])) c
     @ deliveries (user_event A_SYSTEM ''kicked'' (kicked_payload u reason)
         (ch_random c (Suc (ch_drawn c))) (ch_users c) c) c
     @ to_nodes (USER_MESSAGE SYSTEM_CHANNEL ''kicked'' (kicked_payload u reason)
         (ch_random c (Suc (ch_drawn c))) ALL_USERS) c
     @ to_nodes (EVICT_USER u reason) c"

lemma kickUser_eq:
  assumes "has_user u c"
  shows "kickUser u reason c =
    (removeUser u True (emit (kick_effects u reason c) (c\<lparr>ch_drawn := Suc (Suc (ch_drawn c))\<rparr>)), None)"
proof -
  have frame: "to_nodes b (c\<lparr>ch_drawn := n\<rparr>) = to_nodes b c"
      "user_event a e p r rs (emit es (c\<lparr>ch_drawn := n\<rparr>)) = user_event a e p r rs c"
      "ch_users (emit es (c\<lparr>ch_drawn := n\<rparr>)) = ch_users c"
      "(emit es (c\<lparr>ch_drawn := n\<rparr>))\<lparr>ch_drawn := k\<rparr> = emit es (c\<lparr>ch_drawn := k\<rparr>)" for b n a e p r rs es k
    by (simp_all add: to_nodes_def user_event_def ch_users_def emit_def)
  show ?thesis
    unfolding kickUser_def kick_effects_def kicked_out_payload_def [symmetric] kicked_payload_def [symmetric]
    by (simp add: sendMessage_uuid_ok recipients_one [OF assms] recipients_all broadcast_emit frame)
qed

lemma kickUser_stranger:
  "\<not> has_user u c \<Longrightarrow> snd (kickUser u reason c) \<noteq> None
    \<and> fst (kickUser u reason c) = c\<lparr>ch_drawn := Suc (ch_drawn c)\<rparr>"
  by (simp add: kickUser_def sendMessage_uuid_def draw_def sendMessage_def getUsersFromRecipients_def
      ch_users_def has_user_def jm_has_keys)

text \<open>
  C21. An eviction first tells the user alone that it is out, then everybody who is subscribed
  (the user included) that it was kicked, then the other nodes, and only then removes the user
  as a departure the other nodes need not hear of again. The exception the
  method ends with is that of the first message, when the user is not in the channel.
\<close>

theorem kickUser_effects:
  assumes ok: "chan_ok c" and user: "has_user u c"
  shows "\<exists>es rid1 rid2. kickUser u reason c =
      (removeUser u True (emit es (c\<lparr>ch_drawn := Suc (Suc (ch_drawn c))\<rparr>)), None)
    \<and> (\<forall>v. filter (delivered_to v) es =
         (if \<not> jm_has (ch_subs c) v then []
          else (if v = u then [Start_Outgoing (connection_of c v) v
                   (event_of A_SYSTEM ''kicked_out'' (kicked_out_payload reason) rid1 c)] else [])
            @ [Start_Outgoing (connection_of c v) v
                 (event_of A_SYSTEM ''kicked'' (kicked_payload u reason) rid2 c)]))
    \<and> filter is_to_nodes es =
        to_nodes (USER_MESSAGE SYSTEM_CHANNEL ''kicked_out'' (kicked_out_payload reason) rid1 (Users [u])) c
        @ to_nodes (USER_MESSAGE SYSTEM_CHANNEL ''kicked'' (kicked_payload u reason) rid2 ALL_USERS) c
        @ to_nodes (EVICT_USER u reason) c"
  unfolding kickUser_eq [OF user] using subscribed_user [OF ok]
  by (intro exI [of _ "kick_effects u reason c"] exI [of _ "ch_random c (ch_drawn c)"]
      exI [of _ "ch_random c (Suc (ch_drawn c))"])
    (auto simp: kick_effects_def delivered_once [OF ok] ch_users_def has_user_def jm_has_keys)

theorem kickUser_effects_witness:
  "\<exists>c'. kickUser ''bob'' ''spam'' demo_chan = (c', None)"
proof -
  have "has_user ''bob'' demo_chan" by (simp add: has_user_def demo_eval)
  from kickUser_effects [OF demo_chan_ok this, of "''spam''"] show ?thesis by blast
qed

subsection \<open>Requests for users of other nodes\<close>

fun resolves :: "string \<Rightarrow> eff \<Rightarrow> bool" where
  "resolves rid (Resolve rid' d) = (rid = rid')"
| "resolves rid _ = False"

text \<open>
  The first response to a pending request resolves its promise with the user's data and stops
  its timer; a response to a request that is not pending (answered, timed out, asked by another
  node) changes nothing.
\<close>

theorem user_get_answered_once:
  assumes body: "dm_body m = USER_GET_RESPONSE u rid a p"
    and body': "dm_body m' = USER_GET_RESPONSE u' rid a' p'"
    and pending: "rid \<in> set (ch_pending c)"
  shows "let c1 = fst (handleDistributedMessage now m c) in
    ch_log c1 = ch_log c @ [Clear_Timeout rid, Resolve rid (Some \<lparr>ud_id = u, ud_assigns = a, ud_presence = p\<rparr>)]
    \<and> ch_pending c1 = js_remove rid (ch_pending c)
    \<and> handleDistributedMessage now' m' c1 = (c1, None) \<and> \<not> chan_legal (Get_Timeout rid) c1"
  using pending
  by (simp add: handleDistributedMessage_def body body' handleRemoteUserGetResponse_def Let_def)

theorem user_get_answered_once_witness:
  "let c = getUserAcrossNodes ''eve'' demo_chan;
       m = \<lparr>dm_endpoint = ''/api'', dm_channel = ''room'', dm_source = Some ''n2'',
            dm_body = USER_GET_RESPONSE ''eve'' ''xxx'' [] []\<rparr>;
       c1 = fst (handleDistributedMessage 1 m c)
   in handleDistributedMessage 2 m c1 = (c1, None) \<and> ch_pending c1 = []"
proof -
  let ?m = "\<lparr>dm_endpoint = ''/api'', dm_channel = ''room'', dm_source = Some ''n2'',
            dm_body = USER_GET_RESPONSE ''eve'' ''xxx'' [] []\<rparr>"
  have p: "ch_pending (getUserAcrossNodes ''eve'' demo_chan) = [''xxx'']"
    by (simp add: getUserAcrossNodes_def draw_def js_add_def numeral_3_eq_3)
  then have "''xxx'' \<in> set (ch_pending (getUserAcrossNodes ''eve'' demo_chan))" by simp
  from user_get_answered_once [of ?m "''eve''" "''xxx''" "[]" "[]" ?m "''eve''" "[]" "[]", OF _ _ this, of 1 2]
  show ?thesis by (simp add: Let_def p js_remove_def)
qed

text \<open>
  A channel that closes while requests are pending stops their timers and forgets them: their
  promises are not resolved by closing, and neither a response nor a timeout resolves them later.
\<close>

theorem close_abandons_requests:
  assumes pending: "rid \<in> set (ch_pending c)" and body: "dm_body m = USER_GET_RESPONSE u rid a p"
  shows "Clear_Timeout rid \<in> set (close_effects c)
    \<and> filter (resolves rid) (ch_log (close c)) = filter (resolves rid) (ch_log c)
    \<and> handleDistributedMessage now m (close c) = (close c, None)
    \<and> \<not> chan_legal (Get_Timeout rid) (close c)"
  using pending
  by (auto simp: close_effects_def handleDistributedMessage_def body handleRemoteUserGetResponse_def
      filter_empty_conv)

theorem close_abandons_requests_witness:
  "let c = getUserAcrossNodes ''eve'' demo_chan in
   filter (resolves ''xxx'') (ch_log (close c)) = filter (resolves ''xxx'') (ch_log c)
   \<and> \<not> chan_legal (Get_Timeout ''xxx'') (close c)"
proof -
  have "''xxx'' \<in> set (ch_pending (getUserAcrossNodes ''eve'' demo_chan))"
    by (simp add: getUserAcrossNodes_def draw_def js_add_def numeral_3_eq_3)
  from close_abandons_requests [of "''xxx''" _ "\<lparr>dm_endpoint = ''/api'', dm_channel = ''room'',
      dm_source = Some ''n2'', dm_body = USER_GET_RESPONSE ''eve'' ''xxx'' [] []\<rparr>", OF this]
  show ?thesis by (simp add: Let_def)
qed

end
