(* ===== verification/Channel_Replica.thy ===== *)
theory Channel_Replica
  imports Channel_Nodes
begin

text \<open>
  The user tables of a channel on several nodes: the cleanup of a silent node removes exactly
  that node's users, and while two nodes exchange what their operations announce, their tables
  of users, assigns and presences stay equal.
\<close>

subsection \<open>The cleanup of silent nodes\<close>

lemma forget_user_tables:
  "jm_get (ch_assigns (forget_user u c)) = (jm_get (ch_assigns c))(u := None)"
  "presence_of (forget_user u c) = (presence_of c)(u := None)"
  by (simp_all add: forget_user_def jm.get_del presence_of_safeRemove fun_eq_iff)

lemma fold_forget_tables:
  "jm_get (ch_assigns (fold forget_user us c)) v = (if v \<in> set us then None else jm_get (ch_assigns c) v)"
  "presence_of (fold forget_user us c) v = (if v \<in> set us then None else presence_of c v)"
  by (induction us arbitrary: c) (auto simp: forget_user_tables)

lemma fold_forget_backend [simp]: "ch_backend (fold forget_user us c) = ch_backend c"
  by (induction us arbitrary: c) simp_all

definition tracked :: "string \<Rightarrow> string \<Rightarrow> chan \<Rightarrow> bool" where
  "tracked n u c = (case jm_get (ch_node_users c) n of None \<Rightarrow> False | Some us \<Rightarrow> u \<in> set us)"

lemma cleanup_node_tables:
  assumes stale: "seen + t \<le> now"
  shows "jm_get (ch_assigns (cleanup_node now t (n, seen) c)) v
      = (if tracked n v c then None else jm_get (ch_assigns c) v)"
    and "presence_of (cleanup_node now t (n, seen) c) v = (if tracked n v c then None else presence_of c v)"
    and "jm_get (ch_node_users (cleanup_node now t (n, seen) c)) = (jm_get (ch_node_users c))(n := None)"
    and "jm_get (ch_last_seen (cleanup_node now t (n, seen) c)) = (jm_get (ch_last_seen c))(n := None)"
    and "ch_subs (cleanup_node now t (n, seen) c) = ch_subs c"
    and "ch_publisher (cleanup_node now t (n, seen) c) = ch_publisher c"
    and "ch_backend (cleanup_node now t (n, seen) c) = ch_backend c"
  using stale
  by (auto simp: cleanup_node_def Let_def tracked_def fold_forget_tables jm.get_del fun_eq_iff
      split: option.split)

lemma cleanup_node_fresh: "\<not> seen + t \<le> now \<Longrightarrow> cleanup_node now t (n, seen) c = c"
  by (simp add: cleanup_node_def)

definition stale_in :: "(string \<times> nat) list \<Rightarrow> nat \<Rightarrow> nat \<Rightarrow> string \<Rightarrow> bool" where
  "stale_in es t now n = list_ex (\<lambda>(m, seen). m = n \<and> seen + t \<le> now) es"

lemma stale_in_Cons:
  "stale_in ((n, seen) # es) t now m \<longleftrightarrow> (n = m \<and> seen + t \<le> now) \<or> stale_in es t now m"
  by (simp add: stale_in_def)

lemma stale_in_fst: "stale_in es t now n \<Longrightarrow> n \<in> fst ` set es"
  by (force simp: stale_in_def list_ex_iff)

lemma fold_cleanup:
  assumes "distinct (map fst es)"
  shows "(jm_get (ch_assigns (fold (cleanup_node now t) es c)) v
      = (if \<exists>n. stale_in es t now n \<and> tracked n v c then None else jm_get (ch_assigns c) v))
    \<and> (presence_of (fold (cleanup_node now t) es c) v
      = (if \<exists>n. stale_in es t now n \<and> tracked n v c then None else presence_of c v))
    \<and> (jm_get (ch_node_users (fold (cleanup_node now t) es c)) n
      = (if stale_in es t now n then None else jm_get (ch_node_users c) n))
    \<and> (jm_get (ch_last_seen (fold (cleanup_node now t) es c)) n
      = (if stale_in es t now n then None else jm_get (ch_last_seen c) n))
    \<and> ch_subs (fold (cleanup_node now t) es c) = ch_subs c
    \<and> ch_publisher (fold (cleanup_node now t) es c) = ch_publisher c
    \<and> ch_backend (fold (cleanup_node now t) es c) = ch_backend c"
  using assms
proof (induction es arbitrary: c)
  case Nil
  then show ?case by (simp add: stale_in_def)
next
  case (Cons p es)
  obtain m seen where p: "p = (m, seen)" by force
  show ?case
  proof (cases "seen + t \<le> now")
    case False
    with Cons p show ?thesis by (simp add: cleanup_node_fresh stale_in_Cons)
  next
    case True
    let ?d = "cleanup_node now t (m, seen) c"
    note d = cleanup_node_tables [OF True, of m c]
    from Cons.prems p have dist: "distinct (map fst es)" and "m \<notin> fst ` set es" by auto
    then have fresh: "\<not> stale_in es t now m" using stale_in_fst by blast
    have track: "tracked k v ?d \<longleftrightarrow> k \<noteq> m \<and> tracked k v c" for k
      by (simp add: tracked_def d(3))
    define A where "A = (\<exists>k. stale_in es t now k \<and> tracked k v ?d)"
    have ex: "(\<exists>k. stale_in (p # es) t now k \<and> tracked k v c) \<longleftrightarrow> A \<or> tracked m v c"
      unfolding A_def using fresh True by (auto simp: stale_in_Cons track p)
    have st: "stale_in (p # es) t now n \<longleftrightarrow> n = m \<or> stale_in es t now n"
      using True by (auto simp: stale_in_Cons p)
    have fold: "fold (cleanup_node now t) (p # es) c = fold (cleanup_node now t) es ?d"
      by (simp add: p)
    show ?thesis
      unfolding fold ex st
      using Cons.IH [OF dist, of ?d, folded A_def] by (simp add: d)
  qed
qed

text \<open>
  C19. Cleaning up forgets exactly the nodes that were silent for the timeout, and the users that
  were tracked for them, their assigns and presences; users of live nodes and the users
  subscribed here keep everything, and a second cleanup at the same time changes nothing.
\<close>

theorem cleanup_exact:
  assumes ok: "chan_ok c" and backend: "ch_backend c = Some t"
  shows "let c' = cleanupStaleNodes now c; stale = stale_in (ch_last_seen c) t now in
    (\<forall>n. jm_get (ch_last_seen c') n = (if stale n then None else jm_get (ch_last_seen c) n))
    \<and> (\<forall>n. jm_get (ch_node_users c') n = (if stale n then None else jm_get (ch_node_users c) n))
    \<and> (\<forall>u. jm_get (ch_assigns c') u = (if \<exists>n. stale n \<and> tracked n u c then None else jm_get (ch_assigns c) u))
    \<and> (\<forall>u. presence_of c' u = (if \<exists>n. stale n \<and> tracked n u c then None else presence_of c u))
    \<and> (\<forall>u \<in> set (jm_keys (ch_subs c)). jm_get (ch_assigns c') u = jm_get (ch_assigns c) u)
    \<and> ch_subs c' = ch_subs c \<and> ch_publisher c' = ch_publisher c
    \<and> (\<forall>n. \<not> stale_in (ch_last_seen c') t now n)"
proof -
  have "distinct (map fst (ch_last_seen c))"
    using ok by (simp add: chan_ok_def nodes_ok_def jm_ok_def)
  note f = fold_cleanup [OF this, of now t c, folded]
  have eq: "cleanupStaleNodes now c = fold (cleanup_node now t) (ch_last_seen c) c"
    by (simp add: cleanupStaleNodes_def backend)
  have free: "\<not> tracked n u c" if "u \<in> set (jm_keys (ch_subs c))" for n u
    using that ok by (auto simp: tracked_def chan_ok_def nodes_ok_def jm_has_keys split: option.split)
  have "chan_ok (cleanupStaleNodes now c)" by (rule cleanup_ok [OF ok])
  then have ls: "jm_ok (ch_last_seen (cleanupStaleNodes now c))"
    by (simp add: chan_ok_def nodes_ok_def)
  have no: "\<not> stale_in (ch_last_seen (cleanupStaleNodes now c)) t now n" for n
  proof
    assume "stale_in (ch_last_seen (cleanupStaleNodes now c)) t now n"
    then obtain seen where s: "(n, seen) \<in> set (ch_last_seen (cleanupStaleNodes now c))" "seen + t \<le> now"
      by (auto simp: stale_in_def list_ex_iff)
    with ls have "jm_get (ch_last_seen (cleanupStaleNodes now c)) n = Some seen"
      by (simp add: jm_get_def jm_ok_def)
    with f [of _ n] eq have "\<not> stale_in (ch_last_seen c) t now n" "jm_get (ch_last_seen c) n = Some seen"
      by (auto split: if_splits)
    with s(2) show False
      by (auto simp: stale_in_def list_ex_iff jm_get_def dest: map_of_SomeD)
  qed
  show ?thesis
    unfolding Let_def using f free no by (simp add: eq)
qed

theorem cleanup_exact_witness:
  "jm_get (ch_assigns (cleanupStaleNodes 105 demo_chan)) ''eve'' = None
   \<and> jm_get (ch_assigns (cleanupStaleNodes 104 demo_chan)) ''eve'' = Some []"
proof -
  have "stale_in (ch_last_seen demo_chan) 100 105 ''n2''" "\<not> stale_in (ch_last_seen demo_chan) 100 104 n" for n
    by (simp_all add: stale_in_def)
  moreover have "tracked ''n2'' ''eve'' demo_chan" by (simp add: tracked_def demo_eval)
  moreover have "jm_get (ch_assigns demo_chan) ''eve'' = Some []" by (simp add: demo_eval)
  ultimately show ?thesis
    using cleanup_exact [OF demo_chan_ok, of 100 105] cleanup_exact [OF demo_chan_ok, of 100 104]
    by (auto simp: Let_def)
qed

subsection \<open>What a node message does to the tables\<close>

text \<open>
  The abstract view of an engine: the assigns and the presence of each user. Each message of
  another node has a meaning on it.
\<close>

type_synonym tables = "(string \<Rightarrow> obj option) \<times> (string \<Rightarrow> obj option)"

definition tables :: "chan \<Rightarrow> tables" where
  "tables c = (jm_get (ch_assigns c), presence_of c)"

fun apply_body :: "dist_body \<Rightarrow> tables \<Rightarrow> tables" where
  "apply_body (USER_JOINED u p a) (A, P) =
     (if A u \<noteq> None then (A, P)
      else (A(u \<mapsto> a), if p = [] \<or> P u \<noteq> None then P else P(u \<mapsto> p)))"
| "apply_body (USER_LEFT u) (A, P) = (A(u := None), P(u := None))"
| "apply_body (EVICT_USER u reason) (A, P) = (A(u := None), P(u := None))"
| "apply_body (PRESENCE_UPDATE u p) (A, P) = (A, P(u \<mapsto> p))"
| "apply_body (PRESENCE_REMOVED u) (A, P) = (A, P(u := None))"
| "apply_body (ASSIGNS_UPDATE u (Some a) e) (A, P) = (if A u = None then (A, P) else (A(u \<mapsto> a), P))"
| "apply_body b T = T"

lemma apply_body_pair:
  "apply_body (USER_LEFT u) T = ((fst T)(u := None), (snd T)(u := None))"
  "apply_body (EVICT_USER u reason) T = ((fst T)(u := None), (snd T)(u := None))"
  "apply_body (PRESENCE_UPDATE u p) T = (fst T, (snd T)(u \<mapsto> p))"
  "apply_body (PRESENCE_REMOVED u) T = (fst T, (snd T)(u := None))"
  "apply_body (ASSIGNS_UPDATE u (Some a) e) T = (if fst T u = None then T else ((fst T)(u \<mapsto> a), snd T))"
  "apply_body (USER_MESSAGE s e' p' rid r) T = T"
  by (cases T; simp)+

text \<open>The messages an engine announces its own operations with.\<close>

fun announcement :: "dist_body \<Rightarrow> bool" where
  "announcement (USER_JOINED u p a) = True"
| "announcement (USER_LEFT u) = True"
| "announcement (EVICT_USER u reason) = True"
| "announcement (PRESENCE_UPDATE u p) = True"
| "announcement (PRESENCE_REMOVED u) = True"
| "announcement (ASSIGNS_UPDATE u a e) = (a \<noteq> None)"
| "announcement (USER_MESSAGE s e p rid r) = True"
| "announcement b = False"

lemma tables_frame [simp]:
  "tables (emit es c) = tables c" "tables (publish ev c) = tables c"
  "tables (broadcastToNodes b c) = tables c" "tables (trackNodeUser s u n c) = tables c"
  "tables (untrackNodeUser s u c) = tables c" "tables (drop_subscription u c) = tables c"
  "tables (c\<lparr>ch_drawn := k\<rparr>) = tables c"
  by (simp_all add: tables_def presence_of_def fun_eq_iff)

lemma tables_assigns:
  "tables (c\<lparr>ch_assigns := jm_set u a (ch_assigns c)\<rparr>) = ((fst (tables c))(u \<mapsto> a), snd (tables c))"
  "tables (c\<lparr>ch_assigns := jm_delete u (ch_assigns c)\<rparr>) = ((fst (tables c))(u := None), snd (tables c))"
  by (simp_all add: tables_def jm.get_put jm.get_del fun_eq_iff)

lemma tables_set_assigns: "tables (c\<lparr>ch_assigns := m\<rparr>) = (jm_get m, snd (tables c))"
  by (simp add: tables_def fun_eq_iff)

lemma fst_tables: "fst (tables c) = jm_get (ch_assigns c)"
  by (simp add: tables_def)

lemma tables_safeRemove: "tables (safeRemovePresence u c) = (fst (tables c), (snd (tables c))(u := None))"
  by (simp add: tables_def presence_of_safeRemove)

lemma tables_upsert:
  "tables (fst (run_presence (pe_upsert u d) (getOrCreatePresenceEngine c) c))
     = (fst (tables c), (snd (tables c))(u \<mapsto> d))"
  by (simp add: tables_def presence_of_upsert)

text \<open>Running a presence operation: its exception, or the new engine and the event.\<close>

lemma run_presence_None:
  "run_presence op pe c = (c', None) \<Longrightarrow> \<exists>pe' ev. op (ch_random c (ch_drawn c)) pe = Inr (pe', ev)
     \<and> c' = emit (deliveries ev c) (c\<lparr>ch_drawn := Suc (ch_drawn c), ch_presence := Some pe'\<rparr>)"
  by (auto simp: run_presence_def draw_def publish_emit deliveries_def split: sum.splits)

lemma run_presence_Some:
  "run_presence op pe c = (c', Some e) \<Longrightarrow> op (ch_random c (ch_drawn c)) pe = Inl e \<and> c' = c\<lparr>ch_presence := Some pe\<rparr>"
  by (auto simp: run_presence_def draw_def split: sum.splits)

lemma tables_presence: "tables (c\<lparr>ch_presence := Some pe\<rparr>) = (jm_get (ch_assigns c), pe_getPresence pe)"
  by (simp add: tables_def fun_eq_iff)

lemma tables_created: "tables (c\<lparr>ch_presence := Some (getOrCreatePresenceEngine c)\<rparr>) = tables c"
  by (simp add: tables_def presence_of_getOrCreate fun_eq_iff)

lemma tables_track:
  "tables (fst (run_presence (pe_track u d) (getOrCreatePresenceEngine c) c))
     = (fst (tables c), if snd (tables c) u = None then (snd (tables c))(u \<mapsto> d) else snd (tables c))"
proof (cases "snd (tables c) u")
  case None
  then have "presence_of c u = None" by (simp add: tables_def)
  then have "run_presence (pe_track u d) (getOrCreatePresenceEngine c) c
      = run_presence (pe_upsert u d) (getOrCreatePresenceEngine c) c"
    using pe.upsert_law [of u d _ "getOrCreatePresenceEngine c"]
    by (simp add: run_presence_def draw_def presence_of_getOrCreate)
  with None show ?thesis by (simp add: tables_upsert)
next
  case (Some p)
  obtain c' r where run: "run_presence (pe_track u d) (getOrCreatePresenceEngine c) c = (c', r)" by force
  show ?thesis
  proof (cases r)
    case None
    with run run_presence_None obtain x where "pe_track u d (ch_random c (ch_drawn c)) (getOrCreatePresenceEngine c) = Inr x"
      by blast
    with pe.track_law(1) [of u d "ch_random c (ch_drawn c)" "getOrCreatePresenceEngine c"] Some
    show ?thesis by (simp add: presence_of_getOrCreate tables_def)
  next
    case (Some e)
    with run run_presence_Some have "c' = c\<lparr>ch_presence := Some (getOrCreatePresenceEngine c)\<rparr>" by blast
    with run \<open>snd (tables c) u = Some p\<close> show ?thesis by (simp add: tables_created)
  qed
qed

lemma tables_handle:
  assumes "announcement (dm_body m)"
  shows "tables (fst (handleDistributedMessage now m c)) = apply_body (dm_body m) (tables c)"
proof (cases "dm_body m")
  case (USER_JOINED u p a)
  let ?c1 = "trackNodeUser (dm_source m) u now (c\<lparr>ch_assigns := jm_set u a (ch_assigns c)\<rparr>)"
  have "tables ?c1 = ((fst (tables c))(u \<mapsto> a), snd (tables c))" by (simp add: tables_assigns)
  with USER_JOINED show ?thesis
    using tables_track [of u p ?c1]
    by (cases "tables c")
      (auto simp: handleDistributedMessage_def handleRemoteUserJoined_def Let_def has_user_def jm_has_get
        tables_def)
next
  case (ASSIGNS_UPDATE u a e)
  with assms show ?thesis
    by (auto simp: handleDistributedMessage_def handleRemoteAssignsUpdate_def tables_def jm.get_put
        fun_eq_iff split: option.split)
next
  case (USER_MESSAGE s e p rid r)
  then show ?thesis
    by (simp add: handleDistributedMessage_def handleRemoteMessage_def Let_def)
next
  case (EVICT_USER u reason)
  then show ?thesis
    using fst_tables [of c]
    by (cases "tables c")
      (simp add: handleDistributedMessage_def handleRemoteEvictUser_def Let_def tables_safeRemove
        tables_set_assigns draw_def jm.get_del)
qed (use assms in \<open>simp_all add: handleDistributedMessage_def handleRemoteUserLeft_def tables_safeRemove
      tables_assigns handleRemotePresenceUpdate_def tables_upsert\<close>,
    (cases "tables c", simp add: tables_def)+)

subsection \<open>What an operation announces\<close>

fun sent :: "eff list \<Rightarrow> dist_message list" where
  "sent [] = []"
| "sent (To_Nodes m # es) = m # sent es"
| "sent (_ # es) = sent es"

definition announced :: "eff list \<Rightarrow> dist_body list" where
  "announced es = map dm_body (sent es)"

lemma sent_append: "sent (es @ fs) = sent es @ sent fs"
  by (induction es rule: sent.induct) simp_all

lemma sent_none: "filter is_to_nodes es = [] \<Longrightarrow> sent es = []"
  by (induction es rule: sent.induct) simp_all

lemma announced_simps [simp]:
  "announced [] = []" "announced (es @ fs) = announced es @ announced fs"
  "announced (deliveries ev c) = []" "announced (leave_effects u c) = []"
  "announced (close_effects c) = []" "announced [Call_Leave ud] = []"
  "announced (Send conn m # es) = announced es"
  by (simp_all add: announced_def sent_append sent_none)

lemma announced_to_nodes:
  "ch_backend c \<noteq> None \<Longrightarrow> \<not> ch_closed c \<Longrightarrow> announced (to_nodes b c) = [b]"
  by (simp add: announced_def to_nodes_def)

text \<open>Presence belongs to users of the channel.\<close>

definition present_users :: "tables \<Rightarrow> bool" where
  "present_users T \<longleftrightarrow> dom (snd T) \<subseteq> dom (fst T)"

definition mirrored :: "chan \<Rightarrow> chan \<Rightarrow> bool" where
  "mirrored c c' \<longleftrightarrow> (\<exists>es. ch_log c' = ch_log c @ es \<and> list_all announcement (announced es)
     \<and> tables c' = fold apply_body (announced es) (tables c)) \<and> present_users (tables c')"

lemma mirroredI:
  "ch_log c' = ch_log c @ es \<Longrightarrow> list_all announcement (announced es) \<Longrightarrow>
     tables c' = fold apply_body (announced es) (tables c) \<Longrightarrow> present_users (tables c') \<Longrightarrow> mirrored c c'"
  by (auto simp: mirrored_def)

definition replicating :: "chan \<Rightarrow> bool" where
  "replicating c \<longleftrightarrow> chan_ok c \<and> \<not> ch_closed c \<and> ch_backend c \<noteq> None \<and> present_users (tables c)"

lemma mirrored_same: "replicating c \<Longrightarrow> ch_log c' = ch_log c \<Longrightarrow> tables c' = tables c \<Longrightarrow> mirrored c c'"
  by (rule mirroredI [of _ _ "[]"]) (simp_all add: replicating_def)

lemma present_users_upd:
  "present_users T \<Longrightarrow> present_users ((fst T)(u := None), (snd T)(u := None))"
  "present_users T \<Longrightarrow> present_users ((fst T)(u \<mapsto> a), snd T)"
  "present_users T \<Longrightarrow> fst T u \<noteq> None \<Longrightarrow> present_users (fst T, (snd T)(u := d))"
  by (auto simp: present_users_def dom_def split: if_splits)

lemma announced_replicating: "replicating c \<Longrightarrow> announced (to_nodes b c) = [b]"
  by (simp add: replicating_def announced_to_nodes)

lemma mirrored_add:
  assumes "replicating c"
  shows "mirrored c (fst (addUser u a conn rid c))"
proof (cases "has_user u c")
  case True
  then show ?thesis by (auto simp: addUser_def intro: mirrored_same [OF assms])
next
  case False
  with assms have absent: "snd (tables c) u = None" "fst (tables c) u = None"
    by (auto simp: replicating_def present_users_def has_user_def jm_has_get fst_tables)
  obtain p where add: "addUser u a conn rid c = (emit (Send conn (ack_event rid c) # to_nodes (USER_JOINED u [] a) c)
      (c\<lparr>ch_assigns := jm_set u a (ch_assigns c), ch_publisher := p, ch_next_id := Suc (ch_next_id c),
         ch_subs := jm_set u (Observer (ch_next_id c) u conn) (ch_subs c),
         ch_waiting := (if ch_users c = [] \<and> ch_backend c \<noteq> None then Suc (ch_waiting c) else ch_waiting c)\<rparr>), None)"
    using addUser_result [OF _ _ False, of a conn rid] assms by (auto simp: replicating_def)
  have tab: "tables (fst (addUser u a conn rid c)) = ((fst (tables c))(u \<mapsto> a), snd (tables c))"
    unfolding add by (simp add: tables_def jm.get_put presence_of_def fun_eq_iff)
  have log: "ch_log (fst (addUser u a conn rid c)) = ch_log c @ Send conn (ack_event rid c) # to_nodes (USER_JOINED u [] a) c"
    unfolding add by simp
  from absent have "apply_body (USER_JOINED u [] a) (tables c) = ((fst (tables c))(u \<mapsto> a), snd (tables c))"
    by (cases "tables c") simp
  moreover have "present_users ((fst (tables c))(u \<mapsto> a), snd (tables c))"
    using assms by (simp add: replicating_def present_users_upd)
  ultimately show ?thesis
    by (intro mirroredI [OF log]) (simp_all add: announced_replicating [OF assms] tab)
qed

lemma tables_removed: "tables (removed_core u c) = ((fst (tables c))(u := None), (snd (tables c))(u := None))"
  by (simp add: removed_core_def tables_safeRemove tables_assigns)

lemma tables_close: "tables (close c) = (Map.empty, Map.empty)"
  by (simp add: tables_def presence_of_def fun_eq_iff)

text \<open>Closing after the last user loses nothing: no presence is left without its user.\<close>

lemma tables_removeUser:
  assumes user: "getUserData u c = Inr ud" and pres: "present_users (tables c)"
  shows "tables (removeUser u skip c) = ((fst (tables c))(u := None), (snd (tables c))(u := None))"
proof (cases "jm_delete u (ch_assigns c) = []")
  case True
  then have "(fst (tables c))(u := None) = Map.empty"
    by (metis jm.get_del jm_empty(1) fst_tables ext)
  moreover from this pres have "(snd (tables c))(u := None) = Map.empty"
    unfolding present_users_def by (fastforce simp: fun_eq_iff dom_def split: if_splits)
  ultimately show ?thesis
    using True by (simp add: removeUser_unfold [OF user] Let_def tables_close)
next
  case False
  then show ?thesis by (simp add: removeUser_unfold [OF user] Let_def tables_removed)
qed

lemma removeUser_log:
  "getUserData u c = Inr ud \<Longrightarrow> ch_log (removeUser u skip c) = ch_log c @ leave_effects u c
     @ (if skip then [] else to_nodes (USER_LEFT u) c)
     @ (if jm_delete u (ch_assigns c) = [] then close_effects c else [])
     @ (if ch_leave c then [Call_Leave ud] else [])"
  by (simp add: removeUser_unfold Let_def)

lemma mirrored_remove:
  assumes "replicating c"
  shows "mirrored c (removeUser u False c)"
proof (cases "getUserData u c")
  case (Inl e)
  then show ?thesis by (auto simp: removeUser_def intro: mirrored_same [OF assms])
next
  case (Inr ud)
  then show ?thesis
    using tables_removeUser [OF Inr, of False] assms present_users_upd(1)
    by (intro mirroredI [OF removeUser_log [OF Inr]])
      (auto simp: announced_replicating [OF assms] replicating_def apply_body_pair)
qed

lemma mirrored_kick:
  assumes rep: "replicating c"
  shows "mirrored c (fst (kickUser u reason c))"
proof (cases "has_user u c")
  case False
  then show ?thesis using kickUser_stranger [of u c reason] by (auto intro: mirrored_same [OF rep])
next
  case True
  let ?c1 = "emit (kick_effects u reason c) (c\<lparr>ch_drawn := Suc (Suc (ch_drawn c))\<rparr>)"
  from True obtain ud where ud: "getUserData u ?c1 = Inr ud"
    by (auto simp: getUserData_def has_user_def jm_has_get)
  have log: "ch_log (fst (kickUser u reason c)) = ch_log c @ kick_effects u reason c @ leave_effects u ?c1
     @ (if jm_delete u (ch_assigns ?c1) = [] then close_effects ?c1 else [])
     @ (if ch_leave ?c1 then [Call_Leave ud] else [])"
    using removeUser_log [OF ud, of True] by (simp add: kickUser_eq [OF True])
  show ?thesis
    using tables_removeUser [OF ud, of True] rep present_users_upd(1)
    by (intro mirroredI [OF log])
      (auto simp: announced_replicating [OF rep] kick_effects_def kickUser_eq [OF True] apply_body_pair
        replicating_def)
qed

lemma mirrored_update_assigns:
  assumes "replicating c"
  shows "mirrored c (fst (updateAssigns u a c))"
proof (cases "jm_get (ch_assigns c) u")
  case None
  then show ?thesis by (auto simp: updateAssigns_def intro: mirrored_same [OF assms])
next
  case (Some cur)
  have "present_users ((fst (tables c))(u \<mapsto> obj_merge cur a), snd (tables c))"
    using assms by (simp add: replicating_def present_users_upd)
  with Some show ?thesis
    by (intro mirroredI [of _ _ "to_nodes (ASSIGNS_UPDATE u (Some (obj_merge cur a)) None) c"])
      (simp_all add: updateAssigns_def Let_def broadcast_emit announced_replicating [OF assms]
        apply_body_pair tables_assigns fst_tables)
qed

lemma mirrored_message:
  assumes rep: "replicating c"
  shows "mirrored c (fst (sendMessage s r a e p rid c))"
proof (cases "snd (sendMessage s r a e p rid c)")
  case None
  then obtain c' where sm: "sendMessage s r a e p rid c = (c', None)"
    by (cases "sendMessage s r a e p rid c") simp
  from sendMessage_Inr [OF this] obtain rs where
    "c' = emit (deliveries (user_event a e p rid rs c) c @ to_nodes (USER_MESSAGE s e p rid r) c) c"
    by blast
  with sm show ?thesis
    by (intro mirroredI [of _ _ "deliveries (user_event a e p rid rs c) c @ to_nodes (USER_MESSAGE s e p rid r) c"])
      (use rep in \<open>simp_all add: announced_replicating [OF rep] apply_body_pair replicating_def\<close>)
next
  case (Some x)
  have "snd (sendMessage s r a e p rid c) = None \<or> fst (sendMessage s r a e p rid c) = c"
    by (simp add: sendMessage_def split: sum.split)
  with Some show ?thesis by (simp add: mirrored_same [OF rep])
qed

text \<open>The presence operations: an exception leaves the tables and the log alone.\<close>

lemma run_presence_result:
  assumes legal: "\<And>rid pe' ev. op rid pe = Inr (pe', ev) \<Longrightarrow> pe_getPresence pe' = (pe_getPresence pe)(u := d)"
    and here: "tables (c\<lparr>ch_presence := Some pe\<rparr>) = tables c"
    and rep: "replicating c"
    and user: "has_user u c"
    and app: "\<And>T. apply_body b T = (fst T, (snd T)(u := d))" "announcement b"
  shows "mirrored c (fst (and_then (run_presence op pe c) (\<lambda>c. (broadcastToNodes b c, None))))"
proof -
  obtain c' r where run: "run_presence op pe c = (c', r)" by force
  show ?thesis
  proof (cases r)
    case None
    with run run_presence_None obtain pe' ev where op: "op (ch_random c (ch_drawn c)) pe = Inr (pe', ev)"
      and c': "c' = emit (deliveries ev c) (c\<lparr>ch_drawn := Suc (ch_drawn c), ch_presence := Some pe'\<rparr>)"
      by blast
    have frame: "to_nodes b (c\<lparr>ch_drawn := n, ch_presence := q\<rparr>) = to_nodes b c" for n q
      by (simp add: to_nodes_def)
    have "tables (c\<lparr>ch_drawn := n, ch_presence := Some q\<rparr>) = tables (c\<lparr>ch_presence := Some q\<rparr>)" for n q
      by (simp add: tables_def presence_of_def fun_eq_iff)
    with legal [OF op] here have "tables c' = (fst (tables c), (snd (tables c))(u := d))"
      by (simp add: c' tables_presence prod_eq_iff)
    moreover have "present_users (fst (tables c), (snd (tables c))(u := d))"
      using rep user by (intro present_users_upd) (auto simp: replicating_def has_user_def jm_has_get fst_tables)
    ultimately show ?thesis
      using run None by (intro mirroredI [of _ _ "deliveries ev c @ to_nodes b c"])
        (simp_all add: c' broadcast_emit frame announced_replicating [OF rep] app)
  next
    case (Some e)
    with run run_presence_Some have "c' = c\<lparr>ch_presence := Some pe\<rparr>" by blast
    with run Some here show ?thesis by (simp add: mirrored_same [OF rep])
  qed
qed

lemma mirrored_presence:
  assumes rep: "replicating c" and user: "has_user u c"
  shows "mirrored c (fst (trackPresence u d c))" "mirrored c (fst (updatePresence u d c))"
    "mirrored c (fst (upsertPresence u d c))" "mirrored c (fst (removePresence u c))"
proof -
  have up: "pe_upsert u d rid pe = Inr (pe', ev) \<Longrightarrow> pe_getPresence pe' = (pe_getPresence pe)(u := Some d)" for rid pe pe' ev
    using pe.track_law(2) pe.update_law(2) pe.upsert_law by (metis (no_types))
  show "mirrored c (fst (trackPresence u d c))" "mirrored c (fst (updatePresence u d c))"
      "mirrored c (fst (upsertPresence u d c))"
    unfolding trackPresence_def updatePresence_def upsertPresence_def
    by (rule run_presence_result [where u = u and d = "Some d"];
        simp add: tables_created rep user apply_body_pair pe.track_law(2) pe.update_law(2) up)+
  show "mirrored c (fst (removePresence u c))"
  proof (cases "ch_presence c")
    case None
    then show ?thesis by (simp add: removePresence_def mirrored_same [OF rep])
  next
    case (Some pe)
    have "tables (c\<lparr>ch_presence := Some pe\<rparr>) = tables c"
      using Some by (simp add: tables_def presence_of_def fun_eq_iff)
    with Some rep user show ?thesis
      unfolding removePresence_def
      by (simp, intro run_presence_result [where u = u and d = None])
        (simp_all add: apply_body_pair pe.remove_law(2))
  qed
qed

subsection \<open>Replication\<close>

text \<open>
  The operations of an engine that a node starts itself. Presence operations are for users of
  the channel.
\<close>

fun local_op :: "chan_op \<Rightarrow> chan \<Rightarrow> bool" where
  "local_op (Add_User u a conn rid) c = fresh_user u c"
| "local_op (Send_Message s r a e p rid) c = True"
| "local_op (Track_Presence u d) c = has_user u c"
| "local_op (Update_Presence u d) c = has_user u c"
| "local_op (Remove_Presence u) c = has_user u c"
| "local_op (Upsert_Presence u d) c = has_user u c"
| "local_op (Update_Assigns u a) c = True"
| "local_op (Kick_User u reason) c = True"
| "local_op (Remove_User u) c = True"
| "local_op _ c = False"

lemma local_mirrored: "replicating c \<Longrightarrow> local_op op c \<Longrightarrow> mirrored c (fst (chan_exec op c))"
  by (cases op) (simp_all add: mirrored_add mirrored_message mirrored_presence mirrored_update_assigns
      mirrored_kick mirrored_remove)

lemma local_legal: "local_op op c \<Longrightarrow> chan_legal op c"
  by (cases op) simp_all

lemma and_then_frame:
  "(\<And>c. f (fst (g c)) = f c) \<Longrightarrow> f (fst (and_then r g)) = f (fst r)"
  by (cases r; cases "snd r") (auto simp: and_then_def)

lemma buildSubscriber_backend: "ch_backend (fst (buildSubscriber u conn c)) = ch_backend c"
  by (simp add: buildSubscriber_def Let_def split: sum.split)

lemma add_backend: "ch_backend (fst (addUser u a conn rid c)) = ch_backend c"
  by (simp add: addUser_def Let_def and_then_frame [where f = ch_backend] buildSubscriber_backend
      afterDistributedReady_def requestChannelState_def)

lemma message_backend: "ch_backend (fst (sendMessage s r a e p rid c)) = ch_backend c"
  by (simp add: sendMessage_def split: sum.split)

lemma presence_backend:
  "ch_backend (fst (trackPresence u d c)) = ch_backend c" "ch_backend (fst (updatePresence u d c)) = ch_backend c"
  "ch_backend (fst (upsertPresence u d c)) = ch_backend c" "ch_backend (fst (removePresence u c)) = ch_backend c"
  by (simp_all add: trackPresence_def updatePresence_def upsertPresence_def removePresence_def
      and_then_frame [where f = ch_backend] split: option.split)

lemma remove_backend: "ch_backend (removeUser u skip c) = ch_backend c"
  by (simp add: removeUser_def Let_def split: sum.split)

lemma kick_backend: "ch_backend (fst (kickUser u reason c)) = ch_backend c"
  by (simp add: kickUser_def and_then_frame [where f = ch_backend] remove_backend sendMessage_uuid_def
      draw_def message_backend)

lemma chan_exec_backend: "local_op op c \<Longrightarrow> ch_backend (fst (chan_exec op c)) = ch_backend c"
  by (cases op) (simp_all add: add_backend message_backend presence_backend remove_backend kick_backend
      updateAssigns_def Let_def split: option.split)

definition deliver :: "string \<Rightarrow> nat \<Rightarrow> dist_message list \<Rightarrow> chan \<Rightarrow> chan" where
  "deliver node now ms c = fold (\<lambda>m c. fst (handleDistributedMessage now (m\<lparr>dm_source := Some node\<rparr>) c)) ms c"

lemma tables_deliver:
  "list_all (\<lambda>m. announcement (dm_body m)) ms \<Longrightarrow>
     tables (deliver node now ms c) = fold apply_body (map dm_body ms) (tables c)"
  by (induction ms arbitrary: c) (simp_all add: deliver_def tables_handle)

text \<open>
  One node executes an operation while it is open, and what it hands to the backend reaches
  the other node in that order.
\<close>

definition replica_step :: "chan \<times> chan \<Rightarrow> nat \<times> chan_op \<Rightarrow> chan \<times> chan" where
  "replica_step ab op =
     (case (ab, op) of ((a, b), (now, op)) \<Rightarrow>
        if ch_closed a \<or> \<not> local_op op a then (a, b)
        else (let a' = fst (chan_exec op a)
              in (a', deliver (ch_node a) now (sent (drop (length (ch_log a)) (ch_log a'))) b)))"

definition replicas_ok :: "chan \<times> chan \<Rightarrow> bool" where
  "replicas_ok ab \<longleftrightarrow> (case ab of (a, b) \<Rightarrow> chan_ok a \<and> ch_backend a \<noteq> None \<and> present_users (tables a)
     \<and> tables a = tables b)"

lemma replica_step_ok:
  assumes "replicas_ok ab"
  shows "replicas_ok (replica_step ab op)"
proof -
  obtain a b now o' where ab: "ab = (a, b)" "op = (now, o')" by (cases ab, cases op)
  show ?thesis
  proof (cases "ch_closed a \<or> \<not> local_op o' a")
    case True
    with assms show ?thesis by (auto simp: replica_step_def ab)
  next
    case False
    let ?a = "fst (chan_exec o' a)"
    from assms False have rep: "replicating a" and same: "tables a = tables b"
      by (auto simp: replicas_ok_def replicating_def ab)
    from local_mirrored [OF rep, of o'] False have "mirrored a ?a" by simp
    then obtain es where es: "ch_log ?a = ch_log a @ es"
        "list_all announcement (announced es)" "tables ?a = fold apply_body (announced es) (tables a)"
        "present_users (tables ?a)"
      unfolding mirrored_def by blast
    have "tables (deliver (ch_node a) now (sent es) b) = tables ?a"
      using es(2) by (subst tables_deliver) (simp_all add: announced_def list_all_iff es(3) same)
    moreover have "chan_ok ?a" "ch_backend ?a \<noteq> None"
      using False rep chan_exec_ok [of a o'] local_legal [of o' a] chan_exec_backend [of o' a]
      by (auto simp: replicating_def)
    ultimately show ?thesis
      using False es(1,4) by (simp add: replica_step_def replicas_ok_def ab Let_def)
  qed
qed

interpretation replica_run: invariant_machine replica_step replicas_ok
  by unfold_locales (rule replica_step_ok)

text \<open>
  However long a node works on a channel (joins, departures, evictions, messages, assigns,
  presences, down to the departure of the last user), a second node that started with the same
  tables and receives its announcements in order has the same assigns and the same presences.
\<close>

theorem replicas_converge:
  assumes "chan_ok a" "ch_backend a \<noteq> None" "present_users (tables a)" "tables b = tables a"
  shows "case foldl replica_step (a, b) ops of (a', b') \<Rightarrow>
    jm_get (ch_assigns b') = jm_get (ch_assigns a') \<and> presence_of b' = presence_of a'"
proof -
  have "replicas_ok (a, b)" using assms by (simp add: replicas_ok_def)
  from replica_run.run_inv [OF this, of ops] show ?thesis
    by (auto simp: replicas_ok_def tables_def)
qed

theorem replicas_converge_witness:
  "case foldl replica_step (demo_chan, demo_chan)
       [(1, Kick_User ''bob'' ''spam''), (2, Update_Assigns ''ann'' [(''x'', JNull)])] of (a', b') \<Rightarrow>
    jm_get (ch_assigns b') = jm_get (ch_assigns a') \<and> presence_of b' = presence_of a'"
proof -
  have "present_users (tables demo_chan)"
    by (auto simp: present_users_def tables_def presence_of_def pe_getPresence_def demo_eval split: if_splits)
  then show ?thesis
    by (intro replicas_converge [OF demo_chan_ok]) simp_all
qed

text \<open>
  C26. Destroying a channel is not part of it: the node that destroys it empties its tables and
  announces only the message, so the other nodes keep every user it had.
\<close>

theorem destroy_strands_remote_users:
  assumes open_chan: "\<not> ch_closed a" and backend: "ch_backend a \<noteq> None"
  shows "let a' = fst (destroy reason a);
             b' = deliver (ch_node a) now (sent (drop (length (ch_log a)) (ch_log a'))) b
         in ch_users a' = [] \<and> ch_closed a' \<and> tables b' = tables b"
proof -
  obtain d where d: "destroy reason a = (close (emit d (a\<lparr>ch_drawn := Suc (ch_drawn a)\<rparr>)), None)"
    "list_all announcement (announced d)" "list_all (\<lambda>x. \<exists>s e p rid r. x = USER_MESSAGE s e p rid r) (announced d)"
    using announced_to_nodes [OF backend open_chan]
    by (simp add: destroy_def sendMessage_uuid_ok recipients_all)
  have "tables (deliver n now (sent es) b) = tables b"
    if "list_all (\<lambda>x. \<exists>s e p rid r. x = USER_MESSAGE s e p rid r) (announced es)" for es n
  proof -
    have "fold apply_body bs T = T" if "list_all (\<lambda>x. \<exists>s e p rid r. x = USER_MESSAGE s e p rid r) bs" for bs T
      using that by (induction bs) (auto simp: apply_body_pair)
    moreover have "list_all (\<lambda>m. announcement (dm_body m)) (sent es)"
      using that by (auto simp: announced_def list_all_iff)
    ultimately show ?thesis using that by (simp add: tables_deliver announced_def)
  qed
  from this [of "d @ close_effects (emit d (a\<lparr>ch_drawn := Suc (ch_drawn a)\<rparr>))"] d(3) show ?thesis
    unfolding Let_def d(1) by (simp add: ch_users_def)
qed

theorem destroy_strands_remote_users_witness:
  "ch_users (fst (destroy None demo_chan)) = []
   \<and> has_user ''bob'' (deliver ''n1'' 1 (sent (ch_log (fst (destroy None demo_chan)))) demo_chan)"
proof -
  have "ch_node demo_chan = ''n1''" by (simp add: demo_chan_def)
  with destroy_strands_remote_users [of demo_chan None 1 demo_chan] show ?thesis
    by (simp add: Let_def tables_def has_user_def jm_has_get demo_eval)
qed

end
