(* ===== verification/Cluster.thy ===== *)
theory Cluster
  imports Json_Parse Distributor_Props Channel_Log Channel_Replica
begin

text \<open>
  The engines of one channel on the nodes of a cluster, with Redis between them: what a node
  announces is written as a text, published, heard by every listener of its topic, read and
  handled. While the announcements of an operation arrive before the next operation, the tables
  of the open engines stay equal, whichever nodes work, and a message reaches each user it
  addresses once, wherever the user is.
\<close>

subsection \<open>Announcements that can be written\<close>

definition obj_ok :: "obj \<Rightarrow> bool" where
  "obj_ok fs \<longleftrightarrow> json_ok (JObj fs)"

lemma obj_ok_jm: "obj_ok fs \<longleftrightarrow> jm_ok fs \<and> list_all (\<lambda>p. json_ok (snd p)) fs"
  by (simp add: obj_ok_def jm_ok_def)

lemma jm_set_values:
  "list_all (\<lambda>p. json_ok (snd p)) m \<Longrightarrow> json_ok v \<Longrightarrow> list_all (\<lambda>p. json_ok (snd p)) (jm_set k v m)"
  by (induction m) (auto simp: jm_set_def)

lemma obj_merge_values:
  "list_all (\<lambda>p. json_ok (snd p)) a \<Longrightarrow> list_all (\<lambda>p. json_ok (snd p)) b \<Longrightarrow>
     list_all (\<lambda>p. json_ok (snd p)) (obj_merge a b)"
  by (induction b arbitrary: a) (auto simp: obj_merge_Cons jm_set_values)

lemma obj_ok_merge: "obj_ok a \<Longrightarrow> list_all (\<lambda>p. json_ok (snd p)) b \<Longrightarrow> obj_ok (obj_merge a b)"
  by (simp add: obj_ok_jm obj_merge_ok obj_merge_values)

definition body_ok :: "dist_body \<Rightarrow> bool" where
  "body_ok b \<longleftrightarrow> wire_body b \<and> obj_ok (snd (body_fields b))"

lemma body_ok_simps [simp]:
  "body_ok (USER_JOINED u p a) \<longleftrightarrow> obj_ok p \<and> obj_ok a"
  "body_ok (USER_LEFT u)" "body_ok (EVICT_USER u reason)"
  "body_ok (PRESENCE_UPDATE u p) \<longleftrightarrow> obj_ok p" "body_ok (PRESENCE_REMOVED u)"
  "body_ok (ASSIGNS_UPDATE u (Some a) None) \<longleftrightarrow> obj_ok a"
  by (auto simp: body_ok_def wire_body_def obj_ok_def)

lemma body_ok_assigns: "body_ok (ASSIGNS_UPDATE u (Some a) e) \<Longrightarrow> obj_ok a"
  by (cases e) (auto simp: body_ok_def obj_ok_def)

lemma body_ok_message:
  "body_ok (USER_MESSAGE s e p rid r) \<longleftrightarrow> obj_ok p \<and> (\<forall>x. r \<noteq> Other_Receiver x)"
  by (cases r) (auto simp: body_ok_def wire_body_def obj_ok_def list_all_iff)

lemma message_obj_ok: "body_ok (dm_body m) \<Longrightarrow> obj_ok (message_obj m)"
proof -
  assume "body_ok (dm_body m)"
  then have own: "obj_ok (snd (body_fields (dm_body m)))" by (simp add: body_ok_def)
  obtain kind fs where fs: "body_fields (dm_body m) = (kind, fs)" by force
  have free: "k \<notin> fst ` set fs" if "k \<in> set common_fields" for k
    using own_fields [OF that, of "dm_body m"] by (simp add: jm_get_def map_of_eq_None_iff fs)
  have "''type'' \<notin> fst ` set fs" "''endpointName'' \<notin> fst ` set fs" "''channelName'' \<notin> fst ` set fs"
      "''sourceNodeId'' \<notin> fst ` set fs"
    by (rule free, simp add: common_fields_def)+
  then show ?thesis
    using own by (cases "dm_source m") (simp_all add: message_obj_def obj_ok_def fs)
qed

lemma stamp_ok: "body_ok (dm_body m) \<Longrightarrow> json_ok (JObj (stamp rb endpoint now fresh (message_obj m)))"
  unfolding obj_ok_def [symmetric] stamp_def
  by (rule obj_ok_merge) (simp_all add: message_obj_ok message_get nullish_def)

subsection \<open>Redis between the nodes\<close>

text \<open>
  What an engine announces is handed to the backend in order; a backend that is not connected
  throws, which the engine ignores.
\<close>

fun announce :: "nat \<Rightarrow> (nat \<Rightarrow> string) \<Rightarrow> dist_message list \<Rightarrow> redis_backend \<Rightarrow> redis_backend" where
  "announce now fresh [] rb = rb"
| "announce now fresh (m # ms) rb = announce now fresh ms
     (case rb_broadcast (dm_endpoint m) (dm_channel m) (message_obj m) now (fresh (length (rb_log rb))) rb of
        Inr rb' \<Rightarrow> rb'
      | Inl e \<Rightarrow> rb)"

text \<open>A published text reaches the listeners of its topic; an open engine listens on that of its channel.\<close>

definition hear :: "nat \<Rightarrow> redis_backend \<Rightarrow> redis_eff \<Rightarrow> chan \<Rightarrow> chan" where
  "hear now rb x d =
     (case x of
        Redis_Publish key text \<Rightarrow>
          if ch_closed d \<or> key \<noteq> buildKey (ch_endpoint d) (ch_name d) rb then d
          else (case Option.bind (rb_listener JSON_parse rb text) read_message of
                  Some m \<Rightarrow> fst (handleDistributedMessage now m d)
                | None \<Rightarrow> d)
      | _ \<Rightarrow> d)"

lemma rb_emit_frame [simp]:
  "rb_connected (rb_emit es rb) = rb_connected rb" "rb_prefix (rb_emit es rb) = rb_prefix rb"
  "rb_namespace (rb_emit es rb) = rb_namespace rb" "rb_node (rb_emit es rb) = rb_node rb"
  "rb_log (rb_emit es rb) = rb_log rb @ es" "rb_emit es (rb_emit fs rb) = rb_emit (fs @ es) rb"
  by (simp_all add: rb_emit_def)

definition same_topics :: "redis_backend \<Rightarrow> redis_backend \<Rightarrow> bool" where
  "same_topics a b \<longleftrightarrow> rb_prefix b = rb_prefix a \<and> rb_namespace b = rb_namespace a"

lemma same_topics_key: "same_topics a b \<Longrightarrow> buildKey e c b = buildKey e c a"
  by (simp add: same_topics_def buildKey_def Let_def)

lemma same_topics_emit [simp]:
  "same_topics (rb_emit es a) b \<longleftrightarrow> same_topics a b" "same_topics a (rb_emit es b) \<longleftrightarrow> same_topics a b"
  by (simp_all add: same_topics_def)

lemma handle_endpoint: "handleDistributedMessage now (m\<lparr>dm_endpoint := e, dm_source := n\<rparr>) d
    = handleDistributedMessage now (m\<lparr>dm_source := n\<rparr>) d"
  by (cases "dm_body m") (simp_all add: handleDistributedMessage_def)

lemma heard_published:
  assumes "same_topics a b" "ch_endpoint d = dm_endpoint m" "ch_name d = dm_channel m" "body_ok (dm_body m)"
  shows "hear now b (Redis_Publish (buildKey (dm_endpoint m) (dm_channel m) a)
      (json_stringify (JObj (stamp a (dm_endpoint m) now fr (message_obj m))))) d
    = (if ch_closed d \<or> rb_node b = rb_node a then d
       else fst (handleDistributedMessage now (m\<lparr>dm_source := Some (rb_node a)\<rparr>) d))"
proof -
  have "wire_body (dm_body m)" using assms(4) by (simp add: body_ok_def)
  then show ?thesis
    using parse_stringify [OF stamp_ok [OF assms(4), of a "dm_endpoint m" now fr]]
    by (simp add: hear_def same_topics_key [OF assms(1)] assms(2,3) rb_listener_def res_bind_def stamped_valid
        stamp_get stamped_read handle_endpoint)
qed

subsection \<open>What hearing an announcement keeps\<close>

lemma handle_frame:
  "ch_name (fst (handleDistributedMessage now m d)) = ch_name d"
  "ch_endpoint (fst (handleDistributedMessage now m d)) = ch_endpoint d"
  "ch_backend (fst (handleDistributedMessage now m d)) = ch_backend d"
  using extends_distributed [of d now m] by (auto simp: extends_def)

lemma handle_closed:
  "announcement (dm_body m) \<Longrightarrow> ch_closed (fst (handleDistributedMessage now m d)) = ch_closed d"
  by (cases "dm_body m")
    (simp_all add: handleDistributedMessage_def handleRemoteUserJoined_def handleRemoteUserLeft_def Let_def
      handleRemoteMessage_def handleRemotePresenceUpdate_def handleRemoteAssignsUpdate_def
      handleRemoteEvictUser_def draw_def split: option.split)

lemma handle_subs:
  "announcement (dm_body m) \<Longrightarrow> jm_has (ch_subs (fst (handleDistributedMessage now m d))) u \<Longrightarrow> jm_has (ch_subs d) u"
  by (cases "dm_body m")
    (auto simp: handleDistributedMessage_def handleRemoteUserJoined_def handleRemoteUserLeft_def Let_def
      handleRemoteMessage_def handleRemotePresenceUpdate_def handleRemoteAssignsUpdate_def
      handleRemoteEvictUser_def draw_def jm_has_get jm.get_del drop_subs split: option.splits if_splits)

lemma deliver_Cons:
  "deliver n now (m # ms) d = deliver n now ms (fst (handleDistributedMessage now (m\<lparr>dm_source := Some n\<rparr>) d))"
  by (simp add: deliver_def)

lemma deliver_keeps:
  assumes "list_all (\<lambda>m. announcement (dm_body m)) ms"
  shows "ch_name (deliver n now ms d) = ch_name d \<and> ch_endpoint (deliver n now ms d) = ch_endpoint d
    \<and> ch_backend (deliver n now ms d) = ch_backend d \<and> ch_closed (deliver n now ms d) = ch_closed d
    \<and> (jm_has (ch_subs (deliver n now ms d)) u \<longrightarrow> jm_has (ch_subs d) u)"
  using assms
proof (induction ms arbitrary: d)
  case (Cons m ms)
  let ?m = "m\<lparr>dm_source := Some n\<rparr>"
  from Cons.prems have "announcement (dm_body ?m)" by simp
  with Cons.IH [of "fst (handleDistributedMessage now ?m d)"] Cons.prems show ?case
    using handle_subs [of ?m now d u] by (simp add: deliver_Cons handle_frame handle_closed)
qed (simp add: deliver_def)

lemma deliver_ok:
  assumes "list_all (\<lambda>m. announcement (dm_body m)) ms"
    and "\<And>m u. m \<in> set ms \<Longrightarrow> dm_body m = USER_LEFT u \<Longrightarrow> \<not> jm_has (ch_subs d) u"
    and "chan_ok d"
  shows "chan_ok (deliver n now ms d)"
  using assms
proof (induction ms arbitrary: d)
  case (Cons m ms)
  let ?m = "m\<lparr>dm_source := Some n\<rparr>" and ?d = "fst (handleDistributedMessage now (m\<lparr>dm_source := Some n\<rparr>) d)"
  have "sane_message (dm_body ?m) d" using Cons.prems(2) [of m] by (cases "dm_body m") simp_all
  then have "chan_ok ?d" using Cons.prems(3) by (intro distributed_ok) simp_all
  moreover have "\<not> jm_has (ch_subs ?d) u" if "x \<in> set ms" "dm_body x = USER_LEFT u" for x u
    using handle_subs [of ?m now d u] Cons.prems(1) Cons.prems(2) [of x u] that by auto
  ultimately show ?case
    using Cons.IH [of ?d] Cons.prems(1) by (simp add: deliver_Cons)
qed (simp add: deliver_def)

subsection \<open>What an operation of a node announces\<close>

text \<open>
  The operations of the members of a cluster: their values are those \<open>JSON\<close> keeps, and only a
  user who is connected to the node leaves there.
\<close>

fun node_op :: "chan_op \<Rightarrow> chan \<Rightarrow> bool" where
  "node_op (Add_User u a conn rid) c = (fresh_user u c \<and> obj_ok a)"
| "node_op (Send_Message s r a e p rid) c = obj_ok p"
| "node_op (Track_Presence u d) c = (has_user u c \<and> obj_ok d)"
| "node_op (Update_Presence u d) c = (has_user u c \<and> obj_ok d)"
| "node_op (Remove_Presence u) c = has_user u c"
| "node_op (Upsert_Presence u d) c = (has_user u c \<and> obj_ok d)"
| "node_op (Update_Assigns u a) c = obj_ok a"
| "node_op (Kick_User u reason) c = True"
| "node_op (Remove_User u) c = jm_has (ch_subs c) u"
| "node_op _ c = False"

lemma node_op_local: "node_op op c \<Longrightarrow> local_op op c"
  by (cases op) simp_all

definition says_one :: "chan \<Rightarrow> dist_message \<Rightarrow> bool" where
  "says_one c m \<longleftrightarrow> dm_endpoint m = ch_endpoint c \<and> dm_channel m = ch_name c \<and> announcement (dm_body m)
     \<and> body_ok (dm_body m) \<and> (\<forall>u. dm_body m = USER_LEFT u \<longrightarrow> jm_has (ch_subs c) u)"

definition says :: "chan \<Rightarrow> eff list \<Rightarrow> bool" where
  "says c es \<longleftrightarrow> list_all (says_one c) (sent es)"

lemma says_simps [simp]:
  "says c []" "says c (es @ fs) \<longleftrightarrow> says c es \<and> says c fs" "says c (deliveries ev d)"
  "says c (leave_effects u d)" "says c (close_effects d)" "says c [Call_Leave ud]"
  "says c (Send conn m # es) \<longleftrightarrow> says c es"
  by (simp_all add: says_def sent_append sent_none)

lemma says_to_nodes:
  "ch_endpoint d = ch_endpoint c \<Longrightarrow> ch_name d = ch_name c \<Longrightarrow> announcement b \<Longrightarrow> body_ok b \<Longrightarrow>
     (\<And>u. b = USER_LEFT u \<Longrightarrow> jm_has (ch_subs c) u) \<Longrightarrow> says c (to_nodes b d)"
  by (simp add: says_def to_nodes_def says_one_def)

definition adds :: "chan \<Rightarrow> chan \<Rightarrow> bool" where
  "adds c c' \<longleftrightarrow> (\<exists>es. ch_log c' = ch_log c @ es \<and> says c es)"

lemma addsI: "ch_log c' = ch_log c @ es \<Longrightarrow> says c es \<Longrightarrow> adds c c'"
  by (auto simp: adds_def)

lemma adds_same: "ch_log c' = ch_log c \<Longrightarrow> adds c c'"
  by (rule addsI [of _ _ "[]"]) simp_all

lemma adds_presence:
  assumes "announcement b" "body_ok b" "\<And>u. b \<noteq> USER_LEFT u"
  shows "adds c (fst (and_then (run_presence op pe c) (\<lambda>c. (broadcastToNodes b c, None))))"
proof -
  obtain c' r where run: "run_presence op pe c = (c', r)" by force
  show ?thesis
  proof (cases r)
    case None
    with run run_presence_None obtain pe' ev where
      c': "c' = emit (deliveries ev c) (c\<lparr>ch_drawn := Suc (ch_drawn c), ch_presence := Some pe'\<rparr>)"
      by blast
    have "says c (to_nodes b c')"
      using assms by (intro says_to_nodes) (simp_all add: c', blast)
    then show ?thesis
      using run None by (intro addsI [of _ _ "deliveries ev c @ to_nodes b c'"]) (simp_all add: c' broadcast_emit)
  next
    case (Some e)
    with run run_presence_Some have "c' = c\<lparr>ch_presence := Some pe\<rparr>" by blast
    with run Some show ?thesis by (simp add: adds_same)
  qed
qed

lemma adds_remove: "jm_has (ch_subs c) u \<Longrightarrow> adds c (removeUser u False c)"
proof (cases "getUserData u c")
  case (Inr ud)
  assume "jm_has (ch_subs c) u"
  then have "says c (to_nodes (USER_LEFT u) c)" by (intro says_to_nodes) simp_all
  then show ?thesis by (intro addsI [OF removeUser_log [OF Inr]]) simp
qed (simp add: removeUser_def adds_same)

lemma adds_kick: "adds c (fst (kickUser u reason c))"
proof (cases "has_user u c")
  case False
  then show ?thesis using kickUser_stranger [of u c reason] by (auto intro: adds_same)
next
  case True
  let ?c1 = "emit (kick_effects u reason c) (c\<lparr>ch_drawn := Suc (Suc (ch_drawn c))\<rparr>)"
  from True obtain ud where ud: "getUserData u ?c1 = Inr ud"
    by (auto simp: getUserData_def has_user_def jm_has_get)
  have log: "ch_log (fst (kickUser u reason c)) = ch_log c @ kick_effects u reason c @ leave_effects u ?c1
     @ (if jm_delete u (ch_assigns ?c1) = [] then close_effects ?c1 else [])
     @ (if ch_leave ?c1 then [Call_Leave ud] else [])"
    using removeUser_log [OF ud, of True] by (simp add: kickUser_eq [OF True])
  have "says c (kick_effects u reason c)"
    unfolding kick_effects_def says_simps
    by (intro conjI TrueI says_to_nodes; simp add: body_ok_message kicked_out_payload_def kicked_payload_def obj_ok_def)
  then show ?thesis by (intro addsI [OF log]) simp
qed

lemma adds_message: "obj_ok p \<Longrightarrow> adds c (fst (sendMessage s r a e p rid c))"
proof (cases "snd (sendMessage s r a e p rid c)")
  case None
  assume p: "obj_ok p"
  from None obtain c' where sm: "sendMessage s r a e p rid c = (c', None)"
    by (cases "sendMessage s r a e p rid c") simp
  from sendMessage_Inr [OF this] obtain rs where rs: "getUsersFromRecipients r s c = Inr rs"
    "c' = emit (deliveries (user_event a e p rid rs c) c @ to_nodes (USER_MESSAGE s e p rid r) c) c"
    by blast
  have "r \<noteq> Other_Receiver x" for x
    using rs(1) by (auto simp: getUsersFromRecipients_def split: if_splits)
  then have "says c (to_nodes (USER_MESSAGE s e p rid r) c)"
    using p by (intro says_to_nodes) (simp_all add: body_ok_message)
  with sm rs(2) show ?thesis
    by (intro addsI [of _ _ "deliveries (user_event a e p rid rs c) c @ to_nodes (USER_MESSAGE s e p rid r) c"]) simp_all
next
  case (Some x)
  have "snd (sendMessage s r a e p rid c) = None \<or> fst (sendMessage s r a e p rid c) = c"
    by (simp add: sendMessage_def split: sum.split)
  with Some show ?thesis by (simp add: adds_same)
qed

lemma adds_add:
  assumes rep: "replicating c" and ok: "obj_ok a"
  shows "adds c (fst (addUser u a conn rid c))"
proof (cases "has_user u c")
  case True
  then show ?thesis by (auto simp: addUser_def intro: adds_same)
next
  case False
  then obtain p where "addUser u a conn rid c = (emit (Send conn (ack_event rid c) # to_nodes (USER_JOINED u [] a) c)
      (c\<lparr>ch_assigns := jm_set u a (ch_assigns c), ch_publisher := p, ch_next_id := Suc (ch_next_id c),
         ch_subs := jm_set u (Observer (ch_next_id c) u conn) (ch_subs c),
         ch_waiting := (if ch_users c = [] \<and> ch_backend c \<noteq> None then Suc (ch_waiting c) else ch_waiting c)\<rparr>), None)"
    using addUser_result [OF _ _ False, of a conn rid] rep by (auto simp: replicating_def)
  moreover have "says c (to_nodes (USER_JOINED u [] a) c)"
    using ok by (intro says_to_nodes) (simp_all add: obj_ok_def)
  ultimately show ?thesis
    by (intro addsI [of _ _ "Send conn (ack_event rid c) # to_nodes (USER_JOINED u [] a) c"]) simp_all
qed

text \<open>The assigns of a channel are values that \<open>JSON\<close> keeps.\<close>

definition plain :: "tables \<Rightarrow> bool" where
  "plain T \<longleftrightarrow> (\<forall>u a. fst T u = Some a \<longrightarrow> obj_ok a)"

lemma adds_assigns:
  assumes "plain (tables c)" "obj_ok a"
  shows "adds c (fst (updateAssigns u a c))"
proof (cases "jm_get (ch_assigns c) u")
  case (Some cur)
  with assms have "obj_ok (obj_merge cur a)"
    using obj_ok_jm [of a] by (intro obj_ok_merge) (auto simp: plain_def fst_tables)
  then have "says c (to_nodes (ASSIGNS_UPDATE u (Some (obj_merge cur a)) None) c)"
    by (intro says_to_nodes) simp_all
  with Some show ?thesis
    by (intro addsI [of _ _ "to_nodes (ASSIGNS_UPDATE u (Some (obj_merge cur a)) None) c"])
      (simp_all add: updateAssigns_def Let_def broadcast_emit)
qed (simp add: updateAssigns_def adds_same)

lemma op_adds:
  assumes "replicating c" "plain (tables c)" "node_op op c"
  shows "adds c (fst (chan_exec op c))"
  using assms
  by (cases op)
    (auto simp: adds_add adds_message adds_assigns adds_kick adds_remove trackPresence_def updatePresence_def
      upsertPresence_def removePresence_def adds_same intro!: adds_presence split: option.split)

lemma plain_apply:
  assumes "announcement b" "body_ok b" "plain T"
  shows "plain (apply_body b T)"
proof (cases "(b, T)" rule: apply_body.cases)
qed (use assms in \<open>auto simp: plain_def dest: body_ok_assigns split: if_splits\<close>)

lemma remove_subs: "jm_has (ch_subs (removeUser v skip c)) u \<Longrightarrow> jm_has (ch_subs c) u"
proof (cases "getUserData v c")
  case (Inr ud)
  assume "jm_has (ch_subs (removeUser v skip c)) u"
  with Inr show ?thesis
    by (auto simp: removeUser_unfold Let_def removed_core_def drop_subs jm_has_get jm.get_del split: if_splits)
qed (simp add: removeUser_def)

lemma kick_subs: "jm_has (ch_subs (fst (kickUser v reason c))) u \<Longrightarrow> jm_has (ch_subs c) u"
proof (cases "has_user v c")
  case True
  assume "jm_has (ch_subs (fst (kickUser v reason c))) u"
  then show ?thesis using remove_subs by (fastforce simp: kickUser_eq [OF True])
qed (simp add: kickUser_stranger)

lemma op_subs:
  assumes rep: "replicating c" and op: "node_op op c" and sub: "jm_has (ch_subs (fst (chan_exec op c))) u"
  shows "jm_has (ch_subs c) u \<or> \<not> has_user u c"
proof (cases op)
  case (Add_User v a conn rid)
  show ?thesis
  proof (cases "has_user v c")
    case True
    with sub Add_User show ?thesis by (simp add: addUser_def)
  next
    case False
    with addUser_result [OF _ _ False, of a conn rid] rep sub Add_User show ?thesis
      by (auto simp: replicating_def jm_has_set)
  qed
next
  case (Update_Assigns v a)
  with sub show ?thesis by (simp add: updateAssigns_def Let_def split: option.splits)
next
  case (Send_Message s r a e p rid)
  with sub show ?thesis by (simp add: sendMessage_def split: sum.splits if_splits)
qed (use sub op in \<open>auto simp: trackPresence_def updatePresence_def upsertPresence_def removePresence_def
      and_then_frame [where f = ch_subs] dest: remove_subs kick_subs split: option.splits\<close>)

subsection \<open>The cluster\<close>

lemma rb_emit_Nil [simp]: "rb_emit [] rb = rb"
  by (simp add: rb_emit_def)

lemma announce_heard:
  assumes "rb_connected a" "list_all (says_one c) ms"
  shows "\<exists>es. announce now fresh ms a = rb_emit es a
    \<and> (\<forall>b d. same_topics a b \<longrightarrow> ch_endpoint d = ch_endpoint c \<longrightarrow> ch_name d = ch_name c \<longrightarrow>
         fold (hear now b) es d = (if ch_closed d \<or> rb_node b = rb_node a then d else deliver (rb_node a) now ms d))"
  using assms
proof (induction ms arbitrary: a)
  case Nil
  then show ?case by (intro exI [of _ "[]"]) (simp add: deliver_def)
next
  case (Cons m ms)
  let ?x = "Redis_Publish (buildKey (dm_endpoint m) (dm_channel m) a)
      (json_stringify (JObj (stamp a (dm_endpoint m) now (fresh (length (rb_log a))) (message_obj m))))"
  from Cons.prems have m: "says_one c m" by simp
  have "announce now fresh (m # ms) a = announce now fresh ms (rb_emit [?x] a)"
    using Cons.prems(1) by (simp add: rb_broadcast_def)
  moreover obtain es where es: "announce now fresh ms (rb_emit [?x] a) = rb_emit es (rb_emit [?x] a)"
    and rest: "\<And>b d. same_topics a b \<Longrightarrow> ch_endpoint d = ch_endpoint c \<Longrightarrow> ch_name d = ch_name c \<Longrightarrow>
         fold (hear now b) es d = (if ch_closed d \<or> rb_node b = rb_node a then d else deliver (rb_node a) now ms d)"
    using Cons.IH [of "rb_emit [?x] a"] Cons.prems by auto
  moreover have "fold (hear now b) (?x # es) d
      = (if ch_closed d \<or> rb_node b = rb_node a then d else deliver (rb_node a) now (m # ms) d)"
    if "same_topics a b" "ch_endpoint d = ch_endpoint c" "ch_name d = ch_name c" for b d
    using that m heard_published [of a b d m now "fresh (length (rb_log a))"]
    by (simp add: says_one_def rest handle_frame handle_closed deliver_Cons)
  ultimately show ?case by (intro exI [of _ "?x # es"]) simp
qed

text \<open>
  A node of a cluster has its backend and its engine of the channel. It executes an operation
  while its engine is open; what the engine hands to the backend is published, and every node
  (itself included) hears it before anything else happens.
\<close>

record node =
  nd_redis :: redis_backend
  nd_chan :: chan

definition cluster_step :: "(nat \<Rightarrow> string) \<Rightarrow> node list \<Rightarrow> nat \<times> nat \<times> chan_op \<Rightarrow> node list" where
  "cluster_step fresh cl x =
     (case x of (i, now, op) \<Rightarrow>
        if i < length cl \<and> \<not> ch_closed (nd_chan (cl ! i)) \<and> node_op op (nd_chan (cl ! i))
        then (let c = nd_chan (cl ! i);
                  c' = fst (chan_exec op c);
                  rb = nd_redis (cl ! i);
                  rb' = announce now fresh (sent (drop (length (ch_log c)) (ch_log c'))) rb;
                  published = drop (length (rb_log rb)) (rb_log rb')
              in map (\<lambda>nd. nd\<lparr>nd_chan := fold (hear now (nd_redis nd)) published (nd_chan nd)\<rparr>)
                   (cl[i := \<lparr>nd_redis = rb', nd_chan = c'\<rparr>]))
        else cl)"

text \<open>The nodes of a channel, each with a new engine.\<close>

definition new_cluster ::
    "string \<Rightarrow> string \<Rightarrow> nat \<Rightarrow> bool \<Rightarrow> (redis_backend \<times> (nat \<Rightarrow> string)) list \<Rightarrow> node list" where
  "new_cluster name endpoint timeout leave nodes =
     map (\<lambda>(rb, random). \<lparr>nd_redis = rb, nd_chan = new_channel name endpoint (Some timeout) leave random\<rparr>) nodes"

definition node_ok :: "node \<Rightarrow> bool" where
  "node_ok nd \<longleftrightarrow> rb_connected (nd_redis nd)
     \<and> (\<not> ch_closed (nd_chan nd) \<longrightarrow> replicating (nd_chan nd) \<and> plain (tables (nd_chan nd)))"

definition linked :: "node \<Rightarrow> node \<Rightarrow> bool" where
  "linked n m \<longleftrightarrow> same_topics (nd_redis n) (nd_redis m) \<and> rb_node (nd_redis n) \<noteq> rb_node (nd_redis m)
     \<and> ch_endpoint (nd_chan n) = ch_endpoint (nd_chan m) \<and> ch_name (nd_chan n) = ch_name (nd_chan m)
     \<and> (\<not> ch_closed (nd_chan n) \<longrightarrow> \<not> ch_closed (nd_chan m) \<longrightarrow> tables (nd_chan n) = tables (nd_chan m)
          \<and> (\<forall>u. \<not> (jm_has (ch_subs (nd_chan n)) u \<and> jm_has (ch_subs (nd_chan m)) u)))"

definition cluster_ok :: "node list \<Rightarrow> bool" where
  "cluster_ok cl \<longleftrightarrow> (\<forall>i < length cl. node_ok (cl ! i))
     \<and> (\<forall>i < length cl. \<forall>j < length cl. i \<noteq> j \<longrightarrow> linked (cl ! i) (cl ! j))"

text \<open>What one step does to the node that works, and to another.\<close>

lemma step_nodes:
  assumes ok: "cluster_ok cl" and i: "i < length cl" "\<not> ch_closed (nd_chan (cl ! i))" "node_op op (nd_chan (cl ! i))"
  obtains ms es where "list_all (says_one (nd_chan (cl ! i))) ms"
    "ms = sent (drop (length (ch_log (nd_chan (cl ! i)))) (ch_log (fst (chan_exec op (nd_chan (cl ! i))))))"
    "cluster_step fresh cl (i, now, op) ! i
       = \<lparr>nd_redis = rb_emit es (nd_redis (cl ! i)), nd_chan = fst (chan_exec op (nd_chan (cl ! i)))\<rparr>"
    "\<And>j. j < length cl \<Longrightarrow> j \<noteq> i \<Longrightarrow> cluster_step fresh cl (i, now, op) ! j
       = (cl ! j)\<lparr>nd_chan := if ch_closed (nd_chan (cl ! j)) then nd_chan (cl ! j)
           else deliver (rb_node (nd_redis (cl ! i))) now ms (nd_chan (cl ! j))\<rparr>"
proof -
  let ?c = "nd_chan (cl ! i)" and ?rb = "nd_redis (cl ! i)"
  let ?c' = "fst (chan_exec op ?c)"
  define ms where "ms = sent (drop (length (ch_log ?c)) (ch_log ?c'))"
  from ok i have node: "rb_connected ?rb" "replicating ?c" "plain (tables ?c)"
    by (auto simp: cluster_ok_def node_ok_def)
  from op_adds [OF node(2,3) i(3)] have says: "list_all (says_one ?c) ms"
    by (auto simp: adds_def says_def ms_def)
  from announce_heard [OF node(1) says, of now fresh] obtain es
    where es: "announce now fresh ms ?rb = rb_emit es ?rb"
    and hear: "\<And>b d. same_topics ?rb b \<Longrightarrow> ch_endpoint d = ch_endpoint ?c \<Longrightarrow> ch_name d = ch_name ?c \<Longrightarrow>
         fold (hear now b) es d = (if ch_closed d \<or> rb_node b = rb_node ?rb then d else deliver (rb_node ?rb) now ms d)"
    by blast
  have step: "cluster_step fresh cl (i, now, op)
      = map (\<lambda>nd. nd\<lparr>nd_chan := fold (hear now (nd_redis nd)) es (nd_chan nd)\<rparr>)
          (cl[i := \<lparr>nd_redis = rb_emit es ?rb, nd_chan = ?c'\<rparr>])"
    using i by (simp add: cluster_step_def Let_def ms_def [symmetric] es)
  have frame: "ch_endpoint ?c' = ch_endpoint ?c" "ch_name ?c' = ch_name ?c"
    using chan_exec_extends [of ?c op] by (simp_all add: extends_def)
  have "fold (hear now (rb_emit es ?rb)) es ?c' = ?c'"
    using hear [of "rb_emit es ?rb" ?c'] by (simp add: frame same_topics_def)
  then have "cluster_step fresh cl (i, now, op) ! i = \<lparr>nd_redis = rb_emit es ?rb, nd_chan = ?c'\<rparr>"
    using i(1) by (simp add: step)
  moreover have "cluster_step fresh cl (i, now, op) ! j = (cl ! j)\<lparr>nd_chan := if ch_closed (nd_chan (cl ! j)) then nd_chan (cl ! j)
           else deliver (rb_node ?rb) now ms (nd_chan (cl ! j))\<rparr>" if j: "j < length cl" "j \<noteq> i" for j
  proof -
    from ok i(1) j have "linked (cl ! i) (cl ! j)" by (simp add: cluster_ok_def)
    then show ?thesis
      using j i(1) hear [of "nd_redis (cl ! j)" "nd_chan (cl ! j)"] by (auto simp: step linked_def)
  qed
  ultimately show ?thesis using that [OF says ms_def] by blast
qed

subsection \<open>Every step keeps the replicas equal\<close>

lemma plain_fold: "list_all (says_one c) ms \<Longrightarrow> plain T \<Longrightarrow> plain (fold apply_body (map dm_body ms) T)"
  by (induction ms arbitrary: T) (simp_all add: says_one_def plain_apply)

lemma op_replicates:
  assumes rep: "replicating c" and plain: "plain (tables c)" and op: "node_op op c"
    and ms: "ms = sent (drop (length (ch_log c)) (ch_log (fst (chan_exec op c))))" "list_all (says_one c) ms"
  shows "tables (fst (chan_exec op c)) = fold apply_body (map dm_body ms) (tables c)"
    and "present_users (tables (fst (chan_exec op c)))" "plain (tables (fst (chan_exec op c)))"
    and "\<not> ch_closed (fst (chan_exec op c)) \<Longrightarrow> replicating (fst (chan_exec op c))"
proof -
  let ?c = "fst (chan_exec op c)"
  obtain es where es: "ch_log ?c = ch_log c @ es" "tables ?c = fold apply_body (announced es) (tables c)"
      and present: "present_users (tables ?c)"
    using local_mirrored [OF rep node_op_local [OF op]] unfolding mirrored_def by blast
  show tab: "tables ?c = fold apply_body (map dm_body ms) (tables c)"
    using es by (simp add: ms(1) announced_def)
  show "present_users (tables ?c)" by (rule present)
  show "plain (tables ?c)" unfolding tab by (rule plain_fold [OF ms(2) plain])
  show "replicating ?c" if "\<not> ch_closed ?c"
    using that rep present chan_exec_ok [OF _ local_legal [OF node_op_local [OF op]]]
      chan_exec_backend [OF node_op_local [OF op]]
    by (simp add: replicating_def)
qed

lemma says_announcements: "list_all (says_one c) ms \<Longrightarrow> list_all (\<lambda>m. announcement (dm_body m)) ms"
  by (auto simp: list_all_iff says_one_def)

text \<open>Another node, which has the same tables and other subscribers, follows.\<close>

lemma deliver_follows:
  assumes rep: "replicating d" and same: "tables d = tables c" and apart: "\<And>u. \<not> (jm_has (ch_subs c) u \<and> jm_has (ch_subs d) u)"
    and says: "list_all (says_one c) ms" and present: "present_users (fold apply_body (map dm_body ms) (tables c))"
  shows "tables (deliver n now ms d) = fold apply_body (map dm_body ms) (tables c)"
    and "replicating (deliver n now ms d)"
proof -
  note ann = says_announcements [OF says]
  show tab: "tables (deliver n now ms d) = fold apply_body (map dm_body ms) (tables c)"
    using tables_deliver [OF ann] by (simp add: same)
  have "chan_ok (deliver n now ms d)"
    using says apart rep by (intro deliver_ok [OF ann]) (auto simp: list_all_iff says_one_def replicating_def)
  then show "replicating (deliver n now ms d)"
    using deliver_keeps [OF ann, of n now d] rep present by (simp add: replicating_def tab)
qed

lemma linked_sym: "linked n m \<Longrightarrow> linked m n"
  by (auto simp: linked_def same_topics_def)

lemma length_step [simp]: "length (cluster_step fresh cl x) = length cl"
  by (cases x) (simp add: cluster_step_def Let_def)

lemma cluster_step_ok:
  assumes ok: "cluster_ok cl"
  shows "cluster_ok (cluster_step fresh cl x)"
proof -
  obtain i now op where x: "x = (i, now, op)" by (cases x)
  show ?thesis
  proof (cases "i < length cl \<and> \<not> ch_closed (nd_chan (cl ! i)) \<and> node_op op (nd_chan (cl ! i))")
    case False
    with ok show ?thesis by (auto simp: x cluster_step_def)
  next
    case True
    let ?cl = "cluster_step fresh cl (i, now, op)" and ?c = "nd_chan (cl ! i)" and ?a = "nd_redis (cl ! i)"
    let ?c' = "fst (chan_exec op ?c)"
    from True obtain ms es where says: "list_all (says_one ?c) ms"
      and ms: "ms = sent (drop (length (ch_log ?c)) (ch_log ?c'))"
      and here: "?cl ! i = \<lparr>nd_redis = rb_emit es ?a, nd_chan = ?c'\<rparr>"
      and there: "\<And>j. j < length cl \<Longrightarrow> j \<noteq> i \<Longrightarrow> ?cl ! j = (cl ! j)\<lparr>nd_chan := if ch_closed (nd_chan (cl ! j))
           then nd_chan (cl ! j) else deliver (rb_node ?a) now ms (nd_chan (cl ! j))\<rparr>"
      using step_nodes [OF ok, of i op fresh now] by blast
    from ok True have node: "rb_connected ?a" "replicating ?c" "plain (tables ?c)"
      by (auto simp: cluster_ok_def node_ok_def)
    note op = op_replicates [OF node(2,3) _ ms says]
    note keeps = deliver_keeps [OF says_announcements [OF says]]
    have frame: "ch_endpoint ?c' = ch_endpoint ?c" "ch_name ?c' = ch_name ?c"
      using chan_exec_extends [of ?c op] by (simp_all add: extends_def)
    have link: "linked (cl ! j) (cl ! k)" if "j < length cl" "k < length cl" "j \<noteq> k" for j k
      using ok that by (simp add: cluster_ok_def)
    have follows: "tables (nd_chan (?cl ! j)) = tables ?c' \<and> replicating (nd_chan (?cl ! j))"
      if j: "j < length cl" "j \<noteq> i" "\<not> ch_closed (nd_chan (cl ! j))" for j
    proof -
      have rep: "replicating (nd_chan (cl ! j))" using ok j by (simp add: cluster_ok_def node_ok_def)
      have l: "tables (nd_chan (cl ! j)) = tables ?c" "\<And>u. \<not> (jm_has (ch_subs ?c) u \<and> jm_has (ch_subs (nd_chan (cl ! j))) u)"
        using link [of i j] j True by (auto simp: linked_def)
      have "present_users (fold apply_body (map dm_body ms) (tables ?c))"
        using op(1,2) True by simp
      from deliver_follows [OF rep l says this] show ?thesis
        using j op(1) True by (simp add: there)
    qed
    have other: "nd_redis (?cl ! j) = nd_redis (cl ! j) \<and> ch_closed (nd_chan (?cl ! j)) = ch_closed (nd_chan (cl ! j))
        \<and> ch_endpoint (nd_chan (?cl ! j)) = ch_endpoint (nd_chan (cl ! j))
        \<and> ch_name (nd_chan (?cl ! j)) = ch_name (nd_chan (cl ! j))"
      and fewer: "jm_has (ch_subs (nd_chan (?cl ! j))) u \<Longrightarrow> jm_has (ch_subs (nd_chan (cl ! j))) u"
      if "j < length cl" "j \<noteq> i" for j u
      using keeps [of "rb_node ?a" now "nd_chan (cl ! j)" u] by (auto simp: there [OF that] split: if_splits)
    have "node_ok (?cl ! j)" if j: "j < length cl" for j
    proof (cases "j = i")
      case True
      then show ?thesis using op node(1) \<open>i < length cl \<and> _\<close> by (simp add: here node_ok_def)
    next
      case False
      have "rb_connected (nd_redis (cl ! j))" using ok j by (simp add: cluster_ok_def node_ok_def)
      then show ?thesis
        using follows [OF j False] op(3) True other [OF j False] by (simp add: node_ok_def)
    qed
    moreover have "linked (?cl ! i) (?cl ! j)" if j: "j < length cl" "j \<noteq> i" for j
    proof -
      have subs: "\<not> (jm_has (ch_subs ?c') u \<and> jm_has (ch_subs (nd_chan (?cl ! j))) u)"
        if "\<not> ch_closed (nd_chan (cl ! j))" for u
      proof
        assume both: "jm_has (ch_subs ?c') u \<and> jm_has (ch_subs (nd_chan (?cl ! j))) u"
        then have sub: "jm_has (ch_subs (nd_chan (cl ! j))) u"
          using fewer [OF j] by blast
        moreover have "chan_ok (nd_chan (cl ! j))" "tables (nd_chan (cl ! j)) = tables ?c"
          using ok link [of i j] j that True by (auto simp: cluster_ok_def node_ok_def linked_def replicating_def)
        ultimately have "has_user u ?c"
          using subscribed_user by (metis has_user_def jm_has_get fst_tables)
        with op_subs [OF node(2)] True both have "jm_has (ch_subs ?c) u" by blast
        with sub link [of i j] j that True show False by (auto simp: linked_def)
      qed
      then show ?thesis
        using link [of i j] j follows [OF j] True other [OF j]
        by (auto simp: here linked_def frame)
    qed
    moreover have "linked (?cl ! j) (?cl ! k)" if "j < length cl" "k < length cl" "j \<noteq> k" "j \<noteq> i" "k \<noteq> i" for j k
    proof -
      have "linked (cl ! j) (cl ! k)" by (rule link) (use that in auto)
      then show ?thesis
        using follows [of j] follows [of k] that other [of j] other [of k] fewer [of j] fewer [of k]
        by (simp add: linked_def) blast
    qed
    ultimately show ?thesis
      unfolding x cluster_ok_def length_step by (metis linked_sym)
  qed
qed

interpretation cluster_run: invariant_machine "cluster_step fresh" cluster_ok for fresh
  by unfold_locales (rule cluster_step_ok)

lemma new_cluster_ok:
  assumes "list_all (\<lambda>(rb, r). rb_connected rb \<and> rb_prefix rb = p \<and> rb_namespace rb = ns) nodes"
    and "distinct (map (\<lambda>(rb, r). rb_node rb) nodes)"
  shows "cluster_ok (new_cluster name endpoint timeout leave nodes)"
proof -
  define new where "new r = new_channel name endpoint (Some timeout) leave r" for r
  have new: "tables (new r) = (Map.empty, Map.empty)" "ch_subs (new r) = []" "ch_name (new r) = name"
      "ch_endpoint (new r) = endpoint" "\<not> ch_closed (new r)" "ch_backend (new r) = Some timeout" "chan_ok (new r)" for r
    using new_channel_ok [of name endpoint "Some timeout" leave r]
    by (simp_all add: new_def) (simp_all add: new_channel_def tables_def presence_of_def fun_eq_iff)
  then have fresh: "replicating (new r)" "plain (tables (new r))" for r
    by (simp_all add: replicating_def plain_def present_users_def)
  have eq: "new_cluster name endpoint timeout leave nodes = map (\<lambda>(rb, r). \<lparr>nd_redis = rb, nd_chan = new r\<rparr>) nodes"
    by (simp add: new_cluster_def new_def)
  have "node_ok (new_cluster name endpoint timeout leave nodes ! i)" if "i < length nodes" for i
    using assms(1) that fresh by (auto simp: eq node_ok_def list_all_length split: prod.split)
  moreover have "linked (new_cluster name endpoint timeout leave nodes ! i) (new_cluster name endpoint timeout leave nodes ! j)"
    if ij: "i < length nodes" "j < length nodes" "i \<noteq> j" for i j
  proof -
    obtain a r b q where n: "nodes ! i = (a, r)" "nodes ! j = (b, q)" by force
    have "map (\<lambda>(rb, r). rb_node rb) nodes ! i \<noteq> map (\<lambda>(rb, r). rb_node rb) nodes ! j"
      using assms(2) ij by (subst nth_eq_iff_index_eq) simp_all
    then have "rb_node a \<noteq> rb_node b" using ij by (simp add: n)
    moreover have "rb_prefix a = rb_prefix b" "rb_namespace a = rb_namespace b"
      using assms(1) [unfolded list_all_length, rule_format, of i] assms(1) [unfolded list_all_length, rule_format, of j] ij n
      by simp_all
    ultimately show ?thesis using ij by (simp add: eq linked_def same_topics_def n new)
  qed
  ultimately show ?thesis by (simp add: cluster_ok_def eq)
qed


text \<open>Two nodes: a user joins on each, and the second evicts the user of the first.\<close>

definition demo_cluster :: "(redis_backend \<times> (nat \<Rightarrow> string)) list" where
  "demo_cluster = [(demo_node ''A'', \<lambda>n. replicate n CHR ''a''), (demo_node ''B'', \<lambda>n. replicate n CHR ''b'')]"

lemma demo_cluster_ok:
  "list_all (\<lambda>(rb, random). rb_connected rb \<and> rb_prefix rb = ''pondsocket'' \<and> rb_namespace rb = ''default'') demo_cluster"
  "distinct (map (\<lambda>(rb, random). rb_node rb) demo_cluster)"
  by (simp_all add: demo_cluster_def demo_node_def new_redis_backend_def)


subsection \<open>Messages across the cluster\<close>

lemma message_step:
  assumes ok: "cluster_ok cl" and i: "i < length cl" "\<not> ch_closed (nd_chan (cl ! i))" and p: "obj_ok p"
    and accepted: "snd (sendMessage s r a e p rid (nd_chan (cl ! i))) = None"
    and j: "j < length cl" "\<not> ch_closed (nd_chan (cl ! j))" and action: "a \<noteq> A_PRESENCE"
  shows "\<exists>es. nd_chan (cluster_step fresh cl (i, now, Send_Message s r a e p rid) ! j) = emit es (nd_chan (cl ! j))
    \<and> (\<forall>u. filter (delivered_to u) es =
         (if jm_has (ch_subs (nd_chan (cl ! j))) u \<and> addressed r s u
          then [Start_Outgoing (connection_of (nd_chan (cl ! j)) u) u
                  (event_of (if j = i then a else A_BROADCAST) e p rid (nd_chan (cl ! j)))] else []))"
proof -
  let ?c = "nd_chan (cl ! i)" and ?d = "nd_chan (cl ! j)" and ?op = "Send_Message s r a e p rid"
  let ?m = "\<lparr>dm_endpoint = ch_endpoint ?c, dm_channel = ch_name ?c, dm_source = None, dm_body = USER_MESSAGE s e p rid r\<rparr>"
  from ok i j have good: "chan_ok ?c" "ch_backend ?c \<noteq> None" "chan_ok ?d"
    by (auto simp: cluster_ok_def node_ok_def replicating_def)
  obtain c' where sm: "sendMessage s r a e p rid ?c = (c', None)"
    using accepted by (cases "sendMessage s r a e p rid ?c") simp
  from sendMessage_Inr [OF sm] obtain rs where rs: "getUsersFromRecipients r s ?c = Inr rs"
    and c': "c' = emit (deliveries (user_event a e p rid rs ?c) ?c @ to_nodes (USER_MESSAGE s e p rid r) ?c) ?c"
    by blast
  from step_nodes [OF ok i, of ?op fresh now] p obtain ms es where
    ms: "ms = sent (drop (length (ch_log ?c)) (ch_log (fst (chan_exec ?op ?c))))"
    and here: "cluster_step fresh cl (i, now, ?op) ! i = \<lparr>nd_redis = rb_emit es (nd_redis (cl ! i)), nd_chan = fst (chan_exec ?op ?c)\<rparr>"
    and there: "j \<noteq> i \<Longrightarrow> cluster_step fresh cl (i, now, ?op) ! j = (cl ! j)\<lparr>nd_chan := if ch_closed ?d then ?d
           else deliver (rb_node (nd_redis (cl ! i))) now ms ?d\<rparr>"
    using j by (metis node_op.simps(2))
  show ?thesis
  proof (cases "j = i")
    case True
    have "u \<in> set rs \<and> jm_has (ch_subs ?c) u \<longleftrightarrow> jm_has (ch_subs ?c) u \<and> addressed r s u" for u
      using recipients_addressed [OF rs] subscribed_user [OF good(1)] by blast
    with True good(1) action show ?thesis
      by (intro exI [of _ "deliveries (user_event a e p rid rs ?c) ?c @ to_nodes (USER_MESSAGE s e p rid r) ?c"])
        (simp add: here sm c' delivered_once)
  next
    case False
    have "ms = [?m]" using good(2) i(2) by (simp add: ms sm c' sent_append sent_none to_nodes_def)
    then have "deliver n now ms ?d = fst (handleDistributedMessage now (?m\<lparr>dm_source := Some n\<rparr>) ?d)" for n
      by (simp add: deliver_def)
    moreover obtain es where "handleDistributedMessage now (?m\<lparr>dm_source := Some (rb_node (nd_redis (cl ! i)))\<rparr>) ?d = (emit es ?d, None)"
        "\<forall>u. filter (delivered_to u) es = (if jm_has (ch_subs ?d) u \<and> addressed r s u
           then [Start_Outgoing (connection_of ?d u) u (event_of A_BROADCAST e p rid ?d)] else [])"
      using remote_message_delivery [OF good(3), of "?m\<lparr>dm_source := Some (rb_node (nd_redis (cl ! i)))\<rparr>" s e p rid r now] by auto
    ultimately show ?thesis using False j by (intro exI [of _ es]) (simp add: there)
  qed
qed



end
