(* ===== verification/Channel_State.thy ===== *)
theory Channel_State
  imports Channel_Log Channel_Replica
begin

text \<open>
  The state an engine asks the other nodes for after its first user has joined: what it learns
  from a response, and for which node it tracks the users it learned of.
\<close>

subsection \<open>Learning from a response\<close>

lemma state_response_user_tables:
  "tables (state_response_user s now (u, p, a) d) =
     (if fst (tables d) u \<noteq> None then tables d
      else ((fst (tables d))(u \<mapsto> a), if p = [] then snd (tables d) else (snd (tables d))(u \<mapsto> p)))"
proof -
  let ?c = "trackNodeUser s u now (d\<lparr>ch_assigns := jm_set u a (ch_assigns d)\<rparr>)"
  have "tables ?c = ((fst (tables d))(u \<mapsto> a), snd (tables d))" by (simp add: tables_assigns)
  then show ?thesis
    using tables_upsert [of u p ?c]
    by (simp add: state_response_user_def Let_def has_user_def jm_has_get fst_tables)
qed

lemma handleStateResponse_Cons:
  "handleStateResponse s now (x # us) d = handleStateResponse s now us (state_response_user s now x d)"
  by (simp add: handleStateResponse_def)

lemma learned_tables:
  assumes "distinct (map fst us)"
  shows "fst (tables (handleStateResponse s now us d)) v =
      (if fst (tables d) v \<noteq> None then fst (tables d) v else map_option snd (map_of us v))
    \<and> snd (tables (handleStateResponse s now us d)) v =
      (if fst (tables d) v = None \<and> (\<exists>p a. map_of us v = Some (p, a) \<and> p \<noteq> []) then map_option fst (map_of us v)
       else snd (tables d) v)"
  using assms
proof (induction us arbitrary: d)
  case (Cons x us)
  obtain u p a where x: "x = (u, p, a)" by (cases x)
  from Cons.prems x have rest: "distinct (map fst us)" and "u \<notin> fst ` set us" by auto
  then have "map_of us u = None" by (simp add: map_of_eq_None_iff)
  with Cons.IH [OF rest, of "state_response_user s now x d"] show ?case
    by (auto simp: handleStateResponse_Cons x state_response_user_tables)
qed (simp add: handleStateResponse_def)

lemma run_presence_nodes [simp]: "ch_node_users (fst (run_presence op pe c)) = ch_node_users c"
  by (simp add: run_presence_def draw_def split: sum.split)

lemma learned_tracked:
  assumes "n \<noteq> []"
  shows "tracked k v (handleStateResponse (Some n) now us d) \<longleftrightarrow>
    tracked k v d \<or> (k = n \<and> v \<in> fst ` set us \<and> \<not> has_user v d)"
proof (induction us arbitrary: d)
  case (Cons x us)
  obtain u p a where x: "x = (u, p, a)" by (cases x)
  let ?d = "state_response_user (Some n) now x d"
  have "tracked k v ?d \<longleftrightarrow> tracked k v d \<or> (k = n \<and> v = u \<and> \<not> has_user u d)"
    using assms by (auto simp: x state_response_user_def Let_def trackNodeUser_def tracked_def jm.get_put js_add_def
        split: option.splits if_splits)
  moreover have "has_user v ?d \<longleftrightarrow> has_user v d \<or> v = u"
    using state_response_user_tables [of "Some n" now u p a d]
    by (auto simp: has_user_def jm_has_get fst_tables [symmetric] x)
  ultimately show ?case using Cons.IH [of ?d] by (auto simp: handleStateResponse_Cons x)
qed (simp add: handleStateResponse_def)

subsection \<open>The exchange\<close>

definition state_users :: "chan \<Rightarrow> (string \<times> obj \<times> obj) list" where
  "state_users c = map (\<lambda>(u, assigns). (u, case_option [] id (presence_of c u), assigns)) (ch_assigns c)"

lemma state_users_keys: "map fst (state_users c) = jm_keys (ch_assigns c)"
  by (simp add: state_users_def jm_keys_def case_prod_beta comp_def)

lemma state_users_of:
  "map_of (state_users c) u = map_option (\<lambda>a. (case_option [] id (presence_of c u), a)) (jm_get (ch_assigns c) u)"
proof -
  have "map_of (map (\<lambda>(u, a). (u, f u a)) xs) u = map_option (f u) (map_of xs u)" for f :: "string \<Rightarrow> obj \<Rightarrow> obj \<times> obj" and xs
    by (induction xs) auto
  then show ?thesis by (simp add: state_users_def jm_get_def)
qed

text \<open>
  C5. A node that has users answers a request for the state with one message, which lists every
  user it knows, its own and those of other nodes. The node that asked learns the users it does
  not have: their assigns, and their presences unless they are empty objects. It tracks all of
  them for the node that answered.
\<close>

theorem state_transfer:
  assumes "chan_ok c" "ch_users c \<noteq> []" "ch_backend c \<noteq> None" "\<not> ch_closed c" "n \<noteq> []"
    and "dm_body q = STATE_REQUEST x"
  shows "\<exists>m. handleDistributedMessage now q c = (emit [To_Nodes m] c, None)
    \<and> (let d' = fst (handleDistributedMessage now' (m\<lparr>dm_source := Some n\<rparr>) d) in \<forall>u.
         jm_get (ch_assigns d') u = (if has_user u d then jm_get (ch_assigns d) u else jm_get (ch_assigns c) u)
         \<and> presence_of d' u = (if has_user u d \<or> \<not> has_user u c \<or> presence_of c u \<in> {None, Some []}
              then presence_of d u else presence_of c u)
         \<and> (\<forall>k. tracked k u d' \<longleftrightarrow> tracked k u d \<or> (k = n \<and> has_user u c \<and> \<not> has_user u d)))"
proof -
  let ?m = "\<lparr>dm_endpoint = ch_endpoint c, dm_channel = ch_name c, dm_source = None, dm_body = STATE_RESPONSE (state_users c)\<rparr>"
  have answer: "handleDistributedMessage now q c = (emit [To_Nodes ?m] c, None)"
    using assms(2-4,6)
    by (simp add: handleDistributedMessage_def handleStateRequest_def broadcastToNodes_def state_users_def)
  let ?d = "handleStateResponse (Some n) now' (state_users c) d"
  have learned: "fst (handleDistributedMessage now' (?m\<lparr>dm_source := Some n\<rparr>) d) = ?d"
    by (simp add: handleDistributedMessage_def)
  have dist: "distinct (map fst (state_users c))"
    using assms(1) by (simp add: state_users_keys chan_ok_def subs_ok_def jm_ok_def jm_keys_def)
  have users: "u \<in> fst ` set (state_users c) \<longleftrightarrow> has_user u c" for u
    using state_users_keys [of c] by (metis has_user_def jm_has_keys list.set_map)
  have "jm_get (ch_assigns ?d) u = (if has_user u d then jm_get (ch_assigns d) u else jm_get (ch_assigns c) u)" for u
    using learned_tables [OF dist, of "Some n" now' d u]
    by (auto simp: fst_tables state_users_of has_user_def jm_has_get option.map_comp comp_def option.map_ident)
  moreover have "presence_of ?d u = (if has_user u d \<or> \<not> has_user u c \<or> presence_of c u \<in> {None, Some []}
      then presence_of d u else presence_of c u)" for u
    using learned_tables [OF dist, of "Some n" now' d u]
    by (auto simp: tables_def state_users_of has_user_def jm_has_get split: option.splits)
  moreover have "tracked k u ?d \<longleftrightarrow> tracked k u d \<or> (k = n \<and> has_user u c \<and> \<not> has_user u d)" for k u
    by (simp add: learned_tracked [OF assms(5)] users)
  ultimately show ?thesis
    unfolding Let_def by (intro exI [of _ ?m] conjI answer allI) (simp_all only: learned)
qed

theorem state_transfer_witness:
  "\<exists>m. handleDistributedMessage 1 \<lparr>dm_endpoint = ''/api'', dm_channel = ''room'', dm_source = Some ''n3'',
        dm_body = STATE_REQUEST ''n3''\<rparr> demo_chan = (emit [To_Nodes m] demo_chan, None)
    \<and> tracked ''n1'' ''eve'' (fst (handleDistributedMessage 2 (m\<lparr>dm_source := Some ''n1''\<rparr>)
          (new_channel ''room'' ''/api'' (Some 100) True (\<lambda>n. replicate n CHR ''x''))))
    \<and> tracked ''n2'' ''eve'' demo_chan"
proof -
  let ?q = "\<lparr>dm_endpoint = ''/api'', dm_channel = ''room'', dm_source = Some ''n3'', dm_body = STATE_REQUEST ''n3''\<rparr>"
  let ?d = "new_channel ''room'' ''/api'' (Some 100) True (\<lambda>n. replicate n CHR ''x'')"
  have c: "ch_users demo_chan \<noteq> []" "ch_backend demo_chan \<noteq> None" "\<not> ch_closed demo_chan"
      "has_user ''eve'' demo_chan" "tracked ''n2'' ''eve'' demo_chan"
    by (simp_all add: demo_eval ch_users_def has_user_def tracked_def)
  have "\<not> has_user ''eve'' ?d" by (simp add: new_channel_def has_user_def)
  with state_transfer [OF demo_chan_ok c(1-3), of "''n1''" ?q "''n3''" 1 2 ?d] c(4,5) show ?thesis
    by (auto simp: Let_def)
qed

subsection \<open>Who answers for a user\<close>

lemma fold_heartbeats:
  "ch_assigns (fold (\<lambda>(k, time). heartbeat k time) hs d) = ch_assigns d
   \<and> ch_backend (fold (\<lambda>(k, time). heartbeat k time) hs d) = ch_backend d
   \<and> (tracked k u (fold (\<lambda>(k, time). heartbeat k time) hs d) \<longleftrightarrow> tracked k u d)
   \<and> (chan_ok d \<longrightarrow> chan_ok (fold (\<lambda>(k, time). heartbeat k time) hs d))"
proof (induction hs arbitrary: d)
  case (Cons h hs)
  obtain n t where h: "h = (n, t)" by (cases h)
  have "ch_assigns (heartbeat n t d) = ch_assigns d" "ch_backend (heartbeat n t d) = ch_backend d"
      "tracked k u (heartbeat n t d) = tracked k u d"
    by (simp_all add: heartbeat_def tracked_def)
  then show ?case using Cons.IH [of "heartbeat n t d"] heartbeat_ok [of d n t] by (simp add: h)
qed simp

lemma stale_in_get:
  "jm_ok m \<Longrightarrow> stale_in m t now n \<longleftrightarrow> (case jm_get m n of None \<Rightarrow> False | Some seen \<Rightarrow> seen + t \<le> now)"
  by (auto simp: stale_in_def list_ex_iff jm_get_def jm_ok_def map_of_eq_None_iff image_iff
      dest: map_of_SomeD eq_key_imp_eq_value split: option.split)

text \<open>
  C20. A user that a node learned of from a response lives there exactly as long as the node that
  answered, whatever node the user is connected to: when the one that answered falls silent the
  user is forgotten, although the user's own node sends heartbeats, and when the user's own node
  falls silent the user is kept.
\<close>

theorem learned_user_bound_to_responder:
  assumes ok: "chan_ok c" "chan_ok d" and backend: "ch_backend d = Some t" and n: "n \<noteq> []"
    and m: "dm_body m = STATE_RESPONSE (state_users c)" "dm_source m = Some n"
    and user: "has_user u c" "\<not> has_user u d" "\<forall>k. \<not> tracked k u d"
  shows "let d' = fold (\<lambda>(k, time). heartbeat k time) hs (fst (handleDistributedMessage now m d)) in
    jm_get (ch_assigns (cleanupStaleNodes later d')) u
      = (if stale_in (ch_last_seen d') t later n then None else jm_get (ch_assigns c) u)"
proof -
  let ?l = "handleStateResponse (Some n) now (state_users c) d"
  let ?d = "fold (\<lambda>(k, time). heartbeat k time) hs ?l"
  have l: "fst (handleDistributedMessage now m d) = ?l" by (simp add: handleDistributedMessage_def m)
  have dist: "distinct (map fst (state_users c))"
    using ok(1) by (simp add: state_users_keys chan_ok_def subs_ok_def jm_ok_def jm_keys_def)
  have "u \<in> fst ` set (state_users c)"
    using state_users_keys [of c] user(1) by (metis has_user_def jm_has_keys list.set_map)
  then have track: "tracked k u ?l \<longleftrightarrow> k = n" for k
    using user by (simp add: learned_tracked [OF n])
  have "jm_get (ch_assigns ?l) u = jm_get (ch_assigns c) u"
    using learned_tables [OF dist, of "Some n" now d u] user(2)
    by (simp add: fst_tables state_users_of has_user_def jm_has_get option.map_comp comp_def option.map_ident)
  moreover have "chan_ok ?d" using fold_heartbeats state_response_ok [OF ok(2)] by blast
  then have "distinct (map fst (ch_last_seen ?d))" by (simp add: chan_ok_def nodes_ok_def jm_ok_def)
  note f = fold_cleanup [OF this, of later t ?d, THEN conjunct1]
  have "ch_backend ?l = Some t"
    using extends_distributed [of d now m] backend by (simp add: extends_def l)
  then have "cleanupStaleNodes later ?d = fold (cleanup_node later t) (ch_last_seen ?d) ?d"
    using fold_heartbeats [of hs ?l] by (simp add: cleanupStaleNodes_def)
  ultimately show ?thesis
    using f fold_heartbeats [of hs ?l] track by (simp add: l)
qed

text \<open>Node n3 learns of eve, who is on n2, from n1; then n1 falls silent while n2 does not.\<close>

theorem learned_user_bound_to_responder_witness:
  "let d = new_channel ''room'' ''/api'' (Some 100) True (\<lambda>n. replicate n CHR ''x'');
       m = \<lparr>dm_endpoint = ''/api'', dm_channel = ''room'', dm_source = Some ''n1'',
            dm_body = STATE_RESPONSE (state_users demo_chan)\<rparr>;
       d' = fold (\<lambda>(k, time). heartbeat k time) [(''n1'', 1), (''n2'', 101)] (fst (handleDistributedMessage 1 m d))
   in tracked ''n2'' ''eve'' demo_chan \<and> \<not> stale_in (ch_last_seen d') 100 101 ''n2''
      \<and> jm_get (ch_assigns (cleanupStaleNodes 101 d')) ''eve'' = None"
proof -
  let ?d = "new_channel ''room'' ''/api'' (Some 100) True (\<lambda>n. replicate n CHR ''x'')"
  let ?m = "\<lparr>dm_endpoint = ''/api'', dm_channel = ''room'', dm_source = Some ''n1'',
            dm_body = STATE_RESPONSE (state_users demo_chan)\<rparr>"
  let ?l = "fst (handleDistributedMessage 1 ?m ?d)"
  let ?e = "fold (\<lambda>(k, time). heartbeat k time) [(''n1'', 1), (''n2'', 101)] ?l"
  have d: "chan_ok ?d" "ch_backend ?d = Some 100" "\<not> has_user ''eve'' ?d" "\<forall>k. \<not> tracked k ''eve'' ?d"
    using new_channel_ok by simp_all (simp_all add: new_channel_def has_user_def tracked_def)
  have c: "has_user ''eve'' demo_chan" "tracked ''n2'' ''eve'' demo_chan"
    by (simp_all add: demo_eval has_user_def tracked_def)
  have "chan_ok ?l" by (intro distributed_ok d) simp
  then have "chan_ok ?e" using fold_heartbeats [of "[(''n1'', 1), (''n2'', 101)]" ?l] by blast
  then have "jm_ok (ch_last_seen ?e)" by (simp add: chan_ok_def nodes_ok_def)
  moreover have seen: "jm_get (ch_last_seen ?e) ''n1'' = Some 1" "jm_get (ch_last_seen ?e) ''n2'' = Some 101"
    by (simp_all add: heartbeat_def jm.get_put)
  ultimately have "stale_in (ch_last_seen ?e) 100 101 ''n1''" "\<not> stale_in (ch_last_seen ?e) 100 101 ''n2''"
    by (simp_all add: stale_in_get)
  with learned_user_bound_to_responder [OF demo_chan_ok d(1,2) _ _ _ c(1) d(3,4), of "''n1''" ?m
      "[(''n1'', 1), (''n2'', 101)]" 1 101] c(2) show ?thesis
    by (simp only: Let_def dist_message.select_convs) simp
qed

end
