(* ===== verification/Client_Channel.thy ===== *)
theory Client_Channel
  imports Route Json Common_Types
begin

text \<open>
  A channel of the client library (\<open>client/src/core/channel.ts\<close>): joining and leaving, the queue
  of messages sent before the channel is joined, responses that are waited for, and events of
  the server. A method returns the new channel and what it threw; what it does outside itself
  (publishing a message, telling listeners, subscribing to the client's subjects) is logged in
  order. The listeners of the application are on the other side of the log.
\<close>

subsection \<open>State\<close>

datatype conn_state = DISCONNECTED | CONNECTING | CONNECTED

record client_error =
  er_code :: string
  er_message :: json
  er_status :: json
  er_status_code :: "json option"
  er_details :: "json option"

text \<open>
  Every call of \<open>#init\<close> makes new observers of the broadcaster and of the connection state;
  they carry the number of that call.
\<close>

datatype cc_eff =
    Publish client_message
  | State_Change channel_state
  | Error_Event client_error
  | Deliver channel_event
  | Fulfil string obj
  | Fail string string
  | Watch nat
  | Unwatch nat
  | Wait_Connected
  | Unwait

record cchan =
  cc_name :: string
  cc_params :: obj
  cc_max :: nat
  cc_timeout :: nat
  cc_queue :: "client_message list"
  cc_presence :: json
  cc_state :: channel_state
  cc_closed :: bool
  cc_timer :: "string option"
  cc_pending :: "string option"
  cc_last_error :: "client_error option"
  cc_wait :: bool
  cc_live :: "nat option"
  cc_inits :: nat
  cc_responses :: "string list"
  cc_random :: "nat \<Rightarrow> string"
  cc_drawn :: nat
  cc_log :: "cc_eff list"

definition new_cchan :: "string \<Rightarrow> obj \<Rightarrow> nat \<Rightarrow> nat \<Rightarrow> (nat \<Rightarrow> string) \<Rightarrow> cchan" where
  "new_cchan name params maxQueueSize joinTimeoutMs random =
     \<lparr>cc_name = name, cc_params = params, cc_max = maxQueueSize, cc_timeout = joinTimeoutMs, cc_queue = [],
      cc_presence = JArr [], cc_state = IDLE, cc_closed = False, cc_timer = None, cc_pending = None,
      cc_last_error = None, cc_wait = False, cc_live = None, cc_inits = 0, cc_responses = [],
      cc_random = random, cc_drawn = 0, cc_log = []\<rparr>"

definition cc_emit :: "cc_eff list \<Rightarrow> cchan \<Rightarrow> cchan" where
  "cc_emit es c = c\<lparr>cc_log := cc_log c @ es\<rparr>"

definition cc_uuid :: "cchan \<Rightarrow> string" where
  "cc_uuid c = cc_random c (cc_drawn c)"

definition cc_draw :: "cchan \<Rightarrow> cchan" where
  "cc_draw c = c\<lparr>cc_drawn := Suc (cc_drawn c)\<rparr>"

text \<open>\<open>#joinState\<close> keeps its value when it is closed, but nobody hears it any more.\<close>

definition cc_set_state :: "channel_state \<Rightarrow> cchan \<Rightarrow> cchan" where
  "cc_set_state s c = cc_emit (if cc_closed c then [] else [State_Change s]) (c\<lparr>cc_state := s\<rparr>)"

definition cc_publish_error :: "client_error \<Rightarrow> cchan \<Rightarrow> cchan" where
  "cc_publish_error e c = cc_emit (if cc_closed c then [] else [Error_Event e]) c"

definition cc_clearJoinTimeout :: "cchan \<Rightarrow> cchan" where
  "cc_clearJoinTimeout c = c\<lparr>cc_timer := None\<rparr>"

subsection \<open>Joining\<close>

definition cc_message :: "client_action \<Rightarrow> string \<Rightarrow> obj \<Rightarrow> string \<Rightarrow> cchan \<Rightarrow> client_message" where
  "cc_message action event payload requestId c =
     \<lparr>cm_action = action, cm_event = event, cm_channel = cc_name c, cm_request = requestId, cm_payload = payload\<rparr>"

definition sendJoinRequest :: "cchan \<Rightarrow> cchan" where
  "sendJoinRequest c =
     (let requestId = cc_uuid c;
          message = cc_message JOIN_CHANNEL (client_action_str JOIN_CHANNEL) (cc_params c) requestId c;
          c1 = (cc_clearJoinTimeout (cc_draw c))\<lparr>cc_pending := Some requestId\<rparr>
      in (cc_emit [Publish message] c1)\<lparr>cc_timer := Some requestId\<rparr>)"

definition cc_join :: "conn_state \<Rightarrow> cchan \<Rightarrow> cchan" where
  "cc_join conn c =
     (if cc_state c \<in> {JOINED, JOINING} then c
      else
        (let c1 = cc_set_state JOINING (c\<lparr>cc_last_error := None\<rparr>) in
         if conn = CONNECTED then sendJoinRequest c1
         else (cc_emit ((if cc_wait c1 then [Unwait] else []) @ [Wait_Connected]) c1)\<lparr>cc_wait := True\<rparr>))"

text \<open>The observer that waits for the connection hears a state.\<close>

definition cc_on_wait :: "conn_state \<Rightarrow> cchan \<Rightarrow> cchan" where
  "cc_on_wait conn c =
     (if conn = CONNECTED then
        (let c1 = (cc_emit [Unwait] c)\<lparr>cc_wait := False\<rparr>
         in if cc_state c1 = JOINING then sendJoinRequest c1 else c1)
      else c)"

text \<open>The observer of \<open>#init\<close> hears a state.\<close>

definition cc_on_state :: "conn_state \<Rightarrow> cchan \<Rightarrow> cchan" where
  "cc_on_state conn c =
     (if conn = CONNECTED \<and> cc_state c = STALLED then sendJoinRequest c
      else if conn \<noteq> CONNECTED \<and> cc_state c = JOINED then
        cc_set_state STALLED ((cc_clearJoinTimeout c)\<lparr>cc_pending := None\<rparr>)
      else c)"

definition cc_presenceSub :: "cchan \<Rightarrow> cchan" where
  "cc_presenceSub c =
     (case cc_live c of None \<Rightarrow> c | Some n \<Rightarrow> (cc_emit [Unwatch n] c)\<lparr>cc_live := None\<rparr>)"

text \<open>
  \<open>#init\<close>: the new observer of the connection state is told the current state at once. On a
  channel that was left, the last subscription throws, and the two others stay for good.
\<close>

definition cc_init :: "conn_state \<Rightarrow> cchan \<Rightarrow> cchan \<times> exn option" where
  "cc_init conn c =
     (let c1 = cc_presenceSub c; n = cc_inits c1;
          c2 = cc_on_state conn ((cc_emit [Watch n] c1)\<lparr>cc_inits := Suc n\<rparr>)
      in if cc_closed c2 then (c2, Some (Plain_Error ''Cannot subscribe to a closed subject''))
         else (c2\<lparr>cc_live := Some n\<rparr>, None))"

definition emptyQueue :: "cchan \<Rightarrow> cchan" where
  "emptyQueue c = (cc_emit (map Publish (cc_queue c)) c)\<lparr>cc_queue := []\<rparr>"

text \<open>An answer with a request id is for the pending request only; an empty id is none.\<close>

definition other_request :: "string \<Rightarrow> cchan \<Rightarrow> bool" where
  "other_request requestId c \<longleftrightarrow> requestId \<noteq> [] \<and>
     (case cc_pending c of Some p \<Rightarrow> p \<noteq> [] \<and> requestId \<noteq> p | None \<Rightarrow> False)"

definition cc_acknowledge :: "conn_state \<Rightarrow> string \<Rightarrow> cchan \<Rightarrow> cchan \<times> exn option" where
  "cc_acknowledge conn requestId c =
     (if cc_state c \<notin> {JOINING, STALLED} \<or> other_request requestId c then (c, None)
      else
        (case cc_init conn (cc_set_state JOINED
               ((cc_clearJoinTimeout c)\<lparr>cc_pending := None, cc_last_error := None\<rparr>)) of
           (c1, Some e) \<Rightarrow> (c1, Some e)
         | (c1, None) \<Rightarrow> (emptyQueue c1, None)))"

definition cc_decline :: "client_error \<Rightarrow> string \<Rightarrow> cchan \<Rightarrow> cchan" where
  "cc_decline payload requestId c =
     (if cc_state c \<notin> {JOINING, STALLED} then cc_publish_error payload c
      else if other_request requestId c then c
      else cc_publish_error payload
        ((cc_set_state DECLINED ((cc_clearJoinTimeout c)\<lparr>cc_pending := None, cc_last_error := Some payload\<rparr>))
           \<lparr>cc_queue := []\<rparr>))"

text \<open>The timer of a join request fires. \<^const>\<open>None\<close> for the timer means that it was cleared.\<close>

definition join_timed_out :: "cchan \<Rightarrow> client_error" where
  "join_timed_out c =
     \<lparr>er_code = error_type_str CHANNEL_ERROR,
      er_message = JStr (''Timed out joining channel '' @ [CHR 0x22] @ cc_name c @ [CHR 0x22]),
      er_status = JNum 408, er_status_code = Some (JNum 408), er_details = None\<rparr>"

definition cc_join_timeout :: "cchan \<Rightarrow> cchan" where
  "cc_join_timeout c =
     (case cc_timer c of
        None \<Rightarrow> c
      | Some requestId \<Rightarrow>
          if cc_pending c \<noteq> Some requestId then c else cc_decline (join_timed_out c) requestId c)"

subsection \<open>Leaving\<close>

definition cc_leave :: "cchan \<Rightarrow> cchan" where
  "cc_leave c =
     (let message = cc_message LEAVE_CHANNEL (client_action_str LEAVE_CHANNEL) [] (cc_uuid c) c;
          c1 = cc_emit (if cc_state c = JOINED then [Publish message] else []) (cc_draw c);
          c2 = cc_emit (if cc_wait c1 then [Unwait] else []) (cc_clearJoinTimeout c1);
          c3 = cc_set_state CLOSED (c2\<lparr>cc_wait := False, cc_responses := [], cc_pending := None, cc_queue := []\<rparr>)
      in (cc_presenceSub c3)\<lparr>cc_closed := True\<rparr>)"

subsection \<open>Sending\<close>

definition cc_enqueue :: "client_message \<Rightarrow> cchan \<Rightarrow> cchan" where
  "cc_enqueue message c =
     c\<lparr>cc_queue := (if cc_max c \<le> length (cc_queue c) then tl (cc_queue c) else cc_queue c) @ [message]\<rparr>"

definition cc_publish :: "client_message \<Rightarrow> cchan \<Rightarrow> cchan \<times> exn option" where
  "cc_publish message c =
     (if cc_state c = JOINED then (cc_emit [Publish message] c, None)
      else if cc_state c \<in> {DECLINED, CLOSED} then
        (c, Some (Plain_Error (''Cannot send messages while channel '' @ [CHR 0x22] @ cc_name c @ [CHR 0x22]
           @ '' is '' @ channel_state_str (cc_state c))))
      else (cc_enqueue message c, None))"

definition cc_sendMessage :: "string \<Rightarrow> obj \<Rightarrow> obj \<Rightarrow> cchan \<Rightarrow> cchan \<times> exn option" where
  "cc_sendMessage event payload params c =
     (case buildPondRoute event params of
        Inl e \<Rightarrow> (cc_draw c, Some e)
      | Inr name \<Rightarrow> cc_publish (cc_message C_BROADCAST name payload (cc_uuid c) c) (cc_draw c))"

text \<open>
  The promise of \<open>sendForResponse\<close> is named by its request id; \<open>Fulfil\<close> and \<open>Fail\<close> are the
  calls of \<open>resolve\<close> and \<open>reject\<close>, of which a promise heeds the first. An exception in the
  executor rejects the promise, but leaves the listener and the timer.
\<close>

definition exn_text :: "exn \<Rightarrow> string" where
  "exn_text e = (case e of Http_Error code m \<Rightarrow> m | Plain_Error m \<Rightarrow> m | Not_An_Error \<Rightarrow> [])"

definition cc_sendForResponse :: "string \<Rightarrow> obj \<Rightarrow> obj \<Rightarrow> cchan \<Rightarrow> cchan" where
  "cc_sendForResponse sentEvent payload params c =
     (let requestId = cc_uuid c; c1 = cc_draw c in
      if cc_closed c1 then cc_emit [Fail requestId ''Cannot subscribe to a closed subject''] c1
      else
        (let c2 = c1\<lparr>cc_responses := cc_responses c1 @ [requestId]\<rparr> in
         case buildPondRoute sentEvent params of
           Inl e \<Rightarrow> cc_emit [Fail requestId (exn_text e)] c2
         | Inr name \<Rightarrow>
             (case cc_publish (cc_message C_BROADCAST name payload requestId c2) c2 of
                (c3, None) \<Rightarrow> c3
              | (c3, Some e) \<Rightarrow> cc_emit [Fail requestId (exn_text e)] c3)))"

definition cc_response_timeout :: "string \<Rightarrow> nat \<Rightarrow> string \<Rightarrow> cchan \<Rightarrow> cchan" where
  "cc_response_timeout sentEvent timeoutMs requestId c =
     (if requestId \<in> set (cc_responses c)
      then cc_emit [Fail requestId (''sendForResponse timed out after '' @ nat_text timeoutMs @ ''ms for event ''
             @ [CHR 0x22] @ sentEvent @ [CHR 0x22])]
             (c\<lparr>cc_responses := js_remove requestId (cc_responses c)\<rparr>)
      else c)"

subsection \<open>Receiving\<close>

text \<open>
  The observer of the broadcaster: an event of this channel goes to the listeners while the
  channel is joined. Presence events bring the list of presences; any other event that carries
  the id of a request that waits for its response fulfils it.
\<close>

definition cc_receive :: "channel_event \<Rightarrow> cchan \<Rightarrow> cchan" where
  "cc_receive data c =
     (if ce_channel data \<noteq> cc_name c \<or> cc_state c \<noteq> JOINED \<or> cc_closed c then c
      else
        (let c1 = cc_emit [Deliver data] c in
         if ce_action data = A_PRESENCE
         then c1\<lparr>cc_presence := (case jm_get (ce_payload data) ''presence'' of Some p \<Rightarrow> p | None \<Rightarrow> JNull)\<rparr>
         else if ce_request data \<in> set (cc_responses c1)
         then cc_emit [Fulfil (ce_request data) (ce_payload data)]
                (c1\<lparr>cc_responses := js_remove (ce_request data) (cc_responses c1)\<rparr>)
         else c1))"

text \<open>
  What the listeners hear of a delivered event: those of \<open>onJoin\<close> and \<open>onLeave\<close> the changed
  presence, those of \<open>onPresenceChange\<close> the whole payload, those of \<open>onUsersChange\<close> the presences,
  those of \<open>onMessage\<close> and \<open>onMessageEvent\<close> the name and the payload.
\<close>

definition heard_presence :: "presence_event \<Rightarrow> channel_event \<Rightarrow> json option" where
  "heard_presence kind data =
     (if ce_action data = A_PRESENCE \<and> ce_event data = presence_event_str kind
      then jm_get (ce_payload data) ''changed'' else None)"

definition heard_update :: "channel_event \<Rightarrow> obj option" where
  "heard_update data =
     (if ce_action data = A_PRESENCE \<and> ce_event data = presence_event_str P_UPDATE
      then Some (ce_payload data) else None)"

definition heard_users :: "channel_event \<Rightarrow> json option" where
  "heard_users data = (if ce_action data = A_PRESENCE then jm_get (ce_payload data) ''presence'' else None)"

definition heard_message :: "channel_event \<Rightarrow> (string \<times> obj) option" where
  "heard_message data =
     (if ce_action data \<noteq> A_PRESENCE then Some (ce_event data, ce_payload data) else None)"

definition heard_event :: "string \<Rightarrow> channel_event \<Rightarrow> (obj \<times> event_params) option res" where
  "heard_event event data =
     (case heard_message data of
        None \<Rightarrow> Inr None
      | Some (name, message) \<Rightarrow>
          res_bind (parsePondRoute event name) (\<lambda>params. Inr (map_option (Pair message) params)))"

end
