(* ===== verification/Text.thy ===== *)
theory Text
  imports Uri
begin

text \<open>
  \<open>String.prototype.trim\<close> and the parsing of a cookie header (\<open>#getCookies\<close> of
  \<open>core/src/server/server.ts\<close>). Strings are UTF-8, so the white space of JavaScript is a list of
  byte sequences.
\<close>

definition js_spaces :: "string list" where
  "js_spaces =
     map (\<lambda>c. [c]) [CHR 0x09, CHR 0x0A, CHR 0x0B, CHR 0x0C, CHR 0x0D, CHR 0x20]
     @ [[CHR 0xC2, CHR 0xA0], [CHR 0xE1, CHR 0x9A, CHR 0x80]]
     @ map (\<lambda>c. [CHR 0xE2, CHR 0x80, c]) [CHR 0x80, CHR 0x81, CHR 0x82, CHR 0x83, CHR 0x84, CHR 0x85, CHR 0x86,
         CHR 0x87, CHR 0x88, CHR 0x89, CHR 0x8A, CHR 0xA8, CHR 0xA9, CHR 0xAF]
     @ [[CHR 0xE2, CHR 0x81, CHR 0x9F], [CHR 0xE3, CHR 0x80, CHR 0x80], [CHR 0xEF, CHR 0xBB, CHR 0xBF]]"

function strip_prefixes :: "string list \<Rightarrow> string \<Rightarrow> string" where
  "strip_prefixes ps s =
     (case List.find (\<lambda>p. p \<noteq> [] \<and> take (length p) s = p) ps of
        None \<Rightarrow> s
      | Some p \<Rightarrow> strip_prefixes ps (drop (length p) s))"
  by pat_completeness auto

termination
proof (relation "measure (length \<circ> snd)")
  fix ps s p
  assume "List.find (\<lambda>p. p \<noteq> [] \<and> take (length p) s = p) ps = Some p"
  then have "p \<noteq> []" "take (length p) s = p" by (auto simp: find_Some_iff)
  then have "s \<noteq> []" "0 < length p" by auto
  then show "((ps, drop (length p) s), (ps, s)) \<in> measure (length \<circ> snd)" by simp
qed simp

declare strip_prefixes.simps [simp del]

definition js_trim :: "string \<Rightarrow> string" where
  "js_trim s = rev (strip_prefixes (map rev js_spaces) (rev (strip_prefixes js_spaces s)))"

subsection \<open>Cookies\<close>

text \<open>One cookie; \<open>__proto__\<close> is not a property an assignment of a string creates.\<close>

definition add_cookie :: "string \<Rightarrow> string jmap \<Rightarrow> string jmap" where
  "add_cookie cookie cookies =
     (let trimmed = js_trim cookie; name = takeWhile (\<lambda>c. c \<noteq> CHR ''='') trimmed in
      if length name = length trimmed then cookies
      else
        (let value = drop (Suc (length name)) trimmed;
             stored = (case decodeURIComponent value of Some v \<Rightarrow> v | None \<Rightarrow> value)
         in if name = ''__proto__'' then cookies else jm_set name stored cookies))"

definition getCookies :: "string option \<Rightarrow> string jmap" where
  "getCookies cookieHeader =
     (case cookieHeader of
        None \<Rightarrow> []
      | Some header \<Rightarrow> if header = [] then [] else fold add_cookie (js_split CHR '';'' header) [])"

subsection \<open>Reading back what was written\<close>

text \<open>A cookie as a client writes it: a name of letters, digits and the like, and an encoded value.\<close>

definition write_cookie :: "string \<times> string \<Rightarrow> string" where
  "write_cookie nv = fst nv @ ''='' @ encodeURIComponent (snd nv)"

definition cookie_name :: "string \<Rightarrow> bool" where
  "cookie_name n \<longleftrightarrow> n \<noteq> ''__proto__'' \<and> (\<forall>c \<in> set n. is_alnum c \<or> c = CHR ''_'' \<or> c = CHR ''-'')"

lemma strip_none:
  assumes "\<And>p. p \<in> set ps \<Longrightarrow> p \<noteq> [] \<Longrightarrow> take (length p) s \<noteq> p"
  shows "strip_prefixes ps s = s"
proof -
  have "List.find (\<lambda>p. p \<noteq> [] \<and> take (length p) s = p) ps = None"
    using assms by (auto simp: find_None_iff)
  then show ?thesis by (subst strip_prefixes.simps) simp
qed

text \<open>Visible ASCII starts and ends no white space.\<close>

definition visible :: "char \<Rightarrow> bool" where
  "visible c \<longleftrightarrow> 32 < byte c \<and> byte c < 128"

lemma spaces_invisible_eval:
  "list_all (\<lambda>p. p \<noteq> [] \<and> \<not> visible (hd p)) (js_spaces @ map rev js_spaces)"
  by code_simp

lemma spaces_invisible:
  "p \<in> set js_spaces \<or> p \<in> set (map rev js_spaces) \<Longrightarrow> p \<noteq> [] \<and> \<not> visible (hd p)"
  using spaces_invisible_eval unfolding list_all_iff by (metis UnCI set_append)

lemma strip_visible:
  assumes "\<And>p. p \<in> set ps \<Longrightarrow> p \<noteq> [] \<and> \<not> visible (hd p)" and "s = [] \<or> visible (hd s)"
  shows "strip_prefixes ps s = s"
proof (rule strip_none)
  fix p
  assume "p \<in> set ps"
  then have p: "p \<noteq> []" "\<not> visible (hd p)" using assms(1) by auto
  show "take (length p) s \<noteq> p"
  proof
    assume eq: "take (length p) s = p"
    with p have "s \<noteq> []" by auto
    moreover have "hd s = hd p" using eq p(1) by (metis hd_take length_greater_0_conv)
    ultimately show False using p assms(2) by auto
  qed
qed

lemma trim_visible:
  assumes "s \<noteq> []" "\<forall>c \<in> set s. visible c"
  shows "js_trim s = s" "js_trim (CHR '' '' # s) = s"
proof -
  have inner: "strip_prefixes js_spaces s = s"
    using assms by (intro strip_visible) (auto simp: spaces_invisible)
  have outer: "strip_prefixes (map rev js_spaces) (rev s) = rev s"
    using assms by (intro strip_visible) (simp_all add: spaces_invisible hd_rev)
  show "js_trim s = s" by (simp add: js_trim_def inner outer)
  have "List.find (\<lambda>p. p \<noteq> [] \<and> take (length p) (CHR '' '' # s) = p) js_spaces = Some [CHR '' '']"
    using assms by (cases s) (simp_all add: js_spaces_def)
  then have "strip_prefixes js_spaces (CHR '' '' # s) = s"
    by (subst strip_prefixes.simps) (simp add: inner)
  then show "js_trim (CHR '' '' # s) = s" by (simp add: js_trim_def outer)
qed

lemma unreserved_visible: "uri_unreserved c \<Longrightarrow> visible c \<and> c \<noteq> CHR '';''"
  by (auto simp: uri_unreserved_def is_alnum_def visible_def)

lemma encoded_chars: "c \<in> set (encodeURIComponent s) \<Longrightarrow> visible c \<and> c \<noteq> CHR '';''"
proof -
  assume "c \<in> set (encodeURIComponent s)"
  then obtain d where d: "d \<in> set s" "c \<in> set (if uri_unreserved d then [d] else escape d)"
    by (auto simp: encodeURIComponent_def)
  then consider "uri_unreserved c" | "c = CHR ''%''" | "is_alnum c"
    using escape_chars by (auto split: if_splits)
  then show ?thesis
    using unreserved_visible by cases (auto simp: visible_def is_alnum_def)
qed

lemma written_chars:
  assumes "cookie_name (fst nv)" and "c \<in> set (write_cookie nv)"
  shows "visible c \<and> c \<noteq> CHR '';''"
  using assms encoded_chars by (auto simp: write_cookie_def cookie_name_def visible_def is_alnum_def)

lemma add_written:
  assumes name: "cookie_name (fst nv)" and val: "utf8 (snd nv)"
    and cookie: "cookie = write_cookie nv \<or> cookie = CHR '' '' # write_cookie nv"
  shows "add_cookie cookie m = jm_set (fst nv) (snd nv) m"
proof -
  have "write_cookie nv \<noteq> []" by (simp add: write_cookie_def)
  then have trim: "js_trim cookie = write_cookie nv"
    using cookie trim_visible written_chars [OF name] by auto
  have "\<forall>c \<in> set (fst nv). c \<noteq> CHR ''=''" "fst nv \<noteq> ''__proto__''"
    using name by (auto simp: cookie_name_def is_alnum_def)
  then have "takeWhile (\<lambda>c. c \<noteq> CHR ''='') (write_cookie nv) = fst nv"
    by (simp add: write_cookie_def takeWhile_append2)
  then show ?thesis
    using \<open>fst nv \<noteq> ''__proto__''\<close>
    by (simp add: add_cookie_def trim Let_def) (simp add: write_cookie_def decode_encode [OF val])
qed

lemma split_written:
  assumes "\<forall>nv \<in> set nvs. cookie_name (fst nv)" "nvs \<noteq> []"
  shows "js_split CHR '';'' (js_join ''; '' (map write_cookie nvs))
    = write_cookie (hd nvs) # map (\<lambda>nv. CHR '' '' # write_cookie nv) (tl nvs)"
  using assms
proof (induction nvs)
  case (Cons nv nvs)
  have plain: "CHR '';'' \<notin> set (write_cookie nv)" using Cons.prems written_chars by fastforce
  have app: "js_split d (s @ t) = (s @ hd (js_split d t)) # tl (js_split d t)" if "d \<notin> set s" for d and s t :: string
    using that by (induction s) (auto split: list.split)
  show ?case
  proof (cases nvs)
    case Nil
    then show ?thesis using app [OF plain, of "[]"] by simp
  next
    case (Cons a list)
    then have "js_split CHR '';'' (js_join ''; '' (map write_cookie nvs))
        = write_cookie (hd nvs) # map (\<lambda>nv. CHR '' '' # write_cookie nv) (tl nvs)"
      using Cons.IH Cons.prems by simp
    with Cons show ?thesis
      using app [OF plain, of "''; '' @ js_join ''; '' (map write_cookie nvs)"] by simp
  qed
qed simp

text \<open>
  The cookies a client sends, with encoded values and separated by \<open>;\<close> and a space, are
  read back as they were written, a later cookie of the same name replacing an earlier one.
\<close>

theorem cookies_roundtrip:
  assumes "\<forall>nv \<in> set nvs. cookie_name (fst nv) \<and> utf8 (snd nv)"
  shows "getCookies (Some (js_join ''; '' (map write_cookie nvs))) = fold (\<lambda>(n, v). jm_set n v) nvs []"
proof (cases nvs)
  case Nil
  then show ?thesis by (simp add: getCookies_def)
next
  case (Cons nv rest)
  have "fold add_cookie (map (\<lambda>nv. CHR '' '' # write_cookie nv) rest) m = fold (\<lambda>(n, v). jm_set n v) rest m" for m
    using assms add_written unfolding Cons
    by (induction rest arbitrary: m) (auto simp: case_prod_beta)
  moreover have "js_join ''; '' (map write_cookie nvs) \<noteq> []"
    using split_written [of nvs] assms Cons by (auto simp: write_cookie_def)
  ultimately show ?thesis
    using split_written [of nvs] assms add_written [of nv "write_cookie nv"]
    by (simp add: getCookies_def Cons case_prod_beta)
qed

theorem cookies_roundtrip_witness:
  "getCookies (Some (js_join ''; '' (map write_cookie [(''sid'', ''a;b=c''), (''lang'', ''en'')])))
     = [(''sid'', ''a;b=c''), (''lang'', ''en'')]"
proof -
  have "\<forall>nv \<in> set [(''sid'', ''a;b=c''), (''lang'', ''en'')]. cookie_name (fst nv) \<and> utf8 (snd nv)"
    by (auto simp: cookie_name_def is_alnum_def intro!: utf8_all_ascii)
  from cookies_roundtrip [OF this] show ?thesis by (simp add: jm_set_def)
qed

end
