(* ===== verification/Base_Client.thy ===== *)
theory Base_Client
  imports Client_Channel Schema Subject Text
begin

text \<open>
  The part all transports of the client share (\<open>client/src/core/baseClient.ts\<close>): the channels by
  name, the broadcaster of the server's events, the connection state, errors and reconnecting.
  The records of the transports extend the one here; what sends a message is a parameter
  \<open>pub\<close>. Publishing walks the live sets of observers with the subjects of \<open>Subject\<close>; a walk
  that would not end is \<^term>\<open>None\<close>.
\<close>

subsection \<open>State\<close>

datatype broadcast_observer = Base | Listener nat nat

datatype state_observer = Waiter nat | Watcher nat nat

record client =
  cl_join_timeout :: nat
  cl_max_delay :: nat
  cl_disconnecting :: bool
  cl_attempts :: nat
  cl_conn_handle :: "nat option"
  cl_conn_timers :: "nat list"
  cl_reconnect :: "nat option"
  cl_broadcaster :: "broadcast_observer subject"
  cl_state :: "(state_observer, conn_state) behavior"
  cl_errors :: "string list"
  cl_names :: "nat jmap"
  cl_chans :: "cchan list"
  cl_random :: "nat \<Rightarrow> nat \<Rightarrow> string"

text \<open>The constructor subscribes the client itself first.\<close>

definition DEFAULT_JOIN_TIMEOUT :: nat where "DEFAULT_JOIN_TIMEOUT = 10000"

definition DEFAULT_MAX_RECONNECT_DELAY :: nat where "DEFAULT_MAX_RECONNECT_DELAY = 30000"

definition new_client :: "nat option \<Rightarrow> nat option \<Rightarrow> (nat \<Rightarrow> nat \<Rightarrow> string) \<Rightarrow> client" where
  "new_client joinTimeout maxReconnectDelay random =
     \<lparr>cl_join_timeout = case_option DEFAULT_JOIN_TIMEOUT id joinTimeout,
      cl_max_delay = case_option DEFAULT_MAX_RECONNECT_DELAY id maxReconnectDelay,
      cl_disconnecting = False, cl_attempts = 0, cl_conn_handle = None, cl_conn_timers = [], cl_reconnect = None,
      cl_broadcaster = \<lparr>sj_closed = False, sj_entries = [(0, Base)], sj_next = 1\<rparr>,
      cl_state = bs_new (Some DISCONNECTED), cl_errors = [], cl_names = [], cl_chans = [], cl_random = random\<rparr>"

definition getState :: "'a client_scheme \<Rightarrow> conn_state" where
  "getState cl = (case bs_last (cl_state cl) of Some s \<Rightarrow> s | None \<Rightarrow> DISCONNECTED)"

definition cl_error :: "string \<Rightarrow> 'a client_scheme \<Rightarrow> 'a client_scheme" where
  "cl_error message cl = cl\<lparr>cl_errors := cl_errors cl @ [message]\<rparr>"

subsection \<open>Channels and their effects\<close>

definition watch :: "'o \<Rightarrow> 'o subject \<Rightarrow> 'o subject" where
  "watch observer s = (case sj_subscribe observer s of Inl e \<Rightarrow> s | Inr s' \<Rightarrow> s')"

definition on_state_subject ::
    "(state_observer subject \<Rightarrow> state_observer subject) \<Rightarrow> 'a client_scheme \<Rightarrow> 'a client_scheme" where
  "on_state_subject f cl = cl\<lparr>cl_state := (cl_state cl)\<lparr>bs_subject := f (bs_subject (cl_state cl))\<rparr>\<rparr>"

fun run_cc_eff ::
    "(client_message \<Rightarrow> 'a client_scheme \<Rightarrow> 'a client_scheme) \<Rightarrow> nat \<Rightarrow> cc_eff \<Rightarrow> 'a client_scheme \<Rightarrow> 'a client_scheme"
  where
  "run_cc_eff pub i (Publish m) cl = pub m cl"
| "run_cc_eff pub i (Watch n) cl = on_state_subject (watch (Watcher i n))
     (cl\<lparr>cl_broadcaster := watch (Listener i n) (cl_broadcaster cl)\<rparr>)"
| "run_cc_eff pub i (Unwatch n) cl = on_state_subject (sj_unsubscribe (Watcher i n))
     (cl\<lparr>cl_broadcaster := sj_unsubscribe (Listener i n) (cl_broadcaster cl)\<rparr>)"
| "run_cc_eff pub i Wait_Connected cl = on_state_subject (watch (Waiter i)) cl"
| "run_cc_eff pub i Unwait cl = on_state_subject (sj_unsubscribe (Waiter i)) cl"
| "run_cc_eff pub i _ cl = cl"

definition with_cchan ::
    "(client_message \<Rightarrow> 'a client_scheme \<Rightarrow> 'a client_scheme) \<Rightarrow> nat \<Rightarrow> (cchan \<Rightarrow> cchan) \<Rightarrow>
     'a client_scheme \<Rightarrow> 'a client_scheme" where
  "with_cchan pub i f cl =
     (let c = cl_chans cl ! i; c' = f c
      in fold (run_cc_eff pub i) (drop (length (cc_log c)) (cc_log c')) (cl\<lparr>cl_chans := (cl_chans cl)[i := c']\<rparr>))"

subsection \<open>Connection state\<close>

definition state_call ::
    "(client_message \<Rightarrow> 'a client_scheme \<Rightarrow> 'a client_scheme) \<Rightarrow> state_observer \<Rightarrow> conn_state \<Rightarrow>
     'a client_scheme \<Rightarrow> 'a client_scheme" where
  "state_call pub observer s cl =
     (case observer of
        Waiter i \<Rightarrow> with_cchan pub i (cc_on_wait s) cl
      | Watcher i n \<Rightarrow> with_cchan pub i (cc_on_state s) cl)"

definition publish_state ::
    "(client_message \<Rightarrow> 'a client_scheme \<Rightarrow> 'a client_scheme) \<Rightarrow> conn_state \<Rightarrow>
     'a client_scheme \<Rightarrow> 'a client_scheme option" where
  "publish_state pub s cl =
     bs_publish cl_state (\<lambda>b cl. cl\<lparr>cl_state := b\<rparr>) (\<lambda>observer s cl. (state_call pub observer s cl, None))
       (\<lambda>e observer cl. cl) s cl"

subsection \<open>Events of the server\<close>

definition handleAcknowledge ::
    "(client_message \<Rightarrow> 'a client_scheme \<Rightarrow> 'a client_scheme) \<Rightarrow> channel_event \<Rightarrow> 'a client_scheme \<Rightarrow> 'a client_scheme"
  where
  "handleAcknowledge pub message cl =
     (case jm_get (cl_names cl) (ce_channel message) of
        None \<Rightarrow> cl
      | Some i \<Rightarrow> with_cchan pub i (\<lambda>c. fst (cc_acknowledge (getState cl) (ce_request message) c)) cl)"

definition normalized :: "channel_event \<Rightarrow> client_error" where
  "normalized message =
     (let payload = ce_payload message;
          nestedError = (case jm_get payload ''error'' of Some (JObj fs) \<Rightarrow> fs | _ \<Rightarrow> []);
          numericCode = (case jm_get payload ''code'' of Some (JNum n) \<Rightarrow> Some (JNum n) | _ \<Rightarrow> None)
      in \<lparr>er_code = (case jm_get payload ''code'' of Some (JStr s) \<Rightarrow> s | _ \<Rightarrow> ce_event message),
          er_message = the (nullish (jm_get payload ''message'') (nullish (jm_get nestedError ''message'')
            (Some (JStr ''Channel request failed'')))),
          er_status = the (nullish (jm_get payload ''status'') (nullish (jm_get payload ''statusCode'')
            (nullish numericCode (nullish (jm_get nestedError ''status'') (Some (JNum 500)))))),
          er_status_code = None, er_details = jm_get payload ''details''\<rparr>)"

definition cl_handleError ::
    "(client_message \<Rightarrow> 'a client_scheme \<Rightarrow> 'a client_scheme) \<Rightarrow> channel_event \<Rightarrow> 'a client_scheme \<Rightarrow> 'a client_scheme"
  where
  "cl_handleError pub message cl =
     (case jm_get (cl_names cl) (ce_channel message) of
        None \<Rightarrow> cl
      | Some i \<Rightarrow> with_cchan pub i (cc_decline (normalized message) (ce_request message)) cl)"

text \<open>
  The broadcaster: the client's own observer comes first, then those of the joined channels.
  Publishing the connection state from within may fail to end too, so the walk is over an
  optional client. Exceptions of observers are swallowed.
\<close>

definition base_call ::
    "(client_message \<Rightarrow> 'a client_scheme \<Rightarrow> 'a client_scheme) \<Rightarrow> channel_event \<Rightarrow>
     'a client_scheme \<Rightarrow> 'a client_scheme option" where
  "base_call pub message cl =
     (if ce_event message = EV_ACKNOWLEDGE then Some (handleAcknowledge pub message cl)
      else if ce_action message = A_ERROR \<or> ce_event message = EV_UNAUTHORIZED then Some (cl_handleError pub message cl)
      else if ce_event message = EV_CONNECTION \<and> ce_action message = A_CONNECT then publish_state pub CONNECTED cl
      else Some cl)"

definition broadcast_call ::
    "(client_message \<Rightarrow> 'a client_scheme \<Rightarrow> 'a client_scheme) \<Rightarrow> broadcast_observer \<Rightarrow> channel_event \<Rightarrow>
     'a client_scheme \<Rightarrow> 'a client_scheme option" where
  "broadcast_call pub observer message cl =
     (case observer of
        Base \<Rightarrow> base_call pub message cl
      | Listener i n \<Rightarrow> Some (with_cchan pub i (cc_receive message) cl))"

definition cl_broadcast ::
    "(client_message \<Rightarrow> 'a client_scheme \<Rightarrow> 'a client_scheme) \<Rightarrow> channel_event \<Rightarrow>
     'a client_scheme \<Rightarrow> 'a client_scheme option" where
  "cl_broadcast pub message cl =
     (case sj_publish (\<lambda>st. case st of None \<Rightarrow> sj_new | Some cl \<Rightarrow> cl_broadcaster cl)
         (\<lambda>observer message st. (Option.bind st (broadcast_call pub observer message), None))
         (\<lambda>e observer st. st) message (Some cl) of
        None \<Rightarrow> None | Some st \<Rightarrow> st)"

text \<open>\<open>_parseMessages\<close>: one JSON value per line that is not blank.\<close>

fun parse_lines :: "(string \<Rightarrow> json res) \<Rightarrow> string list \<Rightarrow> channel_event list res" where
  "parse_lines json_parse [] = Inr []"
| "parse_lines json_parse (line # rest) =
     (if js_trim line = [] then parse_lines json_parse rest
      else res_bind (json_parse line) (\<lambda>parsed. res_bind (parse_channel_event parsed) (\<lambda>event.
        res_bind (parse_lines json_parse rest) (\<lambda>events. Inr (event # events)))))"

definition parseMessages :: "(string \<Rightarrow> json res) \<Rightarrow> string \<Rightarrow> channel_event list res" where
  "parseMessages json_parse data = parse_lines json_parse (js_split (CHR 0x0A) (js_trim data))"

fun broadcast_all ::
    "(client_message \<Rightarrow> 'a client_scheme \<Rightarrow> 'a client_scheme) \<Rightarrow> channel_event list \<Rightarrow>
     'a client_scheme \<Rightarrow> 'a client_scheme option" where
  "broadcast_all pub [] cl = Some cl"
| "broadcast_all pub (event # events) cl = Option.bind (cl_broadcast pub event cl) (broadcast_all pub events)"

subsection \<open>Channels of the client\<close>

definition cl_createChannel :: "string \<Rightarrow> obj \<Rightarrow> nat option \<Rightarrow> 'a client_scheme \<Rightarrow> nat \<times> 'a client_scheme" where
  "cl_createChannel name params joinTimeout cl =
     (let fresh = length (cl_chans cl);
          create = (fresh, cl\<lparr>cl_chans := cl_chans cl @ [new_cchan name params 100
              (case_option (cl_join_timeout cl) id joinTimeout) (cl_random cl fresh)],
            cl_names := jm_set name fresh (cl_names cl)\<rparr>)
      in case jm_get (cl_names cl) name of
           Some i \<Rightarrow> if cc_state (cl_chans cl ! i) \<noteq> CLOSED then (i, cl) else create
         | None \<Rightarrow> create)"

text \<open>With a channel definition the name is built from its path.\<close>

definition cl_createDefined ::
    "string \<Rightarrow> obj \<Rightarrow> obj \<Rightarrow> nat option \<Rightarrow> 'a client_scheme \<Rightarrow> (nat \<times> 'a client_scheme) res" where
  "cl_createDefined path params joinParams joinTimeout cl =
     res_bind (buildPondRoute path params) (\<lambda>name. Inr (cl_createChannel name joinParams joinTimeout cl))"

definition clearChannels ::
    "(client_message \<Rightarrow> 'a client_scheme \<Rightarrow> 'a client_scheme) \<Rightarrow> 'a client_scheme \<Rightarrow> 'a client_scheme" where
  "clearChannels pub cl =
     (fold (\<lambda>i. with_cchan pub i cc_leave) (jm_values (cl_names cl)) cl)\<lparr>cl_names := []\<rparr>"

subsection \<open>Timers\<close>

text \<open>A timer of a connection attempt runs until it fires or is cleared; the handle is the last one.\<close>

definition startConnectionTimeout :: "nat \<Rightarrow> 'a client_scheme \<Rightarrow> 'a client_scheme" where
  "startConnectionTimeout attempt cl =
     cl\<lparr>cl_conn_timers := cl_conn_timers cl @ [attempt], cl_conn_handle := Some attempt\<rparr>"

definition clearConnectionTimeout :: "'a client_scheme \<Rightarrow> 'a client_scheme" where
  "clearConnectionTimeout cl =
     (case cl_conn_handle cl of
        None \<Rightarrow> cl
      | Some attempt \<Rightarrow> cl\<lparr>cl_conn_timers := js_remove attempt (cl_conn_timers cl), cl_conn_handle := None\<rparr>)"

definition clearReconnectTimeout :: "'a client_scheme \<Rightarrow> 'a client_scheme" where
  "clearReconnectTimeout cl = cl\<lparr>cl_reconnect := None\<rparr>"

definition reconnect_delay :: "nat \<Rightarrow> nat \<Rightarrow> nat" where
  "reconnect_delay attempts maxReconnectDelay = min (1000 * 2 ^ attempts) maxReconnectDelay"

definition scheduleReconnect :: "'a client_scheme \<Rightarrow> 'a client_scheme" where
  "scheduleReconnect cl =
     (if cl_disconnecting cl then cl
      else cl\<lparr>cl_reconnect := Some (reconnect_delay (cl_attempts cl) (cl_max_delay cl)),
              cl_attempts := Suc (cl_attempts cl)\<rparr>)"

definition reconnect_fires ::
    "('a client_scheme \<Rightarrow> 'a client_scheme option) \<Rightarrow> 'a client_scheme \<Rightarrow> 'a client_scheme option" where
  "reconnect_fires connect cl =
     (if cl_reconnect cl = None then Some cl
      else (let cl1 = cl\<lparr>cl_reconnect := None\<rparr> in if cl_disconnecting cl1 then Some cl1 else connect cl1))"

end
