(* ===== verification/Frames.thy ===== *)
theory Frames
  imports Json_Parse Base_Client
begin

text \<open>
  Frames as texts: what a client writes the server reads, and what a server writes, one event or
  several on lines of their own, a client reads, in order.
\<close>

subsection \<open>A text is one line\<close>

lemma hex_char_printable: "d < 16 \<Longrightarrow> hex_char d \<noteq> CHR 0x0A"
proof -
  assume "d < 16"
  then have "byte (hex_char d) \<noteq> byte CHR 0x0A" by (simp add: hex_char_def of_char_of)
  then show ?thesis by metis
qed

lemma escape_one_line: "CHR 0x0A \<notin> set (json_escape c)"
proof (cases "(of_char c :: nat) < 32")
  case True
  then have "byte c div 16 < 16" "byte c mod 16 < 16" by simp_all
  from this [THEN hex_char_printable] have "hex_char (of_char c div 16) \<noteq> CHR 0x0A" "hex_char (of_char c mod 16) \<noteq> CHR 0x0A" .
  then show ?thesis by (simp add: json_escape_def)
qed (auto simp: json_escape_def)

lemma quote_one_line: "CHR 0x0A \<notin> set (json_quote s)"
  using escape_one_line by (auto simp: json_quote_def)

lemma number_one_line: "CHR 0x0A \<notin> set (int_text i)"
proof -
  have "CHR 0x0A \<notin> set (nat_text n)" for n
    using nat_text_digits [of n] by (auto simp: list_all_iff is_digit_def)
  then show ?thesis by (simp add: int_text_def)
qed

lemma set_js_join: "set (js_join sep ss) \<subseteq> set sep \<union> \<Union> (set ` set ss)"
  by (induction sep ss rule: js_join.induct) auto

lemma text_one_line: "CHR 0x0A \<notin> set (json_stringify v)"
proof (induction v)
  case (JArr xs)
  then show ?case using set_js_join [of "'',''" "map json_stringify xs"] by auto
next
  case (JObj fs)
  have "CHR 0x0A \<notin> set (json_quote (fst p) @ '':'' @ json_stringify (snd p))" if "p \<in> set fs" for p
    using JObj [of p "snd p"] that quote_one_line [of "fst p"] by (auto simp: snds.simps)
  then have "CHR 0x0A \<notin> \<Union> (set ` set (map (\<lambda>p. json_quote (fst p) @ '':'' @ json_stringify (snd p)) fs))" by auto
  then have "CHR 0x0A \<notin> set (js_join '','' (map (\<lambda>p. json_quote (fst p) @ '':'' @ json_stringify (snd p)) fs))"
    using set_js_join [of "'',''" "map (\<lambda>p. json_quote (fst p) @ '':'' @ json_stringify (snd p)) fs"] by auto
  then show ?case by simp
qed (simp_all add: quote_one_line number_one_line)

subsection \<open>Trimming takes nothing away\<close>

lemma trim_ends: "s = [] \<or> visible (hd s) \<and> visible (last s) \<Longrightarrow> js_trim s = s"
proof -
  assume s: "s = [] \<or> visible (hd s) \<and> visible (last s)"
  have "strip_prefixes js_spaces s = s"
    using s by (intro strip_visible) (auto simp: spaces_invisible)
  moreover have "strip_prefixes (map rev js_spaces) (rev s) = rev s"
    using s by (intro strip_visible) (auto simp: spaces_invisible hd_rev)
  ultimately show ?thesis by (simp add: js_trim_def)
qed

lemma object_ends: "\<exists>t. json_stringify (JObj fs) = CHR ''{'' # t @ ''}''"
  by auto

lemma braces_visible: "visible CHR ''{''" "visible CHR ''}''"
  by (simp_all add: visible_def)

lemma object_trim: "js_trim (json_stringify (JObj fs)) = json_stringify (JObj fs)"
  using object_ends [of fs] braces_visible by (auto intro!: trim_ends)

definition event_text :: "channel_event \<Rightarrow> string" where
  "event_text e = json_stringify (channel_event_json e)"

lemma event_text_facts:
  "CHR 0x0A \<notin> set (event_text e)" "js_trim (event_text e) = event_text e"
  "\<exists>t. event_text e = CHR ''{'' # t @ ''}''"
  unfolding event_text_def channel_event_json_def by (rule text_one_line object_trim object_ends)+

lemma frame_ends:
  assumes "es \<noteq> []"
  shows "\<exists>t. js_join [CHR 0x0A] (map event_text es) = CHR ''{'' # t @ ''}''"
  using assms
proof (induction es)
  case (Cons e es)
  obtain t where t: "event_text e = CHR ''{'' # t @ ''}''" using event_text_facts(3) by blast
  show ?case
  proof (cases "es = []")
    case False
    with Cons.IH obtain u where "js_join [CHR 0x0A] (map event_text es) = CHR ''{'' # u @ ''}''" by blast
    with t False show ?thesis by (simp add: js_join_Cons)
  qed (simp add: t)
qed simp

lemma frame_trim: "js_trim (js_join [CHR 0x0A] (map event_text es)) = js_join [CHR 0x0A] (map event_text es)"
proof (cases "es = []")
  case False
  then obtain t where "js_join [CHR 0x0A] (map event_text es) = CHR ''{'' # t @ ''}''" using frame_ends by blast
  then show ?thesis using braces_visible by (auto intro!: trim_ends)
qed (simp add: trim_ends)

lemma event_read:
  assumes "wire_event e" "json_ok (JObj (ce_payload e))"
  shows "res_bind (JSON_parse (event_text e)) parse_channel_event = Inr e"
proof -
  have "json_ok (channel_event_json e)" using assms(2) by (simp add: channel_event_json_def)
  then show ?thesis
    using wire_event_accepted [OF assms(1)] by (simp add: event_text_def parse_stringify res_bind_def)
qed

lemma lines_read:
  "list_all (\<lambda>e. wire_event e \<and> json_ok (JObj (ce_payload e))) es \<Longrightarrow> parse_lines JSON_parse (map event_text es) = Inr es"
proof (induction es)
  case (Cons e es)
  then have "res_bind (JSON_parse (event_text e)) parse_channel_event = Inr e" by (intro event_read) simp_all
  moreover have "event_text e \<noteq> []" using event_text_facts(3) [of e] by auto
  ultimately show ?case
    using Cons by (auto simp: event_text_facts(2) res_bind_def split: sum.splits)
qed simp

text \<open>
  C16. The text of a client message parses and validates on the server to that very message, and a
  frame with the texts of any events a server may send, one per line, parses on the client to
  these events in order: no name and no payload, whatever characters it holds, breaks a line or
  is cut off by trimming.
\<close>

theorem frames_roundtrip:
  assumes "json_ok (JObj (cm_payload m))"
    and "list_all (\<lambda>e. wire_event e \<and> json_ok (JObj (ce_payload e))) events"
  shows "res_bind (JSON_parse (json_stringify (client_message_json m))) parse_client_message = Inr m
    \<and> parseMessages JSON_parse (js_join [CHR 0x0A] (map (\<lambda>e. json_stringify (channel_event_json e)) events)) = Inr events"
proof (rule conjI)
  have "json_ok (client_message_json m)" using assms(1) by (simp add: client_message_json_def)
  then show "res_bind (JSON_parse (json_stringify (client_message_json m))) parse_client_message = Inr m"
    by (simp add: parse_stringify res_bind_def client_message_roundtrip)
  have "js_split CHR 0x0A (js_join [CHR 0x0A] (map event_text events)) = map event_text events" if "events \<noteq> []"
    using that event_text_facts(1) by (intro js_split_join) auto
  then have "parseMessages JSON_parse (js_join [CHR 0x0A] (map event_text events)) = Inr events"
    using lines_read [OF assms(2)] by (cases "events = []") (simp_all add: parseMessages_def frame_trim trim_ends)
  then show "parseMessages JSON_parse (js_join [CHR 0x0A] (map (\<lambda>e. json_stringify (channel_event_json e)) events)) = Inr events"
    by (simp add: event_text_def [abs_def])
qed

text \<open>Two events whose names and payloads hold line breaks and quotes, in one frame.\<close>

theorem frames_roundtrip_witness:
  "let e = \<lparr>ce_action = A_BROADCAST, ce_event = [CHR 0x0A, CHR 0x22], ce_channel = ''/chat/1'', ce_request = ''r'',
         ce_payload = [(''text'', JStr [CHR '' '', CHR 0x0A])]\<rparr>
   in parseMessages JSON_parse (json_stringify (channel_event_json e) @ CHR 0x0A # json_stringify (channel_event_json e))
      = Inr [e, e]"
proof -
  let ?e = "\<lparr>ce_action = A_BROADCAST, ce_event = [CHR 0x0A, CHR 0x22], ce_channel = ''/chat/1'', ce_request = ''r'',
         ce_payload = [(''text'', JStr [CHR '' '', CHR 0x0A])]\<rparr>"
  let ?m = "\<lparr>cm_action = C_BROADCAST, cm_event = [], cm_channel = [], cm_request = [], cm_payload = []\<rparr>"
  have "json_ok (JObj (cm_payload ?m))" "list_all (\<lambda>e. wire_event e \<and> json_ok (JObj (ce_payload e))) [?e, ?e]"
    by (simp_all add: wire_event_def)
  from frames_roundtrip [OF this] show ?thesis by (simp only: Let_def list.map js_join.simps) simp
qed

end
