(* ===== verification/Middleware.thy ===== *)
theory Middleware
  imports Common_Types
begin

text \<open>
  The middleware chain of \<open>core/src/abstracts/middleware.ts\<close>. A chain is a list of functions;
  \<open>run\<close> calls the first one with a \<open>next\<close> that calls the second one, and so on, and \<open>final\<close>
  when the chain is exhausted or something failed. All \<open>next\<close> closures of a run share one index.

  What a middleware function does with \<open>next\<close> is arbitrary user code. It is represented by the
  tree of its interactions: act on the program's state, call \<open>next\<close> (any number of times, with
  or without an error, going on with what \<open>next\<close> threw, if anything), throw, suspend at an
  \<open>await\<close>, or return a promise that is rejected later. The promises of a run that are still
  pending are its tasks; the event loop resumes them in any order, with other code in between.
\<close>

subsection \<open>Middleware functions\<close>

datatype (dead 'st) mw_prog =
    Done
  | Throw exn
  | Reject exn
  | Act "'st \<Rightarrow> 'st \<times> 'st mw_prog"
  | Call_Next "exn option" "exn option \<Rightarrow> 'st mw_prog"
  | Await "'st mw_prog"

datatype (dead 'st) mw_task = Rejected exn | Suspended "'st mw_prog"

text \<open>
  A handler of the application is called with a \<open>next\<close> of its own that notes that the request was
  passed on, and when it has ended (its promise is fulfilled) something is checked.
\<close>

primrec guard_prog :: "('st \<Rightarrow> 'st) \<Rightarrow> 'st mw_prog \<Rightarrow> 'st mw_prog \<Rightarrow> 'st mw_prog" where
  "guard_prog mark check Done = Await check"
| "guard_prog mark check (Throw e) = Throw e"
| "guard_prog mark check (Reject e) = Reject e"
| "guard_prog mark check (Act f) = Act (\<lambda>st. map_prod id (guard_prog mark check) (f st))"
| "guard_prog mark check (Call_Next err k) =
     Act (\<lambda>st. (mark st, Call_Next err (\<lambda>e. guard_prog mark check (k e))))"
| "guard_prog mark check (Await p) = Await (guard_prog mark check p)"

text \<open>
  One run: the shared index, the pending tasks and the program's state; \<open>mr_called\<close> and
  \<open>mr_finals\<close> record which functions were invoked and what \<open>final\<close> was called with.
\<close>

record 'st mw_run =
  mr_index :: nat
  mr_tasks :: "'st mw_task list"
  mr_state :: 'st
  mr_called :: "nat list"
  mr_finals :: "exn option list"

fun handleError :: "exn \<Rightarrow> exn" where
  "handleError (Http_Error code message) = Http_Error code message"
| "handleError (Plain_Error message) = Http_Error 500 message"
| "handleError Not_An_Error = Http_Error 500 ''An error occurred while processing the request''"

text \<open>Calling \<open>final\<close>; it may throw.\<close>

definition call_final ::
    "(exn option \<Rightarrow> 'st \<Rightarrow> 'st \<times> exn option) \<Rightarrow> exn option \<Rightarrow> 'st mw_run \<Rightarrow> 'st mw_run \<times> exn option"
  where
  "call_final final err r =
     (let (st', e) = final err (mr_state r)
      in (r\<lparr>mr_state := st', mr_finals := mr_finals r @ [err]\<rparr>, e))"

text \<open>
  Running a function up to its end or its first \<open>await\<close>. The result says what it threw
  synchronously.
\<close>

primrec exec_prog ::
    "(exn option \<Rightarrow> 'st mw_run \<Rightarrow> 'st mw_run \<times> exn option) \<Rightarrow> 'st mw_prog \<Rightarrow>
     'st mw_run \<Rightarrow> 'st mw_run \<times> exn option" where
  "exec_prog nxt Done = (\<lambda>r. (r, None))"
| "exec_prog nxt (Throw e) = (\<lambda>r. (r, Some e))"
| "exec_prog nxt (Reject e) = (\<lambda>r. (r\<lparr>mr_tasks := mr_tasks r @ [Rejected e]\<rparr>, None))"
| "exec_prog nxt (Act f) =
     (\<lambda>r. let (st', k) = map_prod id (exec_prog nxt) (f (mr_state r)) in k (r\<lparr>mr_state := st'\<rparr>))"
| "exec_prog nxt (Call_Next err k) =
     (\<lambda>r. let (r', e) = nxt err r in exec_prog nxt (k e) r')"
| "exec_prog nxt (Await p) = (\<lambda>r. (r\<lparr>mr_tasks := mr_tasks r @ [Suspended p]\<rparr>, None))"

text \<open>
  The \<open>next\<close> of a run. Each nested call moves the index on, so the chain's length bounds the
  nesting; the fuel is that bound and is never exhausted (\<open>next_fuel_enough\<close>).
\<close>

fun mw_next ::
    "nat \<Rightarrow> ('st mw_prog) list \<Rightarrow> (exn option \<Rightarrow> 'st \<Rightarrow> 'st \<times> exn option) \<Rightarrow>
     exn option \<Rightarrow> 'st mw_run \<Rightarrow> 'st mw_run \<times> exn option" where
  "mw_next 0 stack final err r = (r, Some Not_An_Error)"
| "mw_next (Suc fuel) stack final err r =
     (case err of
        Some e \<Rightarrow> call_final final (Some (handleError e)) r
      | None \<Rightarrow>
          if length stack \<le> mr_index r then call_final final None r
          else
            (let index = mr_index r;
                 (r', e) = exec_prog (mw_next fuel stack final) (stack ! index)
                   (r\<lparr>mr_index := Suc index, mr_called := mr_called r @ [index]\<rparr>)
             in case e of
                  None \<Rightarrow> (r', None)
                | Some e \<Rightarrow> call_final final (Some (handleError e)) r'))"

declare mw_next.simps(2) [simp del]

definition next_of ::
    "('st mw_prog) list \<Rightarrow> (exn option \<Rightarrow> 'st \<Rightarrow> 'st \<times> exn option) \<Rightarrow>
     exn option \<Rightarrow> 'st mw_run \<Rightarrow> 'st mw_run \<times> exn option" where
  "next_of stack final = mw_next (Suc (length stack)) stack final"

definition start_run :: "'st \<Rightarrow> 'st mw_run" where
  "start_run st = \<lparr>mr_index = 0, mr_tasks = [], mr_state = st, mr_called = [], mr_finals = []\<rparr>"

text \<open>
  \<open>run\<close>: the synchronous part. The second component is what escapes to the caller: only an
  exception of \<open>final\<close> can.
\<close>

definition mw_run ::
    "('req \<Rightarrow> 'res \<Rightarrow> 'st mw_prog) list \<Rightarrow> 'req \<Rightarrow> 'res \<Rightarrow> (exn option \<Rightarrow> 'st \<Rightarrow> 'st \<times> exn option) \<Rightarrow>
     'st \<Rightarrow> 'st mw_run \<times> exn option" where
  "mw_run stack req res final st = next_of (map (\<lambda>m. m req res) stack) final None (start_run st)"

text \<open>
  The event loop: a pending task is resumed, or other code changes the state. A rejected promise
  ends in \<open>final\<close>, whose own exception is swallowed; a resumed function that throws rejects its
  promise.
\<close>

datatype (dead 'st) mw_event = Resume nat | Other "'st \<Rightarrow> 'st"

definition mw_resume ::
    "('st mw_prog) list \<Rightarrow> (exn option \<Rightarrow> 'st \<Rightarrow> 'st \<times> exn option) \<Rightarrow> 'st mw_run \<Rightarrow> 'st mw_event \<Rightarrow> 'st mw_run"
  where
  "mw_resume stack final r event =
     (case event of
        Other f \<Rightarrow> r\<lparr>mr_state := f (mr_state r)\<rparr>
      | Resume i \<Rightarrow>
          if length (mr_tasks r) \<le> i then r
          else
            (let r1 = r\<lparr>mr_tasks := take i (mr_tasks r) @ drop (Suc i) (mr_tasks r)\<rparr>
             in case mr_tasks r ! i of
                  Rejected e \<Rightarrow> fst (call_final final (Some (handleError e)) r1)
                | Suspended p \<Rightarrow>
                    (case exec_prog (next_of stack final) p r1 of
                       (r2, None) \<Rightarrow> r2
                     | (r2, Some e) \<Rightarrow> r2\<lparr>mr_tasks := mr_tasks r2 @ [Rejected e]\<rparr>)))"

text \<open>\<open>use\<close> appends one function or another chain's functions; the constructor copies a chain.\<close>

definition mw_use :: "'m list \<Rightarrow> 'm + 'm list \<Rightarrow> 'm list" where
  "mw_use stack m = (case m of Inl f \<Rightarrow> stack @ [f] | Inr second \<Rightarrow> stack @ second)"

definition mw_new :: "'m list option \<Rightarrow> 'm list" where
  "mw_new second = (case second of None \<Rightarrow> [] | Some stack \<Rightarrow> stack)"

definition mw_length :: "'m list \<Rightarrow> nat" where
  "mw_length stack = length stack"

lemma mw_prog_tree_induct [case_names Done Throw Reject Act Call_Next Await]:
  assumes "P Done" "\<And>e. P (Throw e)" "\<And>e. P (Reject e)"
    and act: "\<And>f. (\<And>st. P (snd (f st))) \<Longrightarrow> P (Act f)"
    and call: "\<And>err k. (\<And>e. P (k e)) \<Longrightarrow> P (Call_Next err k)"
    and await: "\<And>p. P p \<Longrightarrow> P (Await p)"
  shows "P p"
proof (induction p)
  case (Act f)
  have "P (snd (f st))" for st
    using Act.IH [of "f st" "snd (f st)"] by (metis prod.collapse rangeI snds.intros)
  then show ?case by (rule act)
next
  case (Call_Next err k)
  then show ?case by (intro call) simp
qed (use assms in auto)

lemma exec_prog_Act [simp]:
  "exec_prog nxt (Act f) r =
     exec_prog nxt (snd (f (mr_state r))) (r\<lparr>mr_state := fst (f (mr_state r))\<rparr>)"
  by (cases "f (mr_state r)") simp

declare exec_prog.simps(4) [simp del]

subsection \<open>The order of calls\<close>

text \<open>
  The invariant of a run: the functions invoked so far are exactly the first ones, once each,
  in order, and \<open>final\<close> is only ever called with nothing or with an \<open>HttpError\<close>.
\<close>

definition is_http :: "exn option \<Rightarrow> bool" where
  "is_http err = (case err of None \<Rightarrow> True | Some (Http_Error _ _) \<Rightarrow> True | _ \<Rightarrow> False)"

lemma is_http_simps [simp]: "is_http None" "is_http (Some (handleError e))"
  by (simp_all add: is_http_def split: exn.splits) (cases e, simp_all)

definition run_inv :: "nat \<Rightarrow> 'st mw_run \<Rightarrow> bool" where
  "run_inv n r \<longleftrightarrow> mr_called r = [0..<mr_index r] \<and> mr_index r \<le> n \<and> list_all is_http (mr_finals r)"

definition keeps_run :: "nat \<Rightarrow> (exn option \<Rightarrow> 'st mw_run \<Rightarrow> 'st mw_run \<times> exn option) \<Rightarrow> bool" where
  "keeps_run n nxt \<longleftrightarrow> (\<forall>err r. run_inv n r \<longrightarrow> run_inv n (fst (nxt err r)))"

lemma run_inv_frame [simp]:
  "run_inv n (r\<lparr>mr_tasks := ts\<rparr>) = run_inv n r" "run_inv n (r\<lparr>mr_state := st\<rparr>) = run_inv n r"
  by (simp_all add: run_inv_def)

lemma call_final_inv:
  "run_inv n r \<Longrightarrow> is_http err \<Longrightarrow> run_inv n (fst (call_final final err r))"
  by (simp add: call_final_def run_inv_def case_prod_beta Let_def)

lemma exec_prog_inv:
  assumes "keeps_run n nxt"
  shows "run_inv n r \<Longrightarrow> run_inv n (fst (exec_prog nxt p r))"
proof (induction p arbitrary: r rule: mw_prog_tree_induct)
  case (Call_Next err k)
  then show ?case
    using assms by (simp add: keeps_run_def case_prod_beta Let_def)
qed simp_all

lemma mw_next_inv: "keeps_run (length stack) (mw_next fuel stack final)"
proof (induction fuel)
  case 0
  then show ?case by (simp add: keeps_run_def)
next
  case (Suc fuel)
  show ?case
    unfolding keeps_run_def
  proof (intro allI impI)
    fix err and r :: "'a mw_run"
    assume inv: "run_inv (length stack) r"
    let ?r = "r\<lparr>mr_index := Suc (mr_index r), mr_called := mr_called r @ [mr_index r]\<rparr>"
    have step: "run_inv (length stack) (fst (exec_prog (mw_next fuel stack final) p ?r))"
      if "\<not> length stack \<le> mr_index r" for p
      using inv that by (intro exec_prog_inv [OF Suc.IH]) (simp add: run_inv_def)
    show "run_inv (length stack) (fst (mw_next (Suc fuel) stack final err r))"
      using inv step
      by (auto simp: mw_next.simps(2) call_final_inv Let_def case_prod_beta split: option.splits)
  qed
qed

lemma mw_resume_inv:
  assumes inv: "run_inv (length stack) r"
  shows "run_inv (length stack) (mw_resume stack final r ev)"
proof (cases ev)
  case (Other f)
  with inv show ?thesis by (simp add: mw_resume_def)
next
  case (Resume i)
  let ?r = "r\<lparr>mr_tasks := take i (mr_tasks r) @ drop (Suc i) (mr_tasks r)\<rparr>"
  have step: "run_inv (length stack) (fst (exec_prog (next_of stack final) p ?r))" for p
    unfolding next_of_def using inv by (intro exec_prog_inv [OF mw_next_inv]) simp
  show ?thesis
  proof (cases "mr_tasks r ! i")
    case (Rejected e)
    with inv Resume show ?thesis by (simp add: mw_resume_def call_final_inv)
  next
    case (Suspended p)
    with inv Resume step [of p] show ?thesis
      by (auto simp: mw_resume_def split: prod.splits option.splits)
  qed
qed

subsection \<open>The fuel is enough\<close>

text \<open>
  A \<open>next\<close> only moves the index forward. Two \<open>next\<close> functions that agree from an index on run
  every function alike from there, so the result of a run does not depend on the fuel once it
  exceeds the number of functions left.
\<close>

definition forward :: "(exn option \<Rightarrow> 'st mw_run \<Rightarrow> 'st mw_run \<times> exn option) \<Rightarrow> bool" where
  "forward nxt \<longleftrightarrow> (\<forall>err r. mr_index r \<le> mr_index (fst (nxt err r)))"

lemma call_final_index [simp]: "mr_index (fst (call_final final err r)) = mr_index r"
  by (simp add: call_final_def case_prod_beta Let_def)

lemma exec_prog_forward:
  assumes "forward nxt"
  shows "mr_index r \<le> mr_index (fst (exec_prog nxt p r))"
proof (induction p arbitrary: r rule: mw_prog_tree_induct)
  case (Act f)
  from Act.IH [of "r\<lparr>mr_state := fst (f (mr_state r))\<rparr>" "mr_state r"] show ?case by simp
next
  case (Call_Next err k)
  have "mr_index r \<le> mr_index (fst (nxt err r))" using assms by (simp add: forward_def)
  also have "\<dots> \<le> mr_index (fst (exec_prog nxt (k (snd (nxt err r))) (fst (nxt err r))))"
    by (rule Call_Next.IH)
  finally show ?case by (simp add: case_prod_beta Let_def)
qed simp_all

lemma mw_next_forward: "forward (mw_next fuel stack final)"
proof (induction fuel)
  case 0
  then show ?case by (simp add: forward_def)
next
  case (Suc fuel)
  have "mr_index r \<le> mr_index (fst (mw_next (Suc fuel) stack final err r))" for err r
    using exec_prog_forward [OF Suc.IH, of "r\<lparr>mr_index := Suc (mr_index r), mr_called := mr_called r @ [mr_index r]\<rparr>"]
    by (auto simp: mw_next.simps(2) Let_def case_prod_beta split: option.splits dest: Suc_leD)
  then show ?case by (simp add: forward_def)
qed

lemma exec_prog_cong:
  assumes agree: "\<And>err r. i \<le> mr_index r \<Longrightarrow> nxt err r = nxt' err r" and fwd: "forward nxt"
  shows "i \<le> mr_index r \<Longrightarrow> exec_prog nxt p r = exec_prog nxt' p r"
proof (induction p arbitrary: r rule: mw_prog_tree_induct)
  case (Call_Next err k)
  then have "i \<le> mr_index (fst (nxt err r))"
    using fwd by (auto simp: forward_def intro: le_trans)
  then show ?case
    using Call_Next agree by (simp add: case_prod_beta Let_def)
qed simp_all

lemma next_fuel_enough:
  "length stack < fuel + mr_index r \<Longrightarrow> length stack < fuel' + mr_index r \<Longrightarrow>
     0 < fuel \<Longrightarrow> 0 < fuel' \<Longrightarrow>
     mw_next fuel stack final err r = mw_next fuel' stack final err r"
proof (induction fuel arbitrary: fuel' err r)
  case 0
  then show ?case by simp
next
  case (Suc fuel)
  then obtain m where m: "fuel' = Suc m" by (cases fuel') auto
  show ?case
  proof (cases "err = None \<and> mr_index r < length stack")
    case False
    then show ?thesis
      by (auto simp: m mw_next.simps(2) split: option.splits)
  next
    case True
    let ?r = "r\<lparr>mr_index := Suc (mr_index r), mr_called := mr_called r @ [mr_index r]\<rparr>"
    have "mw_next fuel stack final e s = mw_next m stack final e s"
      if "Suc (mr_index r) \<le> mr_index s" for e s
      using Suc.prems True that m by (intro Suc.IH) auto
    then have "exec_prog (mw_next fuel stack final) (stack ! mr_index r) ?r
        = exec_prog (mw_next m stack final) (stack ! mr_index r) ?r"
      by (intro exec_prog_cong [where i = "Suc (mr_index r)"] mw_next_forward) auto
    with True show ?thesis by (simp add: m mw_next.simps(2) Let_def)
  qed
qed

subsection \<open>Dispatch\<close>

text \<open>A function that does nothing but \<open>return next()\<close>.\<close>

definition pass_on :: "'st mw_prog" where
  "pass_on = Call_Next None (\<lambda>e. case e of None \<Rightarrow> Done | Some x \<Rightarrow> Throw x)"

lemma exec_pass_on:
  "exec_prog nxt pass_on r = (let (r', e) = nxt None r in (r', e))"
  by (auto simp: pass_on_def case_prod_beta Let_def prod_eq_iff split: option.splits)

lemma mw_next_pass_on:
  assumes "mr_index r < length stack" "stack ! mr_index r = pass_on"
    and "mw_next fuel stack final None
      (r\<lparr>mr_index := Suc (mr_index r), mr_called := mr_called r @ [mr_index r]\<rparr>) = (r', None)"
  shows "mw_next (Suc fuel) stack final None r = (r', None)"
  using assms by (simp add: mw_next.simps(2) exec_pass_on Let_def)

text \<open>Functions that pass the request on lead to the first one that does not.\<close>

lemma mw_next_prefix:
  assumes "\<forall>p \<in> set ps. p = pass_on" "mr_index r = length done_before" "length ps \<le> fuel"
    and "stack = done_before @ ps @ rest"
    and "mw_next (fuel - length ps) stack final None
      (r\<lparr>mr_index := mr_index r + length ps,
         mr_called := mr_called r @ [mr_index r..<mr_index r + length ps]\<rparr>) = (r', None)"
  shows "mw_next fuel stack final None r = (r', None)"
  using assms
proof (induction ps arbitrary: r done_before fuel)
  case Nil
  then show ?case by (cases r) simp
next
  case (Cons p ps)
  then obtain f where f: "fuel = Suc f" by (cases fuel) auto
  let ?r = "r\<lparr>mr_index := Suc (mr_index r), mr_called := mr_called r @ [mr_index r]\<rparr>"
  have called: "(mr_called r @ [mr_index r]) @ [Suc (mr_index r)..<Suc (mr_index r) + length ps]
      = mr_called r @ [mr_index r..<mr_index r + length (p # ps)]"
    using upt_conv_Cons [of "mr_index r" "mr_index r + length (p # ps)"] by simp
  have "mw_next (f - length ps) stack final None
      (?r\<lparr>mr_index := mr_index ?r + length ps,
         mr_called := mr_called ?r @ [mr_index ?r..<mr_index ?r + length ps]\<rparr>) = (r', None)"
    using Cons.prems(5) called by (simp add: f del: upt_Suc)
  then have "mw_next f stack final None ?r = (r', None)"
    using Cons.prems(1-4) by (intro Cons.IH [of ?r "done_before @ [p]" f]) (simp_all add: f)
  then show ?case
    using Cons.prems unfolding f by (intro mw_next_pass_on) (simp_all add: nth_append)
qed

lemma nth_map_prefix: "(map f pre @ x # ys) ! length pre = x"
  by (metis length_map nth_append_length)

lemma mw_run_prefix:
  assumes pre: "\<forall>m \<in> set pre. m req res = pass_on" and stack: "stack = pre @ rest"
    and last: "mw_next (Suc (length rest)) (map (\<lambda>m. m req res) stack) final None
      \<lparr>mr_index = length pre, mr_tasks = [], mr_state = st, mr_called = [0..<length pre], mr_finals = []\<rparr>
      = (r', None)"
  shows "mw_run stack req res final st = (r', None)"
proof -
  let ?f = "\<lambda>m. m req res"
  have "mw_next (Suc (length stack)) (map ?f stack) final None (start_run st) = (r', None)"
  proof (rule mw_next_prefix [where done_before = "[]" and ps = "map ?f pre" and rest = "map ?f rest"])
    show "\<forall>p \<in> set (map ?f pre). p = pass_on" using pre by simp
    show "mw_next (Suc (length stack) - length (map ?f pre)) (map ?f stack) final None
      (start_run st\<lparr>mr_index := mr_index (start_run st) + length (map ?f pre),
         mr_called := mr_called (start_run st)
           @ [mr_index (start_run st)..<mr_index (start_run st) + length (map ?f pre)]\<rparr>) = (r', None)"
      using last by (simp add: stack start_run_def)
  qed (simp_all add: stack start_run_def)
  then show ?thesis by (simp add: mw_run_def next_of_def)
qed

lemma mw_run_exhausted:
  assumes pre: "\<forall>m \<in> set stack. m req res = pass_on" and final: "final None st = (st', None)"
  shows "mw_run stack req res final st =
    (\<lparr>mr_index = length stack, mr_tasks = [], mr_state = st', mr_called = [0..<length stack],
      mr_finals = [None]\<rparr>, None)"
  using final by (intro mw_run_prefix [where rest = "[]", OF pre]) (simp_all add: mw_next.simps(2) call_final_def)

lemma mw_run_suspended:
  assumes pre: "\<forall>m \<in> set pre. m req res = pass_on" and m: "m req res = Act f" "f st = (st', Await p)"
  shows "mw_run (pre @ m # post) req res final st =
    (\<lparr>mr_index = Suc (length pre), mr_tasks = [Suspended p], mr_state = st',
      mr_called = [0..<Suc (length pre)], mr_finals = []\<rparr>, None)"
proof (rule mw_run_prefix [OF pre refl])
  show "mw_next (Suc (length (m # post))) (map (\<lambda>m. m req res) (pre @ m # post)) final None
      \<lparr>mr_index = length pre, mr_tasks = [], mr_state = st, mr_called = [0..<length pre], mr_finals = []\<rparr>
    = (\<lparr>mr_index = Suc (length pre), mr_tasks = [Suspended p], mr_state = st',
      mr_called = [0..<Suc (length pre)], mr_finals = []\<rparr>, None)"
    unfolding mw_next.simps(2) Let_def by (simp add: nth_map_prefix m)
qed

subsection \<open>The contract of a chain\<close>

lemma mw_resume_run_inv:
  "run_inv (length stack) r \<Longrightarrow> run_inv (length stack) (foldl (mw_resume stack final) r events)"
  by (induction events arbitrary: r) (auto intro: mw_resume_inv)

text \<open>
  C23. Whatever the functions of a chain do (call \<open>next\<close> several times, late or not at
  all, throw, suspend) and however the event loop interleaves them, the functions invoked are
  the first ones of the chain, each once, in order of registration; and \<open>final\<close> only ever
  receives nothing or an \<open>HttpError\<close>.
\<close>

theorem middleware_order:
  "let r = foldl (mw_resume (map (\<lambda>m. m req res) stack) final) (fst (mw_run stack req res final st)) events
   in mr_called r = [0..<mr_index r] \<and> mr_index r \<le> length stack \<and> list_all is_http (mr_finals r)"
proof -
  let ?stack = "map (\<lambda>m. m req res) stack"
  have "run_inv (length ?stack) (start_run st)"
    by (simp add: run_inv_def start_run_def)
  then have start: "run_inv (length ?stack) (fst (mw_run stack req res final st))"
    using mw_next_inv unfolding mw_run_def next_of_def keeps_run_def by blast
  from mw_resume_run_inv [OF start] show ?thesis by (simp add: run_inv_def Let_def)
qed

text \<open>
  The first function that does not pass the request on handles it alone: it runs once on
  the program's state, the functions behind it are not invoked and \<open>final\<close> is not called.
\<close>

theorem middleware_dispatch:
  assumes "\<forall>m \<in> set pre. m req res = pass_on" and "m req res = Act (\<lambda>s. (handle s, Done))"
  shows "mw_run (pre @ m # post) req res final st =
    (\<lparr>mr_index = Suc (length pre), mr_tasks = [], mr_state = handle st,
      mr_called = [0..<Suc (length pre)], mr_finals = []\<rparr>, None)"
proof (rule mw_run_prefix [OF assms(1) refl])
  show "mw_next (Suc (length (m # post))) (map (\<lambda>m. m req res) (pre @ m # post)) final None
      \<lparr>mr_index = length pre, mr_tasks = [], mr_state = st, mr_called = [0..<length pre], mr_finals = []\<rparr>
    = (\<lparr>mr_index = Suc (length pre), mr_tasks = [], mr_state = handle st,
      mr_called = [0..<Suc (length pre)], mr_finals = []\<rparr>, None)"
    unfolding mw_next.simps(2) Let_def by (simp add: nth_map_prefix assms(2))
qed

theorem middleware_dispatch_witness:
  "mw_run [\<lambda>_ _. pass_on, \<lambda>_ _. Act (\<lambda>s. (s + 1, Done)), \<lambda>_ _. Throw Not_An_Error] () ()
     (\<lambda>_ s. (s, None)) (5 :: nat) =
   (\<lparr>mr_index = 2, mr_tasks = [], mr_state = 6, mr_called = [0, 1], mr_finals = []\<rparr>, None)"
  using middleware_dispatch [of "[\<lambda>_ _. pass_on]" "()" "()" "\<lambda>_ _. Act (\<lambda>s. (s + 1, Done))"
      "\<lambda>s. s + 1" "[\<lambda>_ _. Throw Not_An_Error]" "\<lambda>_ s. (s, None)" "5 :: nat"]
  by simp

text \<open>
  A request every function passes on reaches \<open>final\<close> once, without an error; a function
  that throws ends the run in \<open>final\<close> with that error as an \<open>HttpError\<close> (500 unless it was one),
  and the functions behind it are not invoked.
\<close>

theorem middleware_final:
  assumes pre: "\<forall>m \<in> set pre. m req res = pass_on"
    and ok: "final None st = (st1, None)" "final (Some (handleError e)) st = (st2, None)"
    and m: "m req res = Throw e"
  shows "mw_run pre req res final st =
      (\<lparr>mr_index = length pre, mr_tasks = [], mr_state = st1, mr_called = [0..<length pre],
        mr_finals = [None]\<rparr>, None)
    \<and> mw_run (pre @ m # post) req res final st =
      (\<lparr>mr_index = Suc (length pre), mr_tasks = [], mr_state = st2, mr_called = [0..<Suc (length pre)],
        mr_finals = [Some (handleError e)]\<rparr>, None)"
proof
  show "mw_run pre req res final st =
      (\<lparr>mr_index = length pre, mr_tasks = [], mr_state = st1, mr_called = [0..<length pre],
        mr_finals = [None]\<rparr>, None)"
    using pre ok(1) by (rule mw_run_exhausted)
  show "mw_run (pre @ m # post) req res final st =
      (\<lparr>mr_index = Suc (length pre), mr_tasks = [], mr_state = st2, mr_called = [0..<Suc (length pre)],
        mr_finals = [Some (handleError e)]\<rparr>, None)"
  proof (rule mw_run_prefix [OF pre refl])
    show "mw_next (Suc (length (m # post))) (map (\<lambda>m. m req res) (pre @ m # post)) final None
        \<lparr>mr_index = length pre, mr_tasks = [], mr_state = st, mr_called = [0..<length pre], mr_finals = []\<rparr>
      = (\<lparr>mr_index = Suc (length pre), mr_tasks = [], mr_state = st2, mr_called = [0..<Suc (length pre)],
        mr_finals = [Some (handleError e)]\<rparr>, None)"
      unfolding mw_next.simps(2) Let_def by (simp add: nth_map_prefix m call_final_def ok)
  qed
qed

theorem middleware_final_witness:
  "mw_run [\<lambda>_ _. pass_on, \<lambda>_ _. pass_on] () () (\<lambda>err s. (s @ [err], None)) [] =
     (\<lparr>mr_index = 2, mr_tasks = [], mr_state = [None], mr_called = [0, 1], mr_finals = [None]\<rparr>, None)
   \<and> mw_run [\<lambda>_ _. pass_on, \<lambda>_ _. pass_on, \<lambda>_ _. Throw (Plain_Error ''bad'')] () ()
       (\<lambda>err s. (s @ [err], None)) [] =
     (\<lparr>mr_index = 3, mr_tasks = [], mr_state = [Some (Http_Error 500 ''bad'')], mr_called = [0, 1, 2],
       mr_finals = [Some (Http_Error 500 ''bad'')]\<rparr>, None)"
  using middleware_final [of "[\<lambda>_ _. pass_on, \<lambda>_ _. pass_on]" "()" "()" "\<lambda>err s. (s @ [err], None)" "[]"
      "[None]" "Plain_Error ''bad''" "[Some (Http_Error 500 ''bad'')]"
      "\<lambda>_ _. Throw (Plain_Error ''bad'')" "[]"]
  by (simp add: upt_rec)

end
