(* ===== verification/Server.thy ===== *)
theory Server
  imports Channel_Replica Middleware Route
begin

text \<open>
  The state of one endpoint: its sockets, its lobbies with their channels, and the channel
  engines (\<open>core/src/engines/endpointEngine.ts\<close>, \<open>core/src/engines/lobbyEngine.ts\<close>). Engines,
  socket caches and join contexts are objects that closures keep alive, so they live in lists
  and are referred to by their index; a channel that was deleted from its lobby is still there.

  The effects an engine logs are carried out here: a message goes to a socket that is open, a
  deleted channel leaves its lobby's map, an outgoing event becomes a task of the event loop.
\<close>

subsection \<open>State\<close>

text \<open>A subscription function of a cache: a closure with an identity, over an engine and a user.\<close>

record subscription =
  su_id :: nat
  su_engine :: nat

record socket_cache =
  sc_client :: string
  sc_socket :: nat
  sc_assigns :: obj
  sc_subs :: "subscription list"
  sc_chan_subs :: "subscription jmap"

record lobby =
  lb_path :: pond_path
  lb_channels :: "nat jmap"
  lb_leave :: bool

record join_context =
  jc_cache :: nat
  jc_engine :: nat
  jc_request :: string
  jc_params :: event_params
  jc_join_params :: obj
  jc_assigns :: obj
  jc_executed :: bool
  jc_accepted :: bool
  jc_delegated :: bool

record outgoing_task =
  ot_engine :: nat
  ot_conn :: nat
  ot_user :: string
  ot_event :: channel_event

record server =
  sv_path :: string
  sv_backend :: "nat option"
  sv_max :: nat
  sv_lobbies :: "lobby list"
  sv_engines :: "(nat \<times> chan) list"
  sv_caches :: "socket_cache list"
  sv_sockets :: "nat jmap"
  sv_open :: "nat list"
  sv_joins :: "join_context list"
  sv_next :: nat
  sv_random :: "nat \<Rightarrow> nat \<Rightarrow> string"
  sv_sent :: "(nat \<times> channel_event) list"
  sv_tasks :: "outgoing_task list"
  sv_nodes :: "dist_message list"
  sv_left :: "(nat \<times> user_data) list"

definition new_endpoint :: "string \<Rightarrow> nat option \<Rightarrow> nat \<Rightarrow> (nat \<Rightarrow> nat \<Rightarrow> string) \<Rightarrow> server" where
  "new_endpoint path backend maxMessageSize random =
     \<lparr>sv_path = path, sv_backend = backend, sv_max = maxMessageSize, sv_lobbies = [], sv_engines = [],
      sv_caches = [], sv_sockets = [], sv_open = [], sv_joins = [], sv_next = 0, sv_random = random,
      sv_sent = [], sv_tasks = [], sv_nodes = [], sv_left = []\<rparr>"

subsection \<open>Sockets and effects\<close>

text \<open>\<open>EndpointEngine.sendMessage\<close>: only an open socket is written to.\<close>

definition ep_sendMessage :: "nat \<Rightarrow> channel_event \<Rightarrow> server \<Rightarrow> server" where
  "ep_sendMessage socket message sv =
     (if socket \<in> set (sv_open sv) then sv\<lparr>sv_sent := sv_sent sv @ [(socket, message)]\<rparr> else sv)"

definition engine_of :: "nat \<Rightarrow> server \<Rightarrow> chan" where
  "engine_of i sv = snd (sv_engines sv ! i)"

definition lobby_of :: "nat \<Rightarrow> server \<Rightarrow> nat" where
  "lobby_of i sv = fst (sv_engines sv ! i)"

definition lobby_deleteChannel :: "nat \<Rightarrow> string \<Rightarrow> server \<Rightarrow> server" where
  "lobby_deleteChannel l channelName sv =
     (let lb = sv_lobbies sv ! l in
      if jm_has (lb_channels lb) channelName
      then sv\<lparr>sv_lobbies := (sv_lobbies sv)[l := lb\<lparr>lb_channels := jm_delete channelName (lb_channels lb)\<rparr>]\<rparr>
      else sv)"

fun run_eff :: "nat \<Rightarrow> eff \<Rightarrow> server \<Rightarrow> server" where
  "run_eff i (Send conn ev) sv = ep_sendMessage conn ev sv"
| "run_eff i (Start_Outgoing conn u ev) sv = sv\<lparr>sv_tasks := sv_tasks sv @
     [\<lparr>ot_engine = i, ot_conn = conn, ot_user = u, ot_event = ev\<rparr>]\<rparr>"
| "run_eff i (To_Nodes m) sv = sv\<lparr>sv_nodes := sv_nodes sv @ [m]\<rparr>"
| "run_eff i (Call_Leave ud) sv = sv\<lparr>sv_left := sv_left sv @ [(i, ud)]\<rparr>"
| "run_eff i (Delete_Channel name) sv = lobby_deleteChannel (lobby_of i sv) name sv"
| "run_eff i _ sv = sv"

text \<open>Calling a method of an engine.\<close>

definition with_engine :: "nat \<Rightarrow> (chan \<Rightarrow> outcome) \<Rightarrow> server \<Rightarrow> server \<times> exn option" where
  "with_engine i f sv =
     (let c = engine_of i sv; r = f c
      in (fold (run_eff i) (drop (length (ch_log c)) (ch_log (fst r)))
            (sv\<lparr>sv_engines := (sv_engines sv)[i := (lobby_of i sv, fst r)]\<rparr>), snd r))"

subsection \<open>Lobby: channels\<close>

definition lobby_createChannel :: "nat \<Rightarrow> string \<Rightarrow> server \<Rightarrow> nat \<times> server" where
  "lobby_createChannel l channelName sv =
     (let i = length (sv_engines sv); lb = sv_lobbies sv ! l;
          c = new_channel channelName (sv_path sv) (sv_backend sv) (lb_leave lb) (sv_random sv i)
      in (i, sv\<lparr>sv_engines := sv_engines sv @ [(l, c)],
               sv_lobbies := (sv_lobbies sv)[l := lb\<lparr>lb_channels := jm_set channelName i (lb_channels lb)\<rparr>]\<rparr>))"

definition lobby_getOrCreateChannel :: "nat \<Rightarrow> string \<Rightarrow> server \<Rightarrow> nat \<times> server" where
  "lobby_getOrCreateChannel l channelName sv =
     (case jm_get (lb_channels (sv_lobbies sv ! l)) channelName of
        Some i \<Rightarrow> (i, sv)
      | None \<Rightarrow> lobby_createChannel l channelName sv)"

definition lobby_getChannel :: "nat \<Rightarrow> string \<Rightarrow> server \<Rightarrow> nat res" where
  "lobby_getChannel l channelName sv =
     (case jm_get (lb_channels (sv_lobbies sv ! l)) channelName of
        Some i \<Rightarrow> Inr i
      | None \<Rightarrow> Inl (Http_Error 404 (''Channel '' @ channelName @ '' not found'')))"

text \<open>
  The leave callback is read from the lobby when a user leaves; the engines carry its presence
  as a flag, so setting it reaches the lobby's engines.
\<close>

definition lobby_onLeave :: "nat \<Rightarrow> server \<Rightarrow> server" where
  "lobby_onLeave l sv =
     sv\<lparr>sv_lobbies := (sv_lobbies sv)[l := (sv_lobbies sv ! l)\<lparr>lb_leave := True\<rparr>],
        sv_engines := map (\<lambda>(l', c). (l', if l' = l then c\<lparr>ch_leave := True\<rparr> else c)) (sv_engines sv)\<rparr>"

subsection \<open>Lobby: events from clients\<close>

text \<open>
  A \<open>BroadcastEvent\<close>: the client's message with its sender. An event handler is code over the
  endpoint's state; its context gives it the event, the route parameters and the engine.
\<close>

record event_context =
  ec_sender :: string
  ec_event :: string
  ec_payload :: obj
  ec_request :: string
  ec_params :: event_params
  ec_engine :: nat

type_synonym event_handler = "pond_path \<times> (event_context \<Rightarrow> server mw_prog)"

text \<open>
  \<open>onEvent\<close>: a route pattern has to compile; the function it adds to the chain passes on what
  its pattern does not match. The result of a handler is awaited: an exception thrown before
  the first \<open>await\<close> is thrown, a later one rejects.
\<close>

definition lobby_onEvent :: "pond_path \<Rightarrow> (event_context \<Rightarrow> server mw_prog) \<Rightarrow> event_handler list \<Rightarrow> event_handler list res"
  where
  "lobby_onEvent event handler handlers =
     (case event of
        Pattern p \<Rightarrow> res_bind (compilePondRoute p) (\<lambda>_. Inr (handlers @ [(event, handler)]))
      | Reg_Exp _ _ \<Rightarrow> Inr (handlers @ [(event, handler)]))"

definition event_function :: "event_handler \<Rightarrow> string \<times> client_message \<Rightarrow> nat \<Rightarrow> server mw_prog" where
  "event_function h req i =
     (case (h, req) of ((event, handler), (userId, message)) \<Rightarrow>
        case parseAddress event (cm_event message) of
          Inl e \<Rightarrow> Throw e
        | Inr None \<Rightarrow> pass_on
        | Inr (Some params) \<Rightarrow> handler
            \<lparr>ec_sender = userId, ec_event = cm_event message, ec_payload = cm_payload message,
             ec_request = cm_request message, ec_params = params, ec_engine = i\<rparr>)"

text \<open>\<open>ChannelEngine.broadcastMessage\<close>.\<close>

definition unhandled :: "exn option \<Rightarrow> obj" where
  "unhandled err =
     (case err of
        Some (Http_Error code message) \<Rightarrow>
          [(''message'', JStr (if message = [] then ''A handler did not respond to the event'' else message)),
           (''code'', JNum (if code = 0 then 500 else int code))]
      | _ \<Rightarrow> [(''message'', JStr ''A handler did not respond to the event''), (''code'', JNum 500)])"

definition broadcast_final :: "nat \<Rightarrow> string \<Rightarrow> client_message \<Rightarrow> exn option \<Rightarrow> server \<Rightarrow> server \<times> exn option" where
  "broadcast_final i userId message err sv =
     with_engine i (sendMessage SYSTEM_CHANNEL (Users [userId]) A_ERROR (error_type_str HANDLER_NOT_FOUND)
       (unhandled err) (cm_request message)) sv"

definition broadcastMessage ::
    "event_handler list \<Rightarrow> nat \<Rightarrow> string \<Rightarrow> client_message \<Rightarrow> server \<Rightarrow> server mw_run \<times> exn option" where
  "broadcastMessage handlers i userId message sv =
     (if \<not> has_user userId (engine_of i sv) then
        (start_run sv, Some (Http_Error 404 (''ChannelEngine: User with id '' @ userId @
          '' does not exist in channel '' @ ch_name (engine_of i sv))))
      else mw_run (map event_function handlers) (userId, message) i (broadcast_final i userId message) sv)"

subsection \<open>What an event handler can do\<close>

text \<open>\<open>EventContext\<close> and the \<open>Channel\<close> wrapper over the same engine.\<close>

definition ec_sendTo :: "event_context \<Rightarrow> receivers \<Rightarrow> string \<Rightarrow> obj \<Rightarrow> server \<Rightarrow> server \<times> exn option" where
  "ec_sendTo x recipient event payload =
     with_engine (ec_engine x) (sendMessage (ec_sender x) recipient A_BROADCAST event payload (ec_request x))"

definition ec_broadcast :: "event_context \<Rightarrow> string \<Rightarrow> obj \<Rightarrow> server \<Rightarrow> server \<times> exn option" where
  "ec_broadcast x event payload = ec_sendTo x ALL_USERS event payload"

definition ec_broadcastFrom :: "event_context \<Rightarrow> string \<Rightarrow> obj \<Rightarrow> server \<Rightarrow> server \<times> exn option" where
  "ec_broadcastFrom x event payload = ec_sendTo x ALL_EXCEPT_SENDER event payload"

definition ec_broadcastTo :: "event_context \<Rightarrow> string \<Rightarrow> obj \<Rightarrow> string + string list \<Rightarrow> server \<Rightarrow> server \<times> exn option" where
  "ec_broadcastTo x event payload userIds =
     ec_sendTo x (Users (case userIds of Inl u \<Rightarrow> [u] | Inr us \<Rightarrow> us)) event payload"

definition ec_reply :: "event_context \<Rightarrow> string \<Rightarrow> obj \<Rightarrow> server \<Rightarrow> server \<times> exn option" where
  "ec_reply x event payload =
     with_engine (ec_engine x) (sendMessage SYSTEM_CHANNEL (Users [ec_sender x]) A_SYSTEM event payload (ec_request x))"

definition ec_assign :: "event_context \<Rightarrow> obj \<Rightarrow> server \<Rightarrow> server \<times> exn option" where
  "ec_assign x assigns = with_engine (ec_engine x) (updateAssigns (ec_sender x) assigns)"

definition ec_trackPresence :: "event_context \<Rightarrow> obj \<Rightarrow> string option \<Rightarrow> server \<Rightarrow> server \<times> exn option" where
  "ec_trackPresence x presence userId =
     with_engine (ec_engine x) (trackPresence (case_option (ec_sender x) id userId) presence)"

definition ec_updatePresence :: "event_context \<Rightarrow> obj \<Rightarrow> string option \<Rightarrow> server \<Rightarrow> server \<times> exn option" where
  "ec_updatePresence x presence userId =
     with_engine (ec_engine x) (updatePresence (case_option (ec_sender x) id userId) presence)"

definition ec_removePresence :: "event_context \<Rightarrow> string option \<Rightarrow> server \<Rightarrow> server \<times> exn option" where
  "ec_removePresence x userId =
     with_engine (ec_engine x) (removePresence (case_option (ec_sender x) id userId))"

definition ec_evictUser :: "event_context \<Rightarrow> string \<Rightarrow> string option \<Rightarrow> server \<Rightarrow> server \<times> exn option" where
  "ec_evictUser x reason userId =
     with_engine (ec_engine x) (kickUser (case_option (ec_sender x) id userId) reason)"

text \<open>The \<open>Channel\<close> wrapper sends as the channel, to a route built from its parameters.\<close>

definition wrap_send ::
    "nat \<Rightarrow> string \<Rightarrow> receivers \<Rightarrow> string \<Rightarrow> obj \<Rightarrow> obj \<Rightarrow> server \<Rightarrow> server \<times> exn option" where
  "wrap_send i sender recipient event params payload sv =
     (case buildPondRoute event params of
        Inl e \<Rightarrow> (sv, Some e)
      | Inr name \<Rightarrow> with_engine i (sendMessage_uuid sender recipient A_BROADCAST name payload) sv)"

definition wrap_broadcast :: "nat \<Rightarrow> string \<Rightarrow> obj \<Rightarrow> obj \<Rightarrow> server \<Rightarrow> server \<times> exn option" where
  "wrap_broadcast i event payload params = wrap_send i SYSTEM_CHANNEL ALL_USERS event params payload"

definition wrap_broadcastFrom :: "nat \<Rightarrow> string \<Rightarrow> string \<Rightarrow> obj \<Rightarrow> obj \<Rightarrow> server \<Rightarrow> server \<times> exn option"
  where
  "wrap_broadcastFrom i userId event payload params = wrap_send i userId ALL_EXCEPT_SENDER event params payload"

definition wrap_broadcastTo ::
    "nat \<Rightarrow> string + string list \<Rightarrow> string \<Rightarrow> obj \<Rightarrow> obj \<Rightarrow> server \<Rightarrow> server \<times> exn option" where
  "wrap_broadcastTo i userIds event payload params =
     wrap_send i SYSTEM_CHANNEL (Users (case userIds of Inl u \<Rightarrow> [u] | Inr us \<Rightarrow> us)) event params payload"

definition wrap_evictUser :: "nat \<Rightarrow> string \<Rightarrow> string option \<Rightarrow> server \<Rightarrow> server \<times> exn option" where
  "wrap_evictUser i userId reason =
     with_engine i (kickUser userId (case_option ''You have been banned from the channel'' id reason))"

end
