(* ===== verification/Endpoint.thy ===== *)
theory Endpoint
  imports Server
begin

text \<open>
  \<open>EndpointEngine\<close> (\<open>core/src/engines/endpointEngine.ts\<close>) and \<open>JoinContext\<close>
  (\<open>core/src/contexts/joinContext.ts\<close>): registering channel patterns, connecting and
  disconnecting sockets, reading a client's message, joining and leaving channels.
  \<open>JSON.parse\<close> is a parameter of reading.
\<close>

subsection \<open>Patterns\<close>

fun same_path :: "pond_path \<Rightarrow> pond_path \<Rightarrow> bool" where
  "same_path (Pattern p) (Pattern q) = (p = q)"
| "same_path _ _ = False"

fun path_text :: "pond_path \<Rightarrow> string" where
  "path_text (Pattern p) = p"
| "path_text (Reg_Exp source m) = source"

text \<open>
  \<open>createChannel\<close>: the new lobby, or the reason why the pattern is refused. The handlers are
  code and are kept beside the state: entry \<open>l\<close> of the list of authorization handlers belongs
  to lobby \<open>l\<close>. (Two regular expressions are different objects.)
\<close>

definition ep_createChannel :: "pond_path \<Rightarrow> server \<Rightarrow> (nat \<times> server) res" where
  "ep_createChannel path sv =
     res_bind (case path of Pattern p \<Rightarrow> res_bind (compilePondRoute p) (\<lambda>_. Inr ()) | Reg_Exp _ _ \<Rightarrow> Inr ()) (\<lambda>_.
     if \<exists>lb \<in> set (sv_lobbies sv). same_path path (lb_path lb) then
       Inl (Http_Error 409 (''GatewayEngine: Channel pattern '' @ path_text path @ '' is already registered''))
     else Inr (length (sv_lobbies sv),
       sv\<lparr>sv_lobbies := sv_lobbies sv @ [\<lparr>lb_path = path, lb_channels = [], lb_leave = False\<rparr>]\<rparr>))"

subsection \<open>Errors\<close>

definition ep_buildError :: "exn \<Rightarrow> error_type \<Rightarrow> string \<Rightarrow> string \<Rightarrow> channel_event" where
  "ep_buildError e errorType channelName requestId =
     (let (message, status) = (case e of Http_Error code m \<Rightarrow> (m, code) | Plain_Error m \<Rightarrow> (m, 500)
            | Not_An_Error \<Rightarrow> (''An unknown error occurred'', 500))
      in \<lparr>ce_action = A_ERROR, ce_event = error_type_str errorType, ce_channel = channelName,
          ce_request = requestId,
          ce_payload = [(''code'', JStr (error_type_str errorType)), (''message'', JStr message),
            (''status'', JNum (int status)), (''statusCode'', JNum (int status)),
            (''error'', JObj [(''message'', JStr message), (''status'', JNum (int status))])]\<rparr>)"

subsection \<open>Connections\<close>

text \<open>
  \<open>manageSocket\<close>: the cache is registered under its client id and the client is told. The
  socket is open when its upgrade ends.
\<close>

definition connection_event :: "string \<Rightarrow> channel_event" where
  "connection_event requestId =
     \<lparr>ce_action = A_CONNECT, ce_event = EV_CONNECTION, ce_channel = SYSTEM_ENDPOINT,
      ce_request = requestId, ce_payload = []\<rparr>"

definition ep_manageSocket :: "string \<Rightarrow> nat \<Rightarrow> obj \<Rightarrow> string \<Rightarrow> server \<Rightarrow> nat \<times> server" where
  "ep_manageSocket clientId socket assigns requestId sv =
     (let k = length (sv_caches sv);
          cache = \<lparr>sc_client = clientId, sc_socket = socket, sc_assigns = assigns, sc_subs = [], sc_chan_subs = []\<rparr>
      in (k, ep_sendMessage socket (connection_event requestId)
            (sv\<lparr>sv_caches := sv_caches sv @ [cache], sv_sockets := jm_set clientId k (sv_sockets sv)\<rparr>)))"

definition ep_getUser :: "string \<Rightarrow> server \<Rightarrow> nat res" where
  "ep_getUser clientId sv =
     (case jm_get (sv_sockets sv) clientId of
        Some k \<Rightarrow> Inr k
      | None \<Rightarrow> Inl (Http_Error 404 (''GatewayEngine: User '' @ clientId @ '' does not exist'')))"

definition ep_getClients :: "server \<Rightarrow> nat list" where
  "ep_getClients sv = jm_values (sv_sockets sv)"

text \<open>\<open>closeConnection\<close>: the sockets it calls \<open>close\<close> on (they are no longer open from then on).\<close>

definition ep_closeConnection :: "string + string list \<Rightarrow> server \<Rightarrow> server" where
  "ep_closeConnection clientIds sv =
     (let clients = (case clientIds of Inl u \<Rightarrow> [u] | Inr us \<Rightarrow> us);
          closing = map (\<lambda>k. sc_socket (sv_caches sv ! k))
            (filter (\<lambda>k. sc_client (sv_caches sv ! k) \<in> set clients) (ep_getClients sv))
      in sv\<lparr>sv_open := filter (\<lambda>s. s \<notin> set closing) (sv_open sv)\<rparr>)"

text \<open>
  A subscription function of a cache: it removes the user from the engine it was made for, and
  then itself from the cache it was made for.
\<close>

definition upd_cache :: "nat \<Rightarrow> (socket_cache \<Rightarrow> socket_cache) \<Rightarrow> server \<Rightarrow> server" where
  "upd_cache k f sv = sv\<lparr>sv_caches := (sv_caches sv)[k := f (sv_caches sv ! k)]\<rparr>"

definition run_subscription :: "nat \<Rightarrow> subscription \<Rightarrow> server \<Rightarrow> server" where
  "run_subscription k s sv =
     (let sv1 = fst (with_engine (su_engine s)
            (\<lambda>c. (removeUser (sc_client (sv_caches sv ! k)) False c, None)) sv)
      in upd_cache k (\<lambda>cache. cache\<lparr>sc_subs := js_remove s (sc_subs cache),
            sc_chan_subs := jm_delete (ch_name (engine_of (su_engine s) sv1)) (sc_chan_subs cache)\<rparr>) sv1)"

text \<open>
  \<open>handleSocketClose\<close>. Each function deletes itself from the set while the set is walked; the
  walk goes on with the functions that are left. (A function never throws: \<open>removeUser\<close>
  swallows what the leave callback throws.)
\<close>

definition ep_handleSocketClose :: "nat \<Rightarrow> server \<Rightarrow> server" where
  "ep_handleSocketClose k sv =
     (let cache = sv_caches sv ! k;
          sv1 = sv\<lparr>sv_sockets := jm_delete (sc_client cache) (sv_sockets sv)\<rparr>;
          sv2 = fold (run_subscription k) (sc_subs cache) sv1
      in upd_cache k (\<lambda>cache. cache\<lparr>sc_chan_subs := []\<rparr>) sv2)"

subsection \<open>Join contexts\<close>

definition jc_get :: "nat \<Rightarrow> server \<Rightarrow> join_context" where
  "jc_get j sv = sv_joins sv ! j"

definition upd_join :: "nat \<Rightarrow> (join_context \<Rightarrow> join_context) \<Rightarrow> server \<Rightarrow> server" where
  "upd_join j f sv = sv\<lparr>sv_joins := (sv_joins sv)[j := f (sv_joins sv ! j)]\<rparr>"

definition jc_client :: "nat \<Rightarrow> server \<Rightarrow> string" where
  "jc_client j sv = sc_client (sv_caches sv ! jc_cache (jc_get j sv))"

definition jc_socket :: "nat \<Rightarrow> server \<Rightarrow> nat" where
  "jc_socket j sv = sc_socket (sv_caches sv ! jc_cache (jc_get j sv))"

definition jc_performChecks :: "nat \<Rightarrow> server \<Rightarrow> server \<times> exn option" where
  "jc_performChecks j sv =
     (if jc_executed (jc_get j sv) then
        (sv, Some (Http_Error 403 (''Request to join channel '' @ ch_name (engine_of (jc_engine (jc_get j sv)) sv)
          @ '' rejected: Request already executed'')))
      else (upd_join j (\<lambda>x. x\<lparr>jc_executed := True\<rparr>) sv, None))"

definition jc_assign :: "nat \<Rightarrow> obj \<Rightarrow> server \<Rightarrow> server \<times> exn option" where
  "jc_assign j assigns sv =
     (if jc_accepted (jc_get j sv)
      then with_engine (jc_engine (jc_get j sv)) (updateAssigns (jc_client j sv) assigns) sv
      else (upd_join j (\<lambda>x. x\<lparr>jc_assigns := obj_merge (jc_assigns x) assigns\<rparr>) sv, None))"

definition sv_then :: "server \<times> exn option \<Rightarrow> (server \<Rightarrow> server \<times> exn option) \<Rightarrow> server \<times> exn option" where
  "sv_then r f = (case r of (sv, None) \<Rightarrow> f sv | (sv, Some e) \<Rightarrow> (sv, Some e))"

lemma sv_then_simps [simp]: "sv_then (sv, None) f = f sv" "sv_then (sv, Some e) f = (sv, Some e)"
  by (simp_all add: sv_then_def)

definition add_subscription :: "nat \<Rightarrow> server \<Rightarrow> server" where
  "add_subscription j sv =
     (let x = jc_get j sv; s = \<lparr>su_id = sv_next sv, su_engine = jc_engine x\<rparr>
      in upd_cache (jc_cache x) (\<lambda>cache. cache\<lparr>sc_subs := sc_subs cache @ [s],
           sc_chan_subs := jm_set (ch_name (engine_of (jc_engine x) sv)) s (sc_chan_subs cache)\<rparr>)
         (sv\<lparr>sv_next := Suc (sv_next sv)\<rparr>))"

definition jc_accept :: "nat \<Rightarrow> obj option \<Rightarrow> server \<Rightarrow> server \<times> exn option" where
  "jc_accept j assigns sv =
     sv_then (case assigns of Some a \<Rightarrow> jc_assign j a sv | None \<Rightarrow> (sv, None)) (\<lambda>sv1.
     sv_then (jc_performChecks j sv1) (\<lambda>sv2.
     sv_then (with_engine (jc_engine (jc_get j sv2)) (addUser (jc_client j sv2) (jc_assigns (jc_get j sv2))
         (jc_socket j sv2) (jc_request (jc_get j sv2))) sv2) (\<lambda>sv3.
       (upd_join j (\<lambda>x. x\<lparr>jc_accepted := True\<rparr>) (add_subscription j sv3), None))))"

definition decline_payload :: "string option \<Rightarrow> nat option \<Rightarrow> obj" where
  "decline_payload message errorCode =
     (let m = (case message of Some s \<Rightarrow> if s = [] then ''Unauthorized connection'' else s
               | None \<Rightarrow> ''Unauthorized connection'');
          c = JNum (case errorCode of Some n \<Rightarrow> if n = 0 then 401 else int n | None \<Rightarrow> 401)
      in [(''code'', JStr (error_type_str UNAUTHORIZED_JOIN_REQUEST)), (''message'', JStr m),
          (''status'', c), (''statusCode'', c),
          (''error'', JObj [(''message'', JStr m), (''status'', c)])])"

definition jc_directMessage :: "nat \<Rightarrow> server_action \<Rightarrow> string \<Rightarrow> obj \<Rightarrow> server \<Rightarrow> server" where
  "jc_directMessage j action event payload sv =
     ep_sendMessage (jc_socket j sv)
       \<lparr>ce_action = action, ce_event = event, ce_channel = ch_name (engine_of (jc_engine (jc_get j sv)) sv),
        ce_request = jc_request (jc_get j sv), ce_payload = payload\<rparr> sv"

definition jc_decline :: "nat \<Rightarrow> string option \<Rightarrow> nat option \<Rightarrow> server \<Rightarrow> server \<times> exn option" where
  "jc_decline j message errorCode sv =
     sv_then (jc_performChecks j sv) (\<lambda>sv1.
       (jc_directMessage j A_ERROR (error_type_str UNAUTHORIZED_JOIN_REQUEST)
          (decline_payload message errorCode) sv1, None))"

definition jc_reply :: "nat \<Rightarrow> string \<Rightarrow> obj \<Rightarrow> server \<Rightarrow> server \<times> exn option" where
  "jc_reply j event payload sv = (jc_directMessage j A_SYSTEM event payload sv, None)"

definition jc_trackPresence :: "nat \<Rightarrow> obj \<Rightarrow> server \<Rightarrow> server \<times> exn option" where
  "jc_trackPresence j presence sv =
     with_engine (jc_engine (jc_get j sv)) (trackPresence (jc_client j sv) presence) sv"

definition jc_sendTo :: "nat \<Rightarrow> receivers \<Rightarrow> string \<Rightarrow> obj \<Rightarrow> server \<Rightarrow> server \<times> exn option" where
  "jc_sendTo j recipient event payload sv =
     with_engine (jc_engine (jc_get j sv)) (sendMessage (jc_client j sv) recipient A_BROADCAST event payload
       (jc_request (jc_get j sv))) sv"

subsection \<open>Joining\<close>

text \<open>
  An authorization handler is registered with its channel pattern (the one of its lobby); it is
  code over the state and is given the index of its join context.
  The engine wraps its \<open>next\<close> so as to know that the request was passed on, and when the
  handler has returned (its promise is resolved) without passing on, accepting or declining,
  the request is declined.
\<close>

type_synonym auth_handler = "pond_path \<times> (nat \<Rightarrow> server mw_prog)"

definition unanswered :: "nat \<Rightarrow> server mw_prog" where
  "unanswered j = Act (\<lambda>sv.
     if jc_delegated (jc_get j sv) \<or> jc_executed (jc_get j sv) then (sv, Done)
     else (case jc_decline j (Some ''Join handler completed without accepting or declining the request'') (Some 500) sv of
        (sv', None) \<Rightarrow> (sv', Done)
      | (sv', Some e) \<Rightarrow> (sv', Throw e)))"

definition guard_handler :: "nat \<Rightarrow> server mw_prog \<Rightarrow> server mw_prog" where
  "guard_handler j = guard_prog (upd_join j (\<lambda>x. x\<lparr>jc_delegated := True\<rparr>)) (unanswered j)"

record join_request =
  jr_cache :: nat
  jr_request :: string
  jr_channel :: string
  jr_params :: obj

definition new_join :: "join_request \<Rightarrow> event_params \<Rightarrow> nat \<Rightarrow> server \<Rightarrow> join_context" where
  "new_join req params i sv =
     \<lparr>jc_cache = jr_cache req, jc_engine = i, jc_request = jr_request req, jc_params = params,
      jc_join_params = jr_params req, jc_assigns = sc_assigns (sv_caches sv ! jr_cache req),
      jc_executed = False, jc_accepted = False, jc_delegated = False\<rparr>"

definition start_join :: "nat \<Rightarrow> join_request \<Rightarrow> event_params \<Rightarrow> server \<Rightarrow> nat \<times> server" where
  "start_join l req params sv =
     (let (i, sv1) = lobby_getOrCreateChannel l (jr_channel req) sv
      in (length (sv_joins sv1), sv1\<lparr>sv_joins := sv_joins sv1 @ [new_join req params i sv1]\<rparr>))"

definition join_function :: "auth_handler \<times> nat \<Rightarrow> join_request \<Rightarrow> unit \<Rightarrow> server mw_prog" where
  "join_function hl req x =
     (case hl of ((path, handler), l) \<Rightarrow>
        case parseAddress path (jr_channel req) of
          Inl e \<Rightarrow> Throw e
        | Inr None \<Rightarrow> pass_on
        | Inr (Some params) \<Rightarrow>
            Act (\<lambda>sv. let (j, sv1) = start_join l req params sv in (sv1, guard_handler j (handler j))))"

definition join_final :: "join_request \<Rightarrow> exn option \<Rightarrow> server \<Rightarrow> server \<times> exn option" where
  "join_final req err sv =
     (let socket = sc_socket (sv_caches sv ! jr_cache req);
          event = (case err of
              Some e \<Rightarrow> ep_buildError e CHANNEL_ERROR (jr_channel req) (jr_request req)
            | None \<Rightarrow> ep_buildError (Http_Error 404 (''GatewayEngine: Channel '' @ jr_channel req @ '' does not exist''))
                CHANNEL_NOT_FOUND (jr_channel req) (jr_request req))
      in (ep_sendMessage socket event sv, None))"

definition ep_joinChannel :: "auth_handler list \<Rightarrow> join_request \<Rightarrow> server \<Rightarrow> server mw_run \<times> exn option" where
  "ep_joinChannel handlers req sv =
     mw_run (map join_function (zip handlers [0..<length handlers])) req () (join_final req) sv"

subsection \<open>Finding a channel, leaving it\<close>

fun first_lobby :: "nat \<Rightarrow> lobby list \<Rightarrow> string \<Rightarrow> nat option res" where
  "first_lobby l [] channel = Inr None"
| "first_lobby l (lb # lbs) channel =
     (case parseAddress (lb_path lb) channel of
        Inl e \<Rightarrow> Inl e
      | Inr (Some _) \<Rightarrow> Inr (Some l)
      | Inr None \<Rightarrow> first_lobby (Suc l) lbs channel)"

definition ep_retrieveChannel :: "string \<Rightarrow> server \<Rightarrow> nat res" where
  "ep_retrieveChannel channel sv =
     res_bind (first_lobby 0 (sv_lobbies sv) channel) (\<lambda>found.
     case found of
       Some l \<Rightarrow> lobby_getChannel l channel sv
     | None \<Rightarrow> Inl (Http_Error 404 (''GatewayEngine: Channel '' @ channel @ '' does not exist'')))"

definition ep_leaveChannel :: "string \<Rightarrow> nat \<Rightarrow> server \<Rightarrow> server \<times> exn option" where
  "ep_leaveChannel channel k sv =
     (case jm_get (sc_chan_subs (sv_caches sv ! k)) channel of
        Some s \<Rightarrow> (run_subscription k s sv, None)
      | None \<Rightarrow> (case ep_retrieveChannel channel sv of
          Inl e \<Rightarrow> (sv, Some e)
        | Inr i \<Rightarrow> with_engine i (\<lambda>c. (removeUser (sc_client (sv_caches sv ! k)) False c, None)) sv))"

subsection \<open>Messages of clients\<close>

text \<open>
  The event handlers of the lobbies, by lobby. A message either ends in a run of a chain, whose
  suspended handlers go on later, or acts at once; in both cases the result is a run.
\<close>

definition ep_broadcastMessage ::
    "event_handler list list \<Rightarrow> nat \<Rightarrow> client_message \<Rightarrow> server \<Rightarrow> server mw_run \<times> exn option" where
  "ep_broadcastMessage events k message sv =
     (case ep_retrieveChannel (cm_channel message) sv of
        Inl e \<Rightarrow> (start_run sv, Some e)
      | Inr i \<Rightarrow> broadcastMessage (events ! lobby_of i sv) i (sc_client (sv_caches sv ! k)) message sv)"

definition ep_handleMessage ::
    "auth_handler list \<Rightarrow> event_handler list list \<Rightarrow> nat \<Rightarrow> client_message \<Rightarrow> server \<Rightarrow> server mw_run \<times> exn option"
  where
  "ep_handleMessage auths events k message sv =
     (case cm_action message of
        JOIN_CHANNEL \<Rightarrow> ep_joinChannel auths \<lparr>jr_cache = k, jr_request = cm_request message,
          jr_channel = cm_channel message, jr_params = cm_payload message\<rparr> sv
      | LEAVE_CHANNEL \<Rightarrow> (case ep_leaveChannel (cm_channel message) k sv of (sv', e) \<Rightarrow> (start_run sv', e))
      | C_BROADCAST \<Rightarrow> ep_broadcastMessage events k message sv)"

definition ep_readMessage ::
    "(string \<Rightarrow> json res) \<Rightarrow> auth_handler list \<Rightarrow> event_handler list list \<Rightarrow> string \<Rightarrow> nat \<Rightarrow> string \<Rightarrow>
     server \<Rightarrow> server mw_run" where
  "ep_readMessage json_parse auths events uuid k message sv =
     (let result =
        (if sv_max sv < js_length message then
           (start_run sv, Some (Http_Error 413 (''Message size '' @ nat_text (js_length message)
             @ '' exceeds maximum allowed size of '' @ nat_text (sv_max sv) @ '' bytes'')))
         else case res_bind (json_parse message) parse_client_message of
             Inl e \<Rightarrow> (start_run sv, Some e)
           | Inr m \<Rightarrow> ep_handleMessage auths events k m sv)
      in case result of
           (r, None) \<Rightarrow> r
         | (r, Some e) \<Rightarrow> r\<lparr>mr_state := ep_sendMessage (sc_socket (sv_caches (mr_state r) ! k))
             (ep_buildError e INVALID_MESSAGE SYSTEM_ENDPOINT uuid) (mr_state r)\<rparr>)"

end
