(* ===== verification/Server_Inv.thy ===== *)
theory Server_Inv
  imports Endpoint Channel_Log
begin

text \<open>
  The invariant of an endpoint over connections, joins, departures and everything the engines
  do: a lobby's map leads to open channels of that name only, and whoever is subscribed to a
  channel is a connected client that can be unsubscribed.
\<close>

subsection \<open>Subscriptions of an engine\<close>

definition fewer :: "chan \<Rightarrow> chan \<Rightarrow> bool" where
  "fewer c d \<longleftrightarrow> (\<forall>v. jm_has (ch_subs d) v \<longrightarrow> jm_has (ch_subs c) v)"

lemma fewer_trans: "fewer c d \<Longrightarrow> fewer d e \<Longrightarrow> fewer c e"
  by (simp add: fewer_def)

lemma fewer_same: "ch_subs d = ch_subs c \<Longrightarrow> fewer c d"
  by (simp add: fewer_def)

lemma fewer_and_then:
  "fewer c (fst r) \<Longrightarrow> (\<And>d. fewer d (fst (f d))) \<Longrightarrow> fewer c (fst (and_then r f))"
  by (cases r; cases "snd r") (auto simp: and_then_def intro: fewer_trans)

lemma and_then_subs:
  "(\<And>c. ch_subs (fst (f c)) = ch_subs c) \<Longrightarrow> ch_subs (fst (and_then r f)) = ch_subs (fst r)"
  by (cases r; cases "snd r") (auto simp: and_then_def)

lemma fewer_removed: "fewer c (removed_core u c)"
  by (simp add: fewer_def jm_has_delete)

lemma fewer_close: "fewer c (close c)"
  by (simp add: fewer_def)

lemma removeUser_subs:
  "getUserData u c = Inr ud \<Longrightarrow> ch_subs (removeUser u skip c)
     = (if jm_delete u (ch_assigns c) = [] then [] else jm_delete u (ch_subs c))"
  by (simp add: removeUser_unfold Let_def)

lemma fewer_removeUser: "fewer c (removeUser u skip c)"
proof (cases "getUserData u c")
  case (Inl e)
  then show ?thesis by (simp add: removeUser_def fewer_same)
next
  case (Inr ud)
  show ?thesis by (simp add: fewer_def removeUser_subs [OF Inr] jm_has_delete)
qed

lemma removeUser_unsubscribes:
  assumes "chan_ok c"
  shows "\<not> jm_has (ch_subs (removeUser u skip c)) u"
proof (cases "getUserData u c")
  case (Inl e)
  then have "\<not> has_user u c" by (auto simp: getUserData_def Let_def has_user_def jm_has_get split: if_splits)
  with Inl show ?thesis using subscribed_user [OF assms] by (auto simp: removeUser_def)
next
  case (Inr ud)
  show ?thesis by (simp add: removeUser_subs [OF Inr] jm_has_delete)
qed

lemma message_subs: "ch_subs (fst (sendMessage s r a e p rid c)) = ch_subs c"
  by (simp add: sendMessage_def split: sum.split)

lemma fewer_message_uuid: "fewer c (fst (sendMessage_uuid s r a e p c))"
  by (rule fewer_same) (simp add: sendMessage_uuid_def draw_def message_subs)

lemma presence_subs:
  "ch_subs (fst (trackPresence u d c)) = ch_subs c" "ch_subs (fst (updatePresence u d c)) = ch_subs c"
  "ch_subs (fst (upsertPresence u d c)) = ch_subs c" "ch_subs (fst (removePresence u c)) = ch_subs c"
  by (simp_all add: trackPresence_def updatePresence_def upsertPresence_def removePresence_def
      and_then_subs split: option.split)

lemma fewer_kick: "fewer c (fst (kickUser u reason c))"
  unfolding kickUser_def
  by (intro fewer_and_then fewer_message_uuid)
    (simp, rule fewer_trans [OF _ fewer_removeUser], simp add: fewer_same)

lemma fewer_destroy: "fewer c (fst (destroy reason c))"
  unfolding destroy_def by (intro fewer_and_then fewer_message_uuid) (simp add: fewer_close)

lemma fold_subs: "(\<And>x c. ch_subs (f x c) = ch_subs c) \<Longrightarrow> ch_subs (fold f xs c) = ch_subs c"
  by (induction xs arbitrary: c) simp_all

lemma cleanup_subs: "ch_subs (cleanupStaleNodes now c) = ch_subs c"
proof -
  have "ch_subs (cleanup_node n t e d) = ch_subs d" for n t e d
    by (cases e) (simp add: cleanup_node_def Let_def split: option.split)
  then show ?thesis by (simp add: cleanupStaleNodes_def fold_subs split: option.split)
qed

lemma state_user_subs: "ch_subs (state_response_user s n x c) = ch_subs c"
  by (cases x) (simp add: state_response_user_def Let_def)

lemma fewer_distributed: "fewer c (fst (handleDistributedMessage now m c))"
proof (cases "dm_body m")
  case (EVICT_USER u reason)
  then show ?thesis
    by (simp add: handleDistributedMessage_def handleRemoteEvictUser_def Let_def fewer_def drop_subs
        jm_has_delete draw_def)
next
  case (USER_REMOVE u)
  then show ?thesis
    by (simp add: handleDistributedMessage_def handleRemoteUserRemove_def fewer_removeUser fewer_same)
qed (simp_all add: handleDistributedMessage_def handleStateRequest_def handleStateResponse_def
    fold_subs state_user_subs handleRemoteUserJoined_def Let_def handleRemoteUserLeft_def
    handleRemoteMessage_def handleRemotePresenceUpdate_def handleRemoteAssignsUpdate_def
    handleRemoteUserGetRequest_def handleRemoteUserGetResponse_def fewer_same split: option.split)

text \<open>Only \<open>addUser\<close> subscribes.\<close>

fun is_add :: "chan_op \<Rightarrow> bool" where
  "is_add (Add_User u a conn rid) = True"
| "is_add _ = False"

lemma chan_exec_fewer: "\<not> is_add op \<Longrightarrow> fewer c (fst (chan_exec op c))"
  by (cases op)
    (simp_all add: fewer_same message_subs presence_subs updateAssigns_def Let_def fewer_kick
      requestUserRemoval_def getUserAcrossNodes_def draw_def user_get_timeout_def fewer_destroy
      fewer_removeUser distributed_ready_def run_waiting_def requestChannelState_def heartbeat_def
      cleanup_subs fewer_distributed split: option.split)

subsection \<open>Carrying out effects\<close>

definition lobby_entry :: "server \<Rightarrow> nat \<Rightarrow> string \<Rightarrow> nat option" where
  "lobby_entry sv l name = jm_get (lb_channels (sv_lobbies sv ! l)) name"

lemma sendMessage_frame [simp]:
  "sv_engines (ep_sendMessage s m sv) = sv_engines sv" "sv_caches (ep_sendMessage s m sv) = sv_caches sv"
  "sv_sockets (ep_sendMessage s m sv) = sv_sockets sv" "sv_joins (ep_sendMessage s m sv) = sv_joins sv"
  "sv_lobbies (ep_sendMessage s m sv) = sv_lobbies sv" "sv_next (ep_sendMessage s m sv) = sv_next sv"
  by (simp_all add: ep_sendMessage_def)

lemma deleteChannel_frame [simp]:
  "sv_engines (lobby_deleteChannel l n sv) = sv_engines sv" "sv_caches (lobby_deleteChannel l n sv) = sv_caches sv"
  "sv_sockets (lobby_deleteChannel l n sv) = sv_sockets sv" "sv_joins (lobby_deleteChannel l n sv) = sv_joins sv"
  "sv_next (lobby_deleteChannel l n sv) = sv_next sv"
  "length (sv_lobbies (lobby_deleteChannel l n sv)) = length (sv_lobbies sv)"
  by (simp_all add: lobby_deleteChannel_def Let_def)

lemma run_eff_frame [simp]:
  "sv_engines (run_eff i e sv) = sv_engines sv" "sv_caches (run_eff i e sv) = sv_caches sv"
  "sv_sockets (run_eff i e sv) = sv_sockets sv" "sv_joins (run_eff i e sv) = sv_joins sv"
  "sv_next (run_eff i e sv) = sv_next sv" "length (sv_lobbies (run_eff i e sv)) = length (sv_lobbies sv)"
  by (cases e; simp)+

lemma fold_run_eff_frame [simp]:
  "sv_engines (fold (run_eff i) es sv) = sv_engines sv" "sv_caches (fold (run_eff i) es sv) = sv_caches sv"
  "sv_sockets (fold (run_eff i) es sv) = sv_sockets sv" "sv_joins (fold (run_eff i) es sv) = sv_joins sv"
  "sv_next (fold (run_eff i) es sv) = sv_next sv"
  "length (sv_lobbies (fold (run_eff i) es sv)) = length (sv_lobbies sv)"
  by (induction es arbitrary: sv) simp_all

lemma entry_deleteChannel:
  assumes "l < length (sv_lobbies sv)"
  shows "lobby_entry (lobby_deleteChannel l n sv) l' m = (if l' = l \<and> m = n then None else lobby_entry sv l' m)"
  using assms by (auto simp: lobby_deleteChannel_def lobby_entry_def Let_def jm.get_del jm_has_get nth_list_update)

lemma entry_run_eff:
  assumes "lobby_of i sv < length (sv_lobbies sv)"
  shows "lobby_entry (run_eff i e sv) l m
    = (if l = lobby_of i sv \<and> e = Delete_Channel m then None else lobby_entry sv l m)"
  using assms
proof (cases e)
  case (Delete_Channel n)
  with assms show ?thesis by (auto simp: entry_deleteChannel)
qed (simp_all add: lobby_entry_def)

lemma entry_fold_run_eff:
  assumes "lobby_of i sv < length (sv_lobbies sv)"
  shows "lobby_entry (fold (run_eff i) es sv) l m
    = (if l = lobby_of i sv \<and> Delete_Channel m \<in> set es then None else lobby_entry sv l m)"
  using assms
proof (induction es arbitrary: sv)
  case (Cons e es)
  have "lobby_of i (run_eff i e sv) = lobby_of i sv" by (simp add: lobby_of_def)
  with Cons show ?case by (auto simp: entry_run_eff)
qed simp

subsection \<open>The invariant, subscriptions apart\<close>

definition engines_ok :: "server \<Rightarrow> bool" where
  "engines_ok sv \<longleftrightarrow> (\<forall>i < length (sv_engines sv). chan_ok (engine_of i sv) \<and> lobby_of i sv < length (sv_lobbies sv))"

definition lobbies_ok :: "server \<Rightarrow> bool" where
  "lobbies_ok sv \<longleftrightarrow> (\<forall>l < length (sv_lobbies sv). \<forall>name i. lobby_entry sv l name = Some i \<longrightarrow>
     i < length (sv_engines sv) \<and> lobby_of i sv = l \<and> ch_name (engine_of i sv) = name \<and> \<not> ch_closed (engine_of i sv))"

definition caches_ok :: "server \<Rightarrow> bool" where
  "caches_ok sv \<longleftrightarrow> (\<forall>u k. jm_get (sv_sockets sv) u = Some k \<longrightarrow> k < length (sv_caches sv) \<and> sc_client (sv_caches sv ! k) = u)
     \<and> (\<forall>k < length (sv_caches sv).
          (\<forall>s \<in> set (sc_subs (sv_caches sv ! k)). su_engine s < length (sv_engines sv))
          \<and> (\<forall>name s. jm_get (sc_chan_subs (sv_caches sv ! k)) name = Some s \<longrightarrow> su_engine s < length (sv_engines sv)))
     \<and> (\<forall>j < length (sv_joins sv). jc_cache (jc_get j sv) < length (sv_caches sv)
          \<and> jc_engine (jc_get j sv) < length (sv_engines sv))"

definition connected :: "server \<Rightarrow> nat \<Rightarrow> string \<Rightarrow> bool" where
  "connected sv i u \<longleftrightarrow> (\<exists>k s. jm_get (sv_sockets sv) u = Some k \<and> s \<in> set (sc_subs (sv_caches sv ! k)) \<and> su_engine s = i)"

definition subscribed :: "server \<Rightarrow> nat \<Rightarrow> string \<Rightarrow> bool" where
  "subscribed sv i u \<longleftrightarrow> i < length (sv_engines sv) \<and> jm_has (ch_subs (engine_of i sv)) u"

definition base_ok :: "server \<Rightarrow> bool" where
  "base_ok sv \<longleftrightarrow> engines_ok sv \<and> lobbies_ok sv \<and> caches_ok sv"

definition server_ok :: "server \<Rightarrow> bool" where
  "server_ok sv \<longleftrightarrow> base_ok sv \<and> (\<forall>i u. subscribed sv i u \<longrightarrow> connected sv i u)"

subsection \<open>Calling an engine\<close>

lemma with_engine_frame [simp]:
  "length (sv_engines (fst (with_engine i f sv))) = length (sv_engines sv)"
  "sv_caches (fst (with_engine i f sv)) = sv_caches sv" "sv_sockets (fst (with_engine i f sv)) = sv_sockets sv"
  "sv_joins (fst (with_engine i f sv)) = sv_joins sv" "sv_next (fst (with_engine i f sv)) = sv_next sv"
  "length (sv_lobbies (fst (with_engine i f sv))) = length (sv_lobbies sv)"
  "jc_get j (fst (with_engine i f sv)) = jc_get j sv"
  by (simp_all add: with_engine_def Let_def jc_get_def)

lemma with_engine_engines:
  assumes "i < length (sv_engines sv)"
  shows "engine_of i (fst (with_engine i f sv)) = fst (f (engine_of i sv))"
    "i' \<noteq> i \<Longrightarrow> engine_of i' (fst (with_engine i f sv)) = engine_of i' sv"
    "lobby_of i' (fst (with_engine i f sv)) = lobby_of i' sv"
  using assms by (auto simp: with_engine_def Let_def engine_of_def lobby_of_def nth_list_update)

lemma with_engine_entry:
  assumes i: "i < length (sv_engines sv)" and l: "lobby_of i sv < length (sv_lobbies sv)"
    and ext: "extends (engine_of i sv) (fst (f (engine_of i sv)))"
    and entry: "lobby_entry (fst (with_engine i f sv)) l' m = Some k"
  shows "lobby_entry sv l' m = Some k"
    "l' = lobby_of i sv \<Longrightarrow> m = ch_name (engine_of i sv) \<Longrightarrow> \<not> ch_closed (engine_of i sv) \<Longrightarrow>
       \<not> ch_closed (fst (f (engine_of i sv)))"
proof -
  let ?c = "engine_of i sv"
  let ?sv = "sv\<lparr>sv_engines := (sv_engines sv)[i := (lobby_of i sv, fst (f ?c))]\<rparr>"
  obtain es where es: "ch_log (fst (f ?c)) = ch_log ?c @ es"
      "ch_closed (fst (f ?c)) \<longleftrightarrow> ch_closed ?c \<or> Delete_Channel (ch_name ?c) \<in> set es"
    using ext by (auto simp: extends_def)
  have l2: "lobby_of i ?sv = lobby_of i sv" using i by (simp add: lobby_of_def)
  have e: "lobby_entry (fst (with_engine i f sv)) l' m =
      (if l' = lobby_of i sv \<and> Delete_Channel m \<in> set es then None else lobby_entry sv l' m)"
    using entry_fold_run_eff [of i ?sv es l' m] l l2 es(1)
    by (simp add: with_engine_def Let_def lobby_entry_def)
  with entry show "lobby_entry sv l' m = Some k" by (simp split: if_splits)
  show "l' = lobby_of i sv \<Longrightarrow> m = ch_name ?c \<Longrightarrow> \<not> ch_closed ?c \<Longrightarrow> \<not> ch_closed (fst (f ?c))"
    using e entry es(2) by (simp split: if_splits)
qed

lemma with_engine_base:
  assumes ok: "base_ok sv" and i: "i < length (sv_engines sv)"
    and chan: "chan_ok (fst (f (engine_of i sv)))"
    and ext: "extends (engine_of i sv) (fst (f (engine_of i sv)))"
  shows "base_ok (fst (with_engine i f sv))"
proof -
  let ?sv = "fst (with_engine i f sv)"
  from ok have e: "engines_ok sv" and lo: "lobbies_ok sv" and c: "caches_ok sv" by (simp_all add: base_ok_def)
  have l: "lobby_of i sv < length (sv_lobbies sv)" using e i by (simp add: engines_ok_def)
  have "engines_ok ?sv"
    using e chan i unfolding engines_ok_def
    by (metis with_engine_engines with_engine_frame(1,6))
  moreover have "lobbies_ok ?sv"
    unfolding lobbies_ok_def
  proof (intro allI impI)
    fix l' name k
    assume l': "l' < length (sv_lobbies ?sv)" and en: "lobby_entry ?sv l' name = Some k"
    have old: "lobby_entry sv l' name = Some k" by (rule with_engine_entry(1) [OF i l ext en])
    with lo l' have k: "k < length (sv_engines sv)" "lobby_of k sv = l'" "ch_name (engine_of k sv) = name"
        "\<not> ch_closed (engine_of k sv)"
      by (auto simp: lobbies_ok_def)
    show "k < length (sv_engines ?sv) \<and> lobby_of k ?sv = l' \<and> ch_name (engine_of k ?sv) = name
        \<and> \<not> ch_closed (engine_of k ?sv)"
    proof (cases "k = i")
      case True
      have "ch_name (fst (f (engine_of i sv))) = ch_name (engine_of i sv)" using ext by (simp add: extends_def)
      moreover have "\<not> ch_closed (fst (f (engine_of i sv)))"
        using with_engine_entry(2) [OF i l ext en] k True by simp
      ultimately show ?thesis using k True by (simp add: with_engine_engines [OF i])
    next
      case False
      with k show ?thesis by (simp add: with_engine_engines [OF i])
    qed
  qed
  moreover have "caches_ok ?sv" using c by (simp add: caches_ok_def)
  ultimately show ?thesis by (simp add: base_ok_def)
qed

lemma with_engine_subscribed:
  assumes i: "i < length (sv_engines sv)" and fw: "fewer (engine_of i sv) (fst (f (engine_of i sv)))"
  shows "subscribed (fst (with_engine i f sv)) i' u \<Longrightarrow> subscribed sv i' u"
  using fw by (cases "i' = i") (auto simp: subscribed_def with_engine_engines [OF i] fewer_def)

lemma with_engine_connected [simp]: "connected (fst (with_engine i f sv)) i' u \<longleftrightarrow> connected sv i' u"
  by (simp add: connected_def)

lemma engine_op_ok:
  assumes ok: "server_ok sv" and i: "i < length (sv_engines sv)" and op: "\<not> is_add op"
    and legal: "chan_legal op (engine_of i sv)"
  shows "server_ok (fst (with_engine i (chan_exec op) sv))"
proof -
  have "chan_ok (engine_of i sv)" using ok i by (simp add: server_ok_def base_ok_def engines_ok_def)
  then have "base_ok (fst (with_engine i (chan_exec op) sv))"
    using ok i legal by (intro with_engine_base chan_exec_ok chan_exec_extends) (simp_all add: server_ok_def)
  moreover have "connected sv i' u" if "subscribed (fst (with_engine i (chan_exec op) sv)) i' u" for i' u
    using with_engine_subscribed [OF i chan_exec_fewer [OF op] that] ok by (simp add: server_ok_def)
  ultimately show ?thesis by (simp add: server_ok_def)
qed

end
