(* ===== verification/Server_Run.thy ===== *)
theory Server_Run
  imports Server_Inv
begin

text \<open>
  The operations of an endpoint keep its invariant: registering patterns, connecting, asking to
  join, accepting, declining, leaving, disconnecting, and whatever handlers, timers and other
  nodes make the engines do.
\<close>

subsection \<open>Changing caches\<close>

lemma upd_cache_frame [simp]:
  "sv_engines (upd_cache k f sv) = sv_engines sv" "sv_lobbies (upd_cache k f sv) = sv_lobbies sv"
  "sv_sockets (upd_cache k f sv) = sv_sockets sv" "sv_joins (upd_cache k f sv) = sv_joins sv"
  "engine_of i (upd_cache k f sv) = engine_of i sv" "lobby_of i (upd_cache k f sv) = lobby_of i sv"
  "lobby_entry (upd_cache k f sv) l n = lobby_entry sv l n" "jc_get j (upd_cache k f sv) = jc_get j sv"
  "length (sv_caches (upd_cache k f sv)) = length (sv_caches sv)"
  by (simp_all add: upd_cache_def engine_of_def lobby_of_def lobby_entry_def jc_get_def)

lemma upd_cache_nth:
  "k < length (sv_caches sv) \<Longrightarrow>
     sv_caches (upd_cache k f sv) ! k' = (if k' = k then f (sv_caches sv ! k) else sv_caches sv ! k')"
  by (auto simp: upd_cache_def nth_list_update)

definition cache_ok :: "server \<Rightarrow> socket_cache \<Rightarrow> bool" where
  "cache_ok sv cache \<longleftrightarrow> (\<forall>s \<in> set (sc_subs cache). su_engine s < length (sv_engines sv))
     \<and> (\<forall>name s. jm_get (sc_chan_subs cache) name = Some s \<longrightarrow> su_engine s < length (sv_engines sv))"

lemma upd_cache_base:
  assumes ok: "base_ok sv" and k: "k < length (sv_caches sv)"
    and client: "sc_client (f (sv_caches sv ! k)) = sc_client (sv_caches sv ! k)"
    and cache: "cache_ok sv (f (sv_caches sv ! k))"
  shows "base_ok (upd_cache k f sv)"
  using assms
  by (auto simp: base_ok_def engines_ok_def lobbies_ok_def caches_ok_def upd_cache_nth cache_ok_def)

lemma cache_okD: "base_ok sv \<Longrightarrow> k < length (sv_caches sv) \<Longrightarrow> cache_ok sv (sv_caches sv ! k)"
  by (simp add: base_ok_def caches_ok_def cache_ok_def)

lemma base_engine_ok: "base_ok sv \<Longrightarrow> i < length (sv_engines sv) \<Longrightarrow> chan_ok (engine_of i sv)"
  by (simp add: base_ok_def engines_ok_def)

subsection \<open>Running a subscription function\<close>

definition drop_sub :: "subscription \<Rightarrow> string \<Rightarrow> socket_cache \<Rightarrow> socket_cache" where
  "drop_sub s name cache = cache\<lparr>sc_subs := js_remove s (sc_subs cache),
     sc_chan_subs := jm_delete name (sc_chan_subs cache)\<rparr>"

lemma drop_sub_ok: "cache_ok sv cache \<Longrightarrow> cache_ok sv (drop_sub s name cache)"
  by (auto simp: cache_ok_def drop_sub_def jm.get_del)

definition leave_engine :: "nat \<Rightarrow> string \<Rightarrow> server \<Rightarrow> server" where
  "leave_engine i u sv = fst (with_engine i (\<lambda>c. (removeUser u False c, None)) sv)"

lemma run_subscription_eq:
  "run_subscription k s sv =
     upd_cache k (drop_sub s (ch_name (engine_of (su_engine s) (leave_engine (su_engine s) (sc_client (sv_caches sv ! k)) sv))))
       (leave_engine (su_engine s) (sc_client (sv_caches sv ! k)) sv)"
  by (simp add: run_subscription_def leave_engine_def Let_def drop_sub_def [abs_def])

lemma leave_engine_frame [simp]:
  "length (sv_engines (leave_engine i u sv)) = length (sv_engines sv)"
  "sv_caches (leave_engine i u sv) = sv_caches sv" "sv_sockets (leave_engine i u sv) = sv_sockets sv"
  "sv_joins (leave_engine i u sv) = sv_joins sv"
  by (simp_all add: leave_engine_def)

lemma leave_engine_base: "base_ok sv \<Longrightarrow> i < length (sv_engines sv) \<Longrightarrow> base_ok (leave_engine i u sv)"
  unfolding leave_engine_def
  by (intro with_engine_base) (simp_all add: remove_user_ok base_engine_ok extends_removeUser)

lemma leave_engine_subscribed:
  assumes "i < length (sv_engines sv)"
  shows "subscribed (leave_engine i u sv) i' v \<Longrightarrow> subscribed sv i' v"
  unfolding leave_engine_def
  by (rule with_engine_subscribed [OF assms]) (simp_all add: fewer_removeUser)

lemma leave_engine_out:
  assumes "base_ok sv" "i < length (sv_engines sv)"
  shows "\<not> subscribed (leave_engine i u sv) i u"
  using removeUser_unsubscribes [OF base_engine_ok [OF assms]] assms(2)
  by (simp add: subscribed_def leave_engine_def with_engine_engines)

lemma run_subscription_base:
  assumes ok: "base_ok sv" and k: "k < length (sv_caches sv)" and s: "su_engine s < length (sv_engines sv)"
  shows "base_ok (run_subscription k s sv)"
proof -
  have base: "base_ok (leave_engine (su_engine s) (sc_client (sv_caches sv ! k)) sv)"
    by (rule leave_engine_base [OF ok s])
  moreover have "cache_ok (leave_engine (su_engine s) (sc_client (sv_caches sv ! k)) sv) (sv_caches sv ! k)"
    using cache_okD [OF base] k by simp
  ultimately show ?thesis
    unfolding run_subscription_eq using k
    by (intro upd_cache_base) (simp_all add: drop_sub_ok, simp add: drop_sub_def)
qed

lemma run_subscription_frame:
  assumes "k < length (sv_caches sv)"
  shows "length (sv_engines (run_subscription k s sv)) = length (sv_engines sv)"
    "length (sv_caches (run_subscription k s sv)) = length (sv_caches sv)"
    "sv_sockets (run_subscription k s sv) = sv_sockets sv" "sv_joins (run_subscription k s sv) = sv_joins sv"
    "sc_client (sv_caches (run_subscription k s sv) ! k') = sc_client (sv_caches sv ! k')"
    "sc_subs (sv_caches (run_subscription k s sv) ! k') =
       (if k' = k then js_remove s (sc_subs (sv_caches sv ! k)) else sc_subs (sv_caches sv ! k'))"
  using assms by (auto simp: run_subscription_eq upd_cache_nth drop_sub_def)

lemma subscribed_upd_cache [simp]: "subscribed (upd_cache k f sv) i u \<longleftrightarrow> subscribed sv i u"
  by (simp add: subscribed_def)

lemma run_subscription_subscribed:
  assumes "su_engine s < length (sv_engines sv)"
  shows "subscribed (run_subscription k s sv) i v \<Longrightarrow> subscribed sv i v"
  unfolding run_subscription_eq using leave_engine_subscribed [OF assms] by simp

lemma run_subscription_out:
  assumes "base_ok sv" "su_engine s < length (sv_engines sv)"
  shows "\<not> subscribed (run_subscription k s sv) (su_engine s) (sc_client (sv_caches sv ! k))"
  unfolding run_subscription_eq using leave_engine_out [OF assms] by simp

text \<open>A client that leaves one channel keeps its other subscriptions.\<close>

lemma run_subscription_ok:
  assumes ok: "server_ok sv" and k: "jm_get (sv_sockets sv) (sc_client (sv_caches sv ! k)) = Some k"
    and s: "su_engine s < length (sv_engines sv)"
  shows "server_ok (run_subscription k s sv)"
proof -
  let ?u = "sc_client (sv_caches sv ! k)" and ?sv = "run_subscription k s sv"
  have base: "base_ok sv" and kl: "k < length (sv_caches sv)"
    using ok k by (auto simp: server_ok_def base_ok_def caches_ok_def)
  have "connected ?sv i v" if sub: "subscribed ?sv i v" for i v
  proof -
    have "connected sv i v"
      using run_subscription_subscribed [OF s sub] ok by (simp add: server_ok_def)
    then obtain k' s' where con: "jm_get (sv_sockets sv) v = Some k'" "s' \<in> set (sc_subs (sv_caches sv ! k'))"
        "su_engine s' = i"
      by (auto simp: connected_def)
    have "s' \<noteq> s \<or> k' \<noteq> k"
    proof (rule ccontr)
      assume "\<not> (s' \<noteq> s \<or> k' \<noteq> k)"
      moreover from this con base have "v = ?u" by (auto simp: base_ok_def caches_ok_def)
      ultimately show False using sub run_subscription_out [OF base s, of k] con(3) by simp
    qed
    with con show ?thesis
      unfolding connected_def run_subscription_frame [OF kl]
      by (intro exI [of _ k'] exI [of _ s']) auto
  qed
  then show ?thesis
    by (simp add: server_ok_def run_subscription_base [OF base kl s])
qed

subsection \<open>Disconnecting\<close>

lemma fold_subscriptions:
  assumes "base_ok sv" "k < length (sv_caches sv)" "\<forall>s \<in> set ss. su_engine s < length (sv_engines sv)"
  shows "base_ok (fold (run_subscription k) ss sv)
    \<and> length (sv_caches (fold (run_subscription k) ss sv)) = length (sv_caches sv)
    \<and> length (sv_engines (fold (run_subscription k) ss sv)) = length (sv_engines sv)
    \<and> sv_sockets (fold (run_subscription k) ss sv) = sv_sockets sv
    \<and> (\<forall>k'. sc_client (sv_caches (fold (run_subscription k) ss sv) ! k') = sc_client (sv_caches sv ! k'))
    \<and> (\<forall>k'. k' \<noteq> k \<longrightarrow> sc_subs (sv_caches (fold (run_subscription k) ss sv) ! k') = sc_subs (sv_caches sv ! k'))
    \<and> (\<forall>i v. subscribed (fold (run_subscription k) ss sv) i v \<longrightarrow>
          subscribed sv i v \<and> \<not> (v = sc_client (sv_caches sv ! k) \<and> (\<exists>s \<in> set ss. su_engine s = i)))"
  using assms
proof (induction ss arbitrary: sv)
  case (Cons s ss)
  let ?sv = "run_subscription k s sv"
  have s: "su_engine s < length (sv_engines sv)" using Cons.prems(3) by simp
  note fr = run_subscription_frame [OF Cons.prems(2), of s]
  have base: "base_ok ?sv" by (rule run_subscription_base [OF Cons.prems(1,2) s])
  have IH: "base_ok (fold (run_subscription k) ss ?sv)
    \<and> length (sv_caches (fold (run_subscription k) ss ?sv)) = length (sv_caches ?sv)
    \<and> length (sv_engines (fold (run_subscription k) ss ?sv)) = length (sv_engines ?sv)
    \<and> sv_sockets (fold (run_subscription k) ss ?sv) = sv_sockets ?sv
    \<and> (\<forall>k'. sc_client (sv_caches (fold (run_subscription k) ss ?sv) ! k') = sc_client (sv_caches ?sv ! k'))
    \<and> (\<forall>k'. k' \<noteq> k \<longrightarrow> sc_subs (sv_caches (fold (run_subscription k) ss ?sv) ! k') = sc_subs (sv_caches ?sv ! k'))
    \<and> (\<forall>i v. subscribed (fold (run_subscription k) ss ?sv) i v \<longrightarrow>
          subscribed ?sv i v \<and> \<not> (v = sc_client (sv_caches ?sv ! k) \<and> (\<exists>s \<in> set ss. su_engine s = i)))"
    using Cons.prems fr by (intro Cons.IH [OF base]) simp_all
  have out: "\<not> subscribed ?sv (su_engine s) (sc_client (sv_caches sv ! k))"
    by (rule run_subscription_out [OF Cons.prems(1) s])
  show ?case
    using IH fr out run_subscription_subscribed [OF s, of k] by auto
qed simp

lemma handleSocketClose_ok:
  assumes ok: "server_ok sv" and k: "jm_get (sv_sockets sv) (sc_client (sv_caches sv ! k)) = Some k"
  shows "server_ok (ep_handleSocketClose k sv)"
proof -
  let ?u = "sc_client (sv_caches sv ! k)"
  let ?sv1 = "sv\<lparr>sv_sockets := jm_delete ?u (sv_sockets sv)\<rparr>"
  let ?sv2 = "fold (run_subscription k) (sc_subs (sv_caches sv ! k)) ?sv1"
  have base: "base_ok sv" and kl: "k < length (sv_caches sv)"
    using ok k by (auto simp: server_ok_def base_ok_def caches_ok_def)
  have base1: "base_ok ?sv1"
    using base by (auto simp: base_ok_def engines_ok_def lobbies_ok_def caches_ok_def jm.get_del
        engine_of_def lobby_of_def lobby_entry_def jc_get_def split: if_splits)
  have subs: "\<forall>s \<in> set (sc_subs (sv_caches sv ! k)). su_engine s < length (sv_engines ?sv1)"
    using cache_okD [OF base kl] by (simp add: cache_ok_def)
  note f = fold_subscriptions [OF base1 _ subs, of k, simplified, OF kl]
  have eq: "ep_handleSocketClose k sv = upd_cache k (\<lambda>cache. cache\<lparr>sc_chan_subs := []\<rparr>) ?sv2"
    by (simp add: ep_handleSocketClose_def Let_def)
  have "cache_ok ?sv2 (sv_caches ?sv2 ! k)"
    using f kl by (intro cache_okD) auto
  then have "base_ok (ep_handleSocketClose k sv)"
    unfolding eq using f kl by (intro upd_cache_base) (auto simp: cache_ok_def)
  moreover have "connected (ep_handleSocketClose k sv) i v" if "subscribed (ep_handleSocketClose k sv) i v" for i v
  proof -
    have sub: "subscribed ?sv2 i v" using that by (simp add: eq)
    with f have "subscribed ?sv1 i v" and out: "\<not> (v = ?u \<and> (\<exists>s \<in> set (sc_subs (sv_caches sv ! k)). su_engine s = i))"
      by auto
    then have "subscribed sv i v" by (simp add: subscribed_def engine_of_def)
    with ok have "connected sv i v" by (simp add: server_ok_def)
    then obtain k' s' where con: "jm_get (sv_sockets sv) v = Some k'" "s' \<in> set (sc_subs (sv_caches sv ! k'))"
        "su_engine s' = i"
      by (auto simp: connected_def)
    have vu: "v \<noteq> ?u" using con k out by auto
    then have "k' \<noteq> k" using con(1) base by (auto simp: base_ok_def caches_ok_def)
    with con vu f kl show ?thesis
      unfolding eq connected_def
      by (intro exI [of _ k'] exI [of _ s']) (auto simp: upd_cache_nth jm.get_del)
  qed
  ultimately show ?thesis by (simp add: server_ok_def)
qed

subsection \<open>Connecting\<close>

definition new_client :: "string \<Rightarrow> server \<Rightarrow> bool" where
  "new_client u sv = (\<not> jm_has (sv_sockets sv) u)"

lemma manageSocket_ok:
  assumes ok: "server_ok sv" and new: "new_client u sv"
  shows "server_ok (snd (ep_manageSocket u socket a rid sv))"
proof -
  let ?sv = "snd (ep_manageSocket u socket a rid sv)"
  have fr: "sv_engines ?sv = sv_engines sv" "sv_lobbies ?sv = sv_lobbies sv" "sv_joins ?sv = sv_joins sv"
      "sv_sockets ?sv = jm_set u (length (sv_caches sv)) (sv_sockets sv)"
      "sv_caches ?sv = sv_caches sv @ [\<lparr>sc_client = u, sc_socket = socket, sc_assigns = a, sc_subs = [], sc_chan_subs = []\<rparr>]"
    by (simp_all add: ep_manageSocket_def Let_def)
  have base: "base_ok sv" using ok by (simp add: server_ok_def)
  have old: "k < length (sv_caches sv)" if "jm_get (sv_sockets sv) v = Some k" for v k
    using base that by (auto simp: base_ok_def caches_ok_def)
  have "engines_ok ?sv" "lobbies_ok ?sv"
    using base by (simp_all add: base_ok_def engines_ok_def lobbies_ok_def engine_of_def lobby_of_def lobby_entry_def fr)
  moreover have "caches_ok ?sv"
    using base unfolding caches_ok_def base_ok_def fr
    by (auto simp: jm.get_put nth_append jc_get_def fr less_Suc_eq split: if_splits)
  moreover have "connected ?sv i v" if "subscribed ?sv i v" for i v
  proof -
    have "connected sv i v" using that ok by (simp add: server_ok_def subscribed_def engine_of_def fr)
    then obtain k s where "jm_get (sv_sockets sv) v = Some k" "s \<in> set (sc_subs (sv_caches sv ! k))" "su_engine s = i"
      by (auto simp: connected_def)
    with new old show ?thesis
      by (intro connected_def [THEN iffD2] exI [of _ k] exI [of _ s])
        (auto simp: fr jm.get_put nth_append new_client_def jm_has_get)
  qed
  ultimately show ?thesis by (simp add: server_ok_def base_ok_def)
qed

subsection \<open>Patterns and channels\<close>

lemma createChannel_ok:
  assumes ok: "server_ok sv" and new: "ep_createChannel path sv = Inr (l, sv')"
  shows "server_ok sv'"
proof -
  have sv': "sv' = sv\<lparr>sv_lobbies := sv_lobbies sv @ [\<lparr>lb_path = path, lb_channels = [], lb_leave = False\<rparr>]\<rparr>"
    using new by (auto simp: ep_createChannel_def res_bind_def split: sum.splits if_splits)
  have base: "base_ok sv" using ok by (simp add: server_ok_def)
  then have "engines_ok sv'" "caches_ok sv'"
    by (auto simp: base_ok_def engines_ok_def caches_ok_def engine_of_def lobby_of_def jc_get_def sv' less_SucI)
  moreover have "lobbies_ok sv'"
    using base by (auto simp: base_ok_def lobbies_ok_def lobby_entry_def engine_of_def lobby_of_def sv'
        nth_append less_Suc_eq)
  moreover have "subscribed sv' i u \<longleftrightarrow> subscribed sv i u" "connected sv' i u \<longleftrightarrow> connected sv i u" for i u
    by (simp_all add: subscribed_def connected_def engine_of_def sv')
  ultimately show ?thesis using ok by (simp add: server_ok_def base_ok_def)
qed

lemma createEngine_ok:
  assumes ok: "server_ok sv" and l: "l < length (sv_lobbies sv)"
  shows "server_ok (snd (lobby_createChannel l name sv))"
proof -
  let ?sv = "snd (lobby_createChannel l name sv)" and ?i = "length (sv_engines sv)"
  let ?c = "new_channel name (sv_path sv) (sv_backend sv) (lb_leave (sv_lobbies sv ! l)) (sv_random sv ?i)"
  have fr: "sv_engines ?sv = sv_engines sv @ [(l, ?c)]" "sv_caches ?sv = sv_caches sv" "sv_sockets ?sv = sv_sockets sv"
      "sv_joins ?sv = sv_joins sv" "length (sv_lobbies ?sv) = length (sv_lobbies sv)"
    by (simp_all add: lobby_createChannel_def Let_def)
  have entry: "lobby_entry ?sv l' n = (if l' = l \<and> n = name then Some ?i else lobby_entry sv l' n)" for l' n
    using l by (auto simp: lobby_createChannel_def Let_def lobby_entry_def jm.get_put nth_list_update)
  have eng: "engine_of i ?sv = (if i = ?i then ?c else engine_of i sv)"
      "lobby_of i ?sv = (if i = ?i then l else lobby_of i sv)" if "i \<le> ?i" for i
    using that by (auto simp: engine_of_def lobby_of_def fr nth_append)
  have base: "base_ok sv" using ok by (simp add: server_ok_def)
  have "engines_ok ?sv"
    using base l by (auto simp: base_ok_def engines_ok_def fr eng new_channel_ok less_Suc_eq)
  moreover have "lobbies_ok ?sv"
  proof -
    have c: "ch_name ?c = name" "\<not> ch_closed ?c" by (simp_all add: new_channel_def)
    show ?thesis
      unfolding lobbies_ok_def
    proof (intro allI impI)
      fix l' n i
      assume l': "l' < length (sv_lobbies ?sv)" and en: "lobby_entry ?sv l' n = Some i"
      show "i < length (sv_engines ?sv) \<and> lobby_of i ?sv = l' \<and> ch_name (engine_of i ?sv) = n \<and> \<not> ch_closed (engine_of i ?sv)"
      proof (cases "l' = l \<and> n = name")
        case True
        with en have "i = ?i" by (simp add: entry)
        with True c show ?thesis by (simp add: fr eng)
      next
        case False
        with en have "lobby_entry sv l' n = Some i" by (auto simp: entry)
        with base l' have "i < ?i" "lobby_of i sv = l'" "ch_name (engine_of i sv) = n" "\<not> ch_closed (engine_of i sv)"
          by (auto simp: base_ok_def lobbies_ok_def fr)
        then show ?thesis by (simp add: fr eng)
      qed
    qed
  qed
  moreover have "caches_ok ?sv"
    using base by (auto simp: base_ok_def caches_ok_def fr jc_get_def less_SucI)
  moreover have "subscribed sv i u" if "subscribed ?sv i u" for i u
    using that by (auto simp: subscribed_def fr eng new_channel_def less_Suc_eq split: if_splits)
  moreover have "connected ?sv i u \<longleftrightarrow> connected sv i u" for i u
    by (simp add: connected_def fr)
  ultimately show ?thesis using ok by (auto simp: server_ok_def base_ok_def)
qed

lemma getOrCreate_server_ok:
  assumes ok: "server_ok sv" and l: "l < length (sv_lobbies sv)" and g: "lobby_getOrCreateChannel l name sv = (i, sv')"
  shows "server_ok sv'" "i < length (sv_engines sv')" "sv_caches sv' = sv_caches sv" "sv_sockets sv' = sv_sockets sv"
proof -
  show "server_ok sv'"
    using g ok createEngine_ok [OF ok l, of name]
    by (auto simp: lobby_getOrCreateChannel_def split: option.splits)
  have "\<forall>n j. lobby_entry sv l n = Some j \<longrightarrow> j < length (sv_engines sv)"
    using ok l by (auto simp: server_ok_def base_ok_def lobbies_ok_def)
  then show "i < length (sv_engines sv')"
    using g by (auto simp: lobby_getOrCreateChannel_def lobby_createChannel_def Let_def lobby_entry_def split: option.splits)
  show "sv_caches sv' = sv_caches sv" "sv_sockets sv' = sv_sockets sv"
    using g by (auto simp: lobby_getOrCreateChannel_def lobby_createChannel_def Let_def split: option.splits)
qed

subsection \<open>Join contexts\<close>

lemma startJoin_ok:
  assumes ok: "server_ok sv" and l: "l < length (sv_lobbies sv)" and k: "jr_cache req < length (sv_caches sv)"
  shows "server_ok (snd (start_join l req params sv))"
proof -
  obtain i sv1 where g: "lobby_getOrCreateChannel l (jr_channel req) sv = (i, sv1)" by force
  note g' = getOrCreate_server_ok [OF ok l g]
  let ?sv = "sv1\<lparr>sv_joins := sv_joins sv1 @ [new_join req params i sv1]\<rparr>"
  have eng: "engine_of n ?sv = engine_of n sv1" "lobby_of n ?sv = lobby_of n sv1"
      "lobby_entry ?sv l' m = lobby_entry sv1 l' m" for n l' m
    by (simp_all add: engine_of_def lobby_of_def lobby_entry_def)
  have "caches_ok ?sv"
    using g' k unfolding caches_ok_def server_ok_def base_ok_def
    by (auto simp: jc_get_def nth_append new_join_def less_Suc_eq)
  then have "server_ok ?sv"
    using g'(1) by (simp add: server_ok_def base_ok_def engines_ok_def lobbies_ok_def subscribed_def connected_def eng)
  then show ?thesis by (simp add: start_join_def g)
qed

lemma upd_join_frame [simp]:
  "sv_engines (upd_join j f sv) = sv_engines sv" "sv_lobbies (upd_join j f sv) = sv_lobbies sv"
  "sv_sockets (upd_join j f sv) = sv_sockets sv" "sv_caches (upd_join j f sv) = sv_caches sv"
  "engine_of i (upd_join j f sv) = engine_of i sv" "lobby_of i (upd_join j f sv) = lobby_of i sv"
  "lobby_entry (upd_join j f sv) l n = lobby_entry sv l n"
  "length (sv_joins (upd_join j f sv)) = length (sv_joins sv)"
  by (simp_all add: upd_join_def engine_of_def lobby_of_def lobby_entry_def)

lemma upd_join_get:
  "j < length (sv_joins sv) \<Longrightarrow> jc_get j' (upd_join j f sv) = (if j' = j then f (jc_get j sv) else jc_get j' sv)"
  by (auto simp: upd_join_def jc_get_def nth_list_update)

lemma upd_join_ok:
  assumes "server_ok sv" "j < length (sv_joins sv)"
    and "jc_cache (f (jc_get j sv)) = jc_cache (jc_get j sv)" "jc_engine (f (jc_get j sv)) = jc_engine (jc_get j sv)"
  shows "server_ok (upd_join j f sv)"
  using assms
  by (auto simp: server_ok_def base_ok_def engines_ok_def lobbies_ok_def caches_ok_def subscribed_def
      connected_def upd_join_get)

lemma addUser_subs:
  "ch_subs (fst (addUser u a conn rid c)) =
     (if snd (addUser u a conn rid c) = None then jm_set u (Observer (ch_next_id c) u conn) (ch_subs c) else ch_subs c)"
proof -
  have sub: "ch_subs (fst (buildSubscriber u conn d)) =
      (if snd (buildSubscriber u conn d) = None then jm_set u (Observer (ch_next_id d) u conn) (ch_subs d) else ch_subs d)" for d
    by (simp add: buildSubscriber_def Let_def split: sum.split)
  have seq: "ch_subs (fst (and_then r (\<lambda>c. (f c, None)))) = ch_subs (fst r)"
      "snd (and_then r (\<lambda>c. (f c, None))) = snd r" if "\<And>c. ch_subs (f c) = ch_subs c" for r :: outcome and f :: "chan \<Rightarrow> chan"
    using that by (cases r; cases "snd r"; auto simp: and_then_def)+
  show ?thesis
    unfolding addUser_def Let_def
    by (cases "has_user u c")
      (simp_all add: seq sub afterDistributedReady_def requestChannelState_def)
qed

text \<open>
  What the surroundings guarantee when a handler accepts: the client is still connected and its
  id is not one of another node's users.
\<close>

definition may_accept :: "nat \<Rightarrow> server \<Rightarrow> bool" where
  "may_accept j sv \<longleftrightarrow> j < length (sv_joins sv) \<and> jm_get (sv_sockets sv) (jc_client j sv) = Some (jc_cache (jc_get j sv))
     \<and> fresh_user (jc_client j sv) (engine_of (jc_engine (jc_get j sv)) sv)"

lemma join_engine:
  "server_ok sv \<Longrightarrow> j < length (sv_joins sv) \<Longrightarrow> jc_engine (jc_get j sv) < length (sv_engines sv)"
  "server_ok sv \<Longrightarrow> j < length (sv_joins sv) \<Longrightarrow> jc_cache (jc_get j sv) < length (sv_caches sv)"
  by (auto simp: server_ok_def base_ok_def caches_ok_def)

lemma assign_ok:
  assumes ok: "server_ok sv" and j: "j < length (sv_joins sv)"
  shows "server_ok (fst (jc_assign j a sv))"
proof -
  have "server_ok (fst (with_engine (jc_engine (jc_get j sv)) (updateAssigns (jc_client j sv) a) sv))"
    using engine_op_ok [OF ok join_engine(1) [OF ok j], of "Update_Assigns (jc_client j sv) a"]
    by (simp add: chan_exec.simps(7) [abs_def])
  then show ?thesis
    using upd_join_ok [OF ok j] by (simp add: jc_assign_def)
qed

lemma subscribe_ok:
  assumes ok: "server_ok sv" and may: "may_accept j sv"
    and add: "with_engine (jc_engine (jc_get j sv)) (addUser (jc_client j sv) a conn rid) sv = (sv', r)"
  shows "r \<noteq> None \<Longrightarrow> server_ok sv'" "r = None \<Longrightarrow> server_ok (add_subscription j sv')"
proof -
  let ?i = "jc_engine (jc_get j sv)" and ?u = "jc_client j sv" and ?k = "jc_cache (jc_get j sv)"
  let ?f = "addUser ?u a conn rid"
  have j: "j < length (sv_joins sv)" using may by (simp add: may_accept_def)
  note i = join_engine(1) [OF ok j] and k = join_engine(2) [OF ok j]
  have base: "base_ok sv" using ok by (simp add: server_ok_def)
  have sv': "sv' = fst (with_engine ?i ?f sv)" and r: "r = snd (?f (engine_of ?i sv))"
    using add by (simp_all add: with_engine_def Let_def prod_eq_iff)
  have base': "base_ok sv'"
    unfolding sv' using may base_engine_ok [OF base i]
    by (intro with_engine_base base i add_user_ok extends_addUser) (simp_all add: may_accept_def)
  have sub: "subscribed sv n v \<or> (r = None \<and> n = ?i \<and> v = ?u)" if "subscribed sv' n v" for n v
    using that unfolding sv' subscribed_def
    by (cases "n = ?i") (auto simp: with_engine_engines [OF i] addUser_subs jm_has_set r split: if_splits)
  have con: "connected sv' n v \<longleftrightarrow> connected sv n v" for n v
    by (simp add: sv')
  show "server_ok sv'" if "r \<noteq> None"
    using that base' sub ok by (auto simp: server_ok_def con)
  show "server_ok (add_subscription j sv')" if "r = None"
  proof -
    let ?s = "\<lparr>su_id = sv_next sv', su_engine = ?i\<rparr>"
    define g where "g = (\<lambda>cache :: socket_cache. cache\<lparr>sc_subs := sc_subs cache @ [?s],
        sc_chan_subs := jm_set (ch_name (engine_of ?i sv')) ?s (sc_chan_subs cache)\<rparr>)"
    let ?sv2 = "sv'\<lparr>sv_next := Suc (sv_next sv')\<rparr>"
    have jc: "jc_get j sv' = jc_get j sv" by (simp add: sv')
    have eq: "add_subscription j sv' = upd_cache ?k g ?sv2"
      by (simp add: add_subscription_def Let_def jc g_def)
    have base2: "base_ok ?sv2"
      using base' by (simp add: base_ok_def engines_ok_def lobbies_ok_def caches_ok_def engine_of_def lobby_of_def
          lobby_entry_def jc_get_def)
    have "base_ok (upd_cache ?k g ?sv2)"
      using base2 k i cache_okD [OF base2, of ?k]
      by (intro upd_cache_base) (auto simp: sv' g_def cache_ok_def jm.get_put split: if_splits)
    moreover have "connected (upd_cache ?k g ?sv2) n v" if "subscribed (upd_cache ?k g ?sv2) n v" for n v
    proof (cases "n = ?i \<and> v = ?u")
      case True
      then show ?thesis
        using may k unfolding connected_def may_accept_def
        by (intro exI [of _ ?k] exI [of _ ?s]) (simp add: upd_cache_nth sv' g_def)
    next
      case False
      have "subscribed sv' n v" using that by (simp add: subscribed_def engine_of_def)
      with sub False have "subscribed sv n v" by blast
      with ok have "connected sv n v" by (simp add: server_ok_def)
      then show ?thesis
        using k by (auto simp: connected_def upd_cache_nth sv' g_def)
    qed
    ultimately show ?thesis by (simp add: server_ok_def eq)
  qed
qed

lemma send_server_ok [simp]: "server_ok (ep_sendMessage s m sv) \<longleftrightarrow> server_ok sv"
  by (simp add: ep_sendMessage_def server_ok_def base_ok_def engines_ok_def lobbies_ok_def caches_ok_def
      subscribed_def connected_def engine_of_def lobby_of_def lobby_entry_def jc_get_def)

lemma checks_ok:
  assumes "server_ok sv" "j < length (sv_joins sv)" "jc_performChecks j sv = (sv', r)"
  shows "server_ok sv'" "sv_sockets sv' = sv_sockets sv" "length (sv_joins sv') = length (sv_joins sv)"
    "jc_client j sv' = jc_client j sv" "jc_get j sv' = (jc_get j sv)\<lparr>jc_executed := True\<rparr>"
    "engine_of i sv' = engine_of i sv"
proof -
  from assms(3) have sv': "sv' = sv \<and> jc_executed (jc_get j sv) \<or> sv' = upd_join j (\<lambda>x. x\<lparr>jc_executed := True\<rparr>) sv"
    by (auto simp: jc_performChecks_def split: if_splits)
  then show "server_ok sv'" using assms(1,2) upd_join_ok [OF assms(1,2)] by auto
  show "sv_sockets sv' = sv_sockets sv" "length (sv_joins sv') = length (sv_joins sv)" "engine_of i sv' = engine_of i sv"
    using sv' by auto
  show get: "jc_get j sv' = (jc_get j sv)\<lparr>jc_executed := True\<rparr>"
    using sv' assms(2) by (auto simp: upd_join_get)
  show "jc_client j sv' = jc_client j sv"
    using sv' assms(2) by (auto simp: jc_client_def upd_join_get)
qed

lemma decline_ok:
  assumes ok: "server_ok sv" and j: "j < length (sv_joins sv)"
  shows "server_ok (fst (jc_decline j m c sv))"
proof (cases "jc_performChecks j sv")
  case (Pair sv' r)
  then show ?thesis
    using checks_ok(1) [OF ok j Pair] by (cases r) (simp_all add: jc_decline_def jc_directMessage_def)
qed

lemma update_assigns_node_users: "ch_node_users (fst (updateAssigns u a c)) = ch_node_users c"
  by (simp add: updateAssigns_def Let_def split: option.split)

lemma assign_keeps:
  assumes ok: "server_ok sv" and may: "may_accept j sv"
  shows "may_accept j (fst (jc_assign j a sv))"
proof -
  let ?i = "jc_engine (jc_get j sv)" and ?f = "updateAssigns (jc_client j sv) a"
  have j: "j < length (sv_joins sv)" using may by (simp add: may_accept_def)
  note i = join_engine(1) [OF ok j]
  show ?thesis
  proof (cases "jc_accepted (jc_get j sv)")
    case True
    let ?sv = "fst (with_engine ?i ?f sv)"
    have "jc_client j ?sv = jc_client j sv" by (simp add: jc_client_def)
    moreover have "fresh_user u (engine_of ?i ?sv) \<longleftrightarrow> fresh_user u (engine_of ?i sv)" for u
      by (simp add: with_engine_engines [OF i] fresh_user_def update_assigns_node_users)
    ultimately show ?thesis
      using may True by (simp add: jc_assign_def may_accept_def)
  next
    case False
    then show ?thesis
      using may j by (simp add: jc_assign_def may_accept_def jc_client_def upd_join_get)
  qed
qed

lemma accept_ok:
  assumes ok: "server_ok sv" and may: "may_accept j sv"
  shows "server_ok (fst (jc_accept j assigns sv))"
proof -
  have j: "j < length (sv_joins sv)" using may by (simp add: may_accept_def)
  obtain sv1 r1 where s1: "(case assigns of Some a \<Rightarrow> jc_assign j a sv | None \<Rightarrow> (sv, None)) = (sv1, r1)" by force
  have ok1: "server_ok sv1" and may1: "may_accept j sv1"
    using s1 ok may assign_ok [OF ok j] assign_keeps [OF ok may] by (auto split: option.splits) (metis fst_conv)+
  have j1: "j < length (sv_joins sv1)" using may1 by (simp add: may_accept_def)
  obtain sv2 r2 where s2: "jc_performChecks j sv1 = (sv2, r2)" by force
  note c = checks_ok [OF ok1 j1 s2]
  have may2: "may_accept j sv2" using may1 by (simp add: may_accept_def c)
  obtain sv3 r3 where s3: "with_engine (jc_engine (jc_get j sv2)) (addUser (jc_client j sv2) (jc_assigns (jc_get j sv2))
         (jc_socket j sv2) (jc_request (jc_get j sv2))) sv2 = (sv3, r3)" by force
  note sub = subscribe_ok [OF c(1) may2 s3]
  have j3: "j < length (sv_joins (add_subscription j sv3))"
    using may2 s3 by (auto simp: may_accept_def add_subscription_def Let_def with_engine_def)
  show ?thesis
  proof (cases "r1 = None \<and> r2 = None \<and> r3 = None")
    case True
    then show ?thesis
      using s1 s2 s3 upd_join_ok [OF sub(2) j3] by (simp add: jc_accept_def)
  next
    case False
    then show ?thesis
      using s1 s2 s3 ok1 c(1) sub(1) by (cases r1; cases r2; cases r3) (simp_all add: jc_accept_def)
  qed
qed

subsection \<open>Leaving\<close>

lemma removeUser_op: "(\<lambda>c. (removeUser u False c, None)) = chan_exec (Remove_User u)"
  by (simp add: fun_eq_iff)

lemma first_lobby_range:
  "first_lobby l lbs channel = Inr (Some n) \<Longrightarrow> l \<le> n \<and> n < l + length lbs"
  by (induction lbs arbitrary: l) (auto split: sum.splits option.splits, fastforce+)

lemma retrieve_range:
  assumes ok: "server_ok sv" and r: "ep_retrieveChannel channel sv = Inr i"
  shows "i < length (sv_engines sv) \<and> ch_name (engine_of i sv) = channel \<and> \<not> ch_closed (engine_of i sv)"
proof -
  obtain l where l: "first_lobby 0 (sv_lobbies sv) channel = Inr (Some l)" "lobby_getChannel l channel sv = Inr i"
    using r by (auto simp: ep_retrieveChannel_def res_bind_def split: sum.splits option.splits)
  then have "l < length (sv_lobbies sv)" using first_lobby_range by fastforce
  moreover have "lobby_entry sv l channel = Some i"
    using l(2) by (auto simp: lobby_getChannel_def lobby_entry_def split: option.splits)
  ultimately show ?thesis using ok by (auto simp: server_ok_def base_ok_def lobbies_ok_def)
qed

lemma leave_ok:
  assumes ok: "server_ok sv" and k: "jm_get (sv_sockets sv) (sc_client (sv_caches sv ! k)) = Some k"
  shows "server_ok (fst (ep_leaveChannel channel k sv))"
proof (cases "jm_get (sc_chan_subs (sv_caches sv ! k)) channel")
  case None
  then show ?thesis
    using ok engine_op_ok [OF ok, of _ "Remove_User (sc_client (sv_caches sv ! k))"] retrieve_range [OF ok, of channel]
    by (auto simp: ep_leaveChannel_def removeUser_op split: sum.split)
next
  case (Some s)
  have "k < length (sv_caches sv)" using ok k by (auto simp: server_ok_def base_ok_def caches_ok_def)
  then have "su_engine s < length (sv_engines sv)"
    using ok Some cache_okD [of sv k] by (auto simp: server_ok_def cache_ok_def)
  then show ?thesis
    using Some run_subscription_ok [OF ok k] by (simp add: ep_leaveChannel_def)
qed

lemma onLeave_ok:
  assumes ok: "server_ok sv" and l: "l < length (sv_lobbies sv)"
  shows "server_ok (lobby_onLeave l sv)"
proof -
  let ?sv = "lobby_onLeave l sv"
  let ?g = "\<lambda>(l', c). (l', if l' = l then c\<lparr>ch_leave := True\<rparr> else c)"
  have nth: "sv_engines ?sv ! i = ?g (sv_engines sv ! i)" if "i < length (sv_engines sv)" for i
    using that by (simp add: lobby_onLeave_def)
  have len: "length (sv_engines ?sv) = length (sv_engines sv)" "length (sv_lobbies ?sv) = length (sv_lobbies sv)"
      "sv_caches ?sv = sv_caches sv" "sv_sockets ?sv = sv_sockets sv" "sv_joins ?sv = sv_joins sv"
    by (simp_all add: lobby_onLeave_def)
  have leave: "chan_ok (c\<lparr>ch_leave := True\<rparr>) \<longleftrightarrow> chan_ok c" for c
    by (simp add: chan_ok_defs has_user_def)
  have entry: "lobby_entry ?sv l' n = lobby_entry sv l' n" for l' n
    using l by (simp add: lobby_onLeave_def lobby_entry_def nth_list_update)
  have eng: "ch_subs (engine_of i ?sv) = ch_subs (engine_of i sv)" "lobby_of i ?sv = lobby_of i sv"
      "ch_name (engine_of i ?sv) = ch_name (engine_of i sv)" "ch_closed (engine_of i ?sv) = ch_closed (engine_of i sv)"
      "chan_ok (engine_of i ?sv) = chan_ok (engine_of i sv)" if "i < length (sv_engines sv)" for i
    using nth [OF that] by (auto simp: engine_of_def lobby_of_def leave split: prod.split)
  have "engines_ok ?sv" "lobbies_ok ?sv" "caches_ok ?sv"
    using ok eng by (auto simp: server_ok_def base_ok_def engines_ok_def lobbies_ok_def caches_ok_def len entry jc_get_def)
  moreover have "connected ?sv i u \<longleftrightarrow> connected sv i u" "subscribed ?sv i u \<longleftrightarrow> subscribed sv i u" for i u
    using eng by (auto simp: connected_def subscribed_def len)
  ultimately show ?thesis using ok by (simp add: server_ok_def base_ok_def)
qed

subsection \<open>The machine\<close>

datatype sv_op =
    Create_Channel pond_path
  | On_Leave nat
  | Connect string nat obj string
  | Disconnect nat
  | Ask_Join nat join_request event_params
  | Accept nat "obj option"
  | Decline nat "string option" "nat option"
  | Leave string nat
  | Engine_Op nat chan_op

fun sv_legal :: "sv_op \<Rightarrow> server \<Rightarrow> bool" where
  "sv_legal (Create_Channel p) sv = True"
| "sv_legal (On_Leave l) sv = (l < length (sv_lobbies sv))"
| "sv_legal (Connect u s a rid) sv = new_client u sv"
| "sv_legal (Disconnect k) sv = (jm_get (sv_sockets sv) (sc_client (sv_caches sv ! k)) = Some k)"
| "sv_legal (Ask_Join l req params) sv = (l < length (sv_lobbies sv) \<and> jr_cache req < length (sv_caches sv))"
| "sv_legal (Accept j a) sv = may_accept j sv"
| "sv_legal (Decline j m c) sv = (j < length (sv_joins sv))"
| "sv_legal (Leave ch k) sv = (jm_get (sv_sockets sv) (sc_client (sv_caches sv ! k)) = Some k)"
| "sv_legal (Engine_Op i op) sv = (i < length (sv_engines sv) \<and> \<not> is_add op \<and> chan_legal op (engine_of i sv))"

fun sv_exec :: "sv_op \<Rightarrow> server \<Rightarrow> server" where
  "sv_exec (Create_Channel p) sv = (case ep_createChannel p sv of Inl e \<Rightarrow> sv | Inr (l, sv') \<Rightarrow> sv')"
| "sv_exec (On_Leave l) sv = lobby_onLeave l sv"
| "sv_exec (Connect u s a rid) sv = snd (ep_manageSocket u s a rid (sv\<lparr>sv_open := s # sv_open sv\<rparr>))"
| "sv_exec (Disconnect k) sv = ep_handleSocketClose k
     (sv\<lparr>sv_open := filter (\<lambda>s. s \<noteq> sc_socket (sv_caches sv ! k)) (sv_open sv)\<rparr>)"
| "sv_exec (Ask_Join l req params) sv = snd (start_join l req params sv)"
| "sv_exec (Accept j a) sv = fst (jc_accept j a sv)"
| "sv_exec (Decline j m c) sv = fst (jc_decline j m c sv)"
| "sv_exec (Leave ch k) sv = fst (ep_leaveChannel ch k sv)"
| "sv_exec (Engine_Op i op) sv = fst (with_engine i (chan_exec op) sv)"

definition sv_step :: "server \<Rightarrow> sv_op \<Rightarrow> server" where
  "sv_step sv op = (if sv_legal op sv then sv_exec op sv else sv)"

lemma open_ok [simp]: "server_ok (sv\<lparr>sv_open := p\<rparr>) \<longleftrightarrow> server_ok sv"
  by (simp add: server_ok_def base_ok_def engines_ok_def lobbies_ok_def caches_ok_def
      subscribed_def connected_def engine_of_def lobby_of_def lobby_entry_def jc_get_def)

lemma sv_exec_ok: "server_ok sv \<Longrightarrow> sv_legal op sv \<Longrightarrow> server_ok (sv_exec op sv)"
proof (cases op)
  case (Create_Channel p)
  assume "server_ok sv"
  then show ?thesis
    using createChannel_ok by (auto simp: Create_Channel split: sum.split)
qed (simp_all add: onLeave_ok manageSocket_ok new_client_def handleSocketClose_ok startJoin_ok accept_ok
    decline_ok leave_ok engine_op_ok)

interpretation sv_run: invariant_machine sv_step server_ok
  by unfold_locales (simp add: sv_step_def sv_exec_ok)

lemma new_endpoint_ok: "server_ok (new_endpoint path backend limit random)"
  by (simp add: new_endpoint_def server_ok_def base_ok_def engines_ok_def lobbies_ok_def caches_ok_def
      subscribed_def)

end
