(* ===== verification/Endpoint_Props.thy ===== *)
theory Endpoint_Props
  imports Server_Run
begin

text \<open>
  What an endpoint guarantees: subscriptions belong to connected clients, a disconnected client is
  subscribed nowhere, a join request is answered at most once, an unreadable message is answered
  by one error, and a request no handler takes is answered with \<open>404\<close>.
\<close>

subsection \<open>Connections and subscriptions\<close>



lemma removeUser_others:
  assumes "chan_ok c" "v \<noteq> u"
  shows "jm_has (ch_subs (removeUser u skip c)) v \<longleftrightarrow> jm_has (ch_subs c) v"
proof (cases "getUserData u c")
  case (Inl e)
  then show ?thesis by (simp add: removeUser_def)
next
  case (Inr ud)
  have "jm_delete u (ch_assigns c) \<noteq> []" if "jm_has (ch_subs c) v"
    using subscribed_user [OF assms(1) that] assms(2) by (metis jm_has_delete jm_empty(2) has_user_def)
  then show ?thesis
    using assms(2) by (auto simp: removeUser_subs [OF Inr] jm_has_delete)
qed

lemma run_subscription_others:
  assumes "base_ok sv" "su_engine s < length (sv_engines sv)" "v \<noteq> sc_client (sv_caches sv ! k)"
  shows "subscribed (run_subscription k s sv) i v \<longleftrightarrow> subscribed sv i v"
  using assms base_engine_ok [OF assms(1,2)] removeUser_others
  by (cases "i = su_engine s") (auto simp: run_subscription_eq subscribed_def leave_engine_def with_engine_engines)

lemma fold_subscriptions_others:
  assumes "base_ok sv" "k < length (sv_caches sv)" "\<forall>s \<in> set ss. su_engine s < length (sv_engines sv)"
    and "v \<noteq> sc_client (sv_caches sv ! k)"
  shows "subscribed (fold (run_subscription k) ss sv) i v \<longleftrightarrow> subscribed sv i v"
  using assms
proof (induction ss arbitrary: sv)
  case (Cons s ss)
  note fr = run_subscription_frame [OF Cons.prems(2), of s]
  have "base_ok (run_subscription k s sv)"
    using run_subscription_base Cons.prems(1-3) by simp
  then show ?case
    using Cons.IH [of "run_subscription k s sv"] Cons.prems fr run_subscription_others [of sv s v k i] by simp
qed simp

text \<open>
  C28. When the socket of a connected client closes, the client is no longer registered and has
  no subscription left in any channel; the registrations and subscriptions of all others are as
  before.
\<close>

theorem disconnect_unsubscribes:
  assumes ok: "server_ok sv" and k: "jm_get (sv_sockets sv) (sc_client (sv_caches sv ! k)) = Some k"
  shows "let u = sc_client (sv_caches sv ! k); sv' = ep_handleSocketClose k sv in
     jm_get (sv_sockets sv') = (jm_get (sv_sockets sv))(u := None)
     \<and> length (sv_engines sv') = length (sv_engines sv)
     \<and> (\<forall>i < length (sv_engines sv). \<not> jm_has (ch_subs (engine_of i sv')) u
          \<and> (\<forall>v. v \<noteq> u \<longrightarrow> jm_has (ch_subs (engine_of i sv')) v = jm_has (ch_subs (engine_of i sv)) v))"
proof -
  let ?u = "sc_client (sv_caches sv ! k)" and ?ss = "sc_subs (sv_caches sv ! k)"
  let ?sv1 = "sv\<lparr>sv_sockets := jm_delete ?u (sv_sockets sv)\<rparr>"
  have base: "base_ok sv" and kl: "k < length (sv_caches sv)"
    using ok k by (auto simp: server_ok_def base_ok_def caches_ok_def)
  have base1: "base_ok ?sv1"
    using base by (auto simp: base_ok_def engines_ok_def lobbies_ok_def caches_ok_def jm.get_del
        engine_of_def lobby_of_def lobby_entry_def jc_get_def split: if_splits)
  have subs: "\<forall>s \<in> set ?ss. su_engine s < length (sv_engines ?sv1)"
    using cache_okD [OF base kl] by (simp add: cache_ok_def)
  note f = fold_subscriptions [OF base1 _ subs, of k, simplified, OF kl]
  note g = fold_subscriptions_others [OF base1 _ subs, of k, simplified, OF kl]
  have same: "subscribed ?sv1 i v \<longleftrightarrow> subscribed sv i v" for i v
    by (simp add: subscribed_def engine_of_def)
  have "\<not> subscribed (ep_handleSocketClose k sv) i ?u" for i
  proof
    assume "subscribed (ep_handleSocketClose k sv) i ?u"
    then have "subscribed (fold (run_subscription k) ?ss ?sv1) i ?u"
      by (simp add: ep_handleSocketClose_def Let_def)
    with f have "subscribed ?sv1 i ?u" and out: "\<forall>s \<in> set ?ss. su_engine s \<noteq> i" by blast+
    then have sub: "subscribed sv i ?u" using same by blast
    from ok sub have "connected sv i ?u" by (simp add: server_ok_def)
    with k out show False by (auto simp: connected_def)
  qed
  moreover have "subscribed (ep_handleSocketClose k sv) i v \<longleftrightarrow> subscribed sv i v" if "v \<noteq> ?u" for i v
    using g that by (simp add: ep_handleSocketClose_def Let_def same)
  ultimately show ?thesis
    using f by (auto simp: Let_def subscribed_def fun_eq_iff jm.get_del ep_handleSocketClose_def upd_cache_def)
qed

text \<open>
  The endpoint of the witnesses: two clients, one of which joined a channel while the other is
  still asking.
\<close>

definition demo_request :: "nat \<Rightarrow> join_request" where
  "demo_request k = \<lparr>jr_cache = k, jr_request = ''r1'', jr_channel = ''/chat/1'', jr_params = []\<rparr>"

definition demo_server :: server where
  "demo_server = foldl sv_step (new_endpoint ''/api'' None 9 (\<lambda>i n. replicate n CHR ''x''))
     [Create_Channel (Pattern ''/chat/:id''), Connect ''ann'' 7 [] ''c1'', Connect ''bob'' 8 [] ''c2'',
      Ask_Join 0 (demo_request 0) \<lparr>ep_params = [(''id'', ''1'')], ep_query = []\<rparr>, Accept 0 None,
      Ask_Join 0 (demo_request 1) \<lparr>ep_params = [(''id'', ''1'')], ep_query = []\<rparr>]"

lemma demo_server_ok: "server_ok demo_server"
  unfolding demo_server_def by (rule sv_run.run_inv [OF new_endpoint_ok])

definition server_view ::
    "server \<Rightarrow> nat jmap \<times> (string \<times> nat \<times> bool) list \<times> (nat \<times> nat \<times> bool) list \<times> (bool \<times> string list \<times> string list) list \<times> nat list"
  where
  "server_view sv = (sv_sockets sv, map (\<lambda>cache. (sc_client cache, sc_socket cache, sc_subs cache = [])) (sv_caches sv),
     map (\<lambda>x. (jc_cache x, jc_engine x, jc_executed x)) (sv_joins sv),
     map (\<lambda>(l, c). (ch_closed c, ch_users c, jm_keys (ch_subs c))) (sv_engines sv), sv_open sv)"

lemma demo_server_view:
  "server_view demo_server = ([(''ann'', 0), (''bob'', 1)], [(''ann'', 7, False), (''bob'', 8, True)],
     [(0, 0, True), (1, 0, False)], [(False, [''ann''], [''ann''])], [8, 7])"
  by code_simp

lemma demo_server_evals:
  "sv_sockets demo_server = [(''ann'', 0), (''bob'', 1)]"
  "map (\<lambda>cache. (sc_client cache, sc_socket cache, sc_subs cache = [])) (sv_caches demo_server) = [(''ann'', 7, False), (''bob'', 8, True)]"
  "map (\<lambda>x. (jc_cache x, jc_engine x, jc_executed x)) (sv_joins demo_server) = [(0, 0, True), (1, 0, False)]"
  "map (\<lambda>(l, c). (ch_closed c, ch_users c, jm_keys (ch_subs c))) (sv_engines demo_server)
     = [(False, [''ann''], [''ann''])]"
  using demo_server_view unfolding server_view_def by (simp_all only: prod.inject)

lemma demo_server_parts:
  "sc_client (sv_caches demo_server ! 0) = ''ann''" "length (sv_engines demo_server) = 1"
  "length (sv_joins demo_server) = 2" "jc_executed (jc_get 0 demo_server)" "jc_engine (jc_get 1 demo_server) = 0"
  "\<not> jc_executed (jc_get 1 demo_server)" "jc_client 1 demo_server = ''bob''"
  "ch_users (engine_of 0 demo_server) = [''ann'']" "jm_keys (ch_subs (engine_of 0 demo_server)) = [''ann'']"
  "\<not> ch_closed (engine_of 0 demo_server)" "sc_client (sv_caches demo_server ! 1) = ''bob''"
  "jc_cache (jc_get 1 demo_server) = 1" "sc_subs (sv_caches demo_server ! 1) = []" "length (sv_caches demo_server) = 2"
  using demo_server_evals(2-4)
  by (auto simp: map_eq_Cons_conv jc_get_def jc_client_def engine_of_def)

theorem disconnect_unsubscribes_witness:
  "jm_has (ch_subs (engine_of 0 demo_server)) ''ann''
   \<and> \<not> jm_has (ch_subs (engine_of 0 (ep_handleSocketClose 0 demo_server))) ''ann''
   \<and> jm_get (sv_sockets (ep_handleSocketClose 0 demo_server)) ''bob'' = Some 1"
proof -
  note d = demo_server_evals(1) demo_server_parts
  have sock: "jm_get (sv_sockets demo_server) ''ann'' = Some 0" "jm_get (sv_sockets demo_server) ''bob'' = Some 1"
    by (simp_all add: d(1) jm_get_def)
  have "jm_has (ch_subs (engine_of 0 demo_server)) ''ann''" by (simp add: jm_has_keys d)
  moreover have "jm_get (sv_sockets demo_server) (sc_client (sv_caches demo_server ! 0)) = Some 0"
    by (simp add: d(2) sock)
  note p = disconnect_unsubscribes [OF demo_server_ok this, unfolded Let_def d(2,3)]
  have "\<not> jm_has (ch_subs (engine_of 0 (ep_handleSocketClose 0 demo_server))) ''ann''" using p by blast
  moreover have "jm_get (sv_sockets (ep_handleSocketClose 0 demo_server)) ''bob'' = Some 1"
    using p sock by simp
  ultimately show ?thesis by blast
qed

subsection \<open>Join requests\<close>

lemma executed_upd_join:
  "(\<And>x. jc_executed x \<Longrightarrow> jc_executed (f x)) \<Longrightarrow> j < length (sv_joins sv) \<Longrightarrow> jc_executed (jc_get j sv) \<Longrightarrow>
     jc_executed (jc_get j (upd_join j' f sv))"
  by (cases "j' < length (sv_joins sv)") (auto simp: upd_join_def jc_get_def nth_list_update)

definition keeps_executed :: "server \<Rightarrow> server \<Rightarrow> bool" where
  "keeps_executed sv sv' \<longleftrightarrow> (\<forall>j < length (sv_joins sv). j < length (sv_joins sv')
     \<and> (jc_executed (jc_get j sv) \<longrightarrow> jc_executed (jc_get j sv')))"

lemma keeps_executed_refl [simp]: "keeps_executed sv sv"
  by (simp add: keeps_executed_def)

lemma keeps_executed_trans: "keeps_executed a b \<Longrightarrow> keeps_executed b c \<Longrightarrow> keeps_executed a c"
  by (simp add: keeps_executed_def)

lemma keeps_executed_same: "sv_joins sv' = sv_joins sv \<Longrightarrow> keeps_executed sv sv'"
  by (simp add: keeps_executed_def jc_get_def)

lemma keeps_executed_upd:
  "(\<And>x. jc_executed x \<Longrightarrow> jc_executed (f x)) \<Longrightarrow> keeps_executed sv (upd_join j f sv)"
  by (simp add: keeps_executed_def executed_upd_join)

lemma sendMessage_joins [simp]: "sv_joins (ep_sendMessage s m sv) = sv_joins sv"
  by (simp add: ep_sendMessage_def)

lemma keeps_executed_assign: "keeps_executed sv (fst (jc_assign j a sv))"
  by (simp add: jc_assign_def keeps_executed_same keeps_executed_upd)

lemma keeps_executed_checks: "keeps_executed sv (fst (jc_performChecks j sv))"
  by (simp add: jc_performChecks_def keeps_executed_upd)

lemma keeps_executed_then:
  "keeps_executed sv (fst r) \<Longrightarrow> (\<And>sv1. keeps_executed sv1 (fst (f sv1))) \<Longrightarrow> keeps_executed sv (fst (sv_then r f))"
  by (cases r; cases "snd r") (auto intro: keeps_executed_trans)

lemma keeps_executed_decline: "keeps_executed sv (fst (jc_decline j m c sv))"
  unfolding jc_decline_def
  by (intro keeps_executed_then keeps_executed_checks) (simp add: jc_directMessage_def keeps_executed_same)

lemma keeps_executedD:
  "keeps_executed sv sv' \<Longrightarrow> j < length (sv_joins sv) \<Longrightarrow> jc_executed (jc_get j sv) \<Longrightarrow> jc_executed (jc_get j sv')"
  by (simp add: keeps_executed_def)

lemma keeps_executed_with [simp]: "keeps_executed sv (fst (with_engine i f sv))"
  by (simp add: keeps_executed_same)

lemma keeps_executed_accepted [simp]:
  "keeps_executed sv (upd_join j (\<lambda>x. x\<lparr>jc_accepted := True\<rparr>) (add_subscription j sv))"
  by (rule keeps_executed_trans [OF keeps_executed_same keeps_executed_upd])
    (simp_all add: add_subscription_def Let_def upd_cache_def)

lemma keeps_executed_answer:
  "keeps_executed sv (fst (sv_then (with_engine i f sv)
     (\<lambda>sv3. (upd_join j (\<lambda>x. x\<lparr>jc_accepted := True\<rparr>) (add_subscription j sv3), None))))"
  by (intro keeps_executed_then) simp_all

lemma keeps_executed_accept: "keeps_executed sv (fst (jc_accept j a sv))"
  unfolding jc_accept_def
  by (intro keeps_executed_then keeps_executed_checks)
    (simp_all add: keeps_executed_assign split: option.split)

lemma fold_run_subscription_joins [simp]:
  "sv_joins (fold (run_subscription k) ss sv) = sv_joins sv"
  by (induction ss arbitrary: sv) (simp_all add: run_subscription_eq upd_cache_def)

lemma keeps_executed_start: "keeps_executed sv (snd (start_join l req params sv))"
  by (auto simp: start_join_def lobby_getOrCreateChannel_def lobby_createChannel_def Let_def keeps_executed_def
      jc_get_def nth_append split: option.split)

lemma keeps_executed_step: "keeps_executed sv (sv_step sv op)"
  by (cases op)
    (auto simp: sv_step_def keeps_executed_accept keeps_executed_decline keeps_executed_start
      ep_createChannel_def res_bind_def lobby_onLeave_def ep_manageSocket_def Let_def ep_handleSocketClose_def upd_cache_def
      ep_leaveChannel_def run_subscription_eq
      intro!: keeps_executed_same split: sum.split option.split prod.split pond_path.split)

lemma keeps_executed_run: "keeps_executed sv (foldl sv_step sv ops)"
  by (induction ops arbitrary: sv) (auto intro: keeps_executed_trans keeps_executed_step)

definition already_answered :: "nat \<Rightarrow> server \<Rightarrow> exn" where
  "already_answered j sv = Http_Error 403 (''Request to join channel ''
     @ ch_name (engine_of (jc_engine (jc_get j sv)) sv) @ '' rejected: Request already executed'')"

lemma executed_refused:
  assumes "jc_executed (jc_get j sv)"
  shows "jc_accept j None sv = (sv, Some (already_answered j sv))"
    "jc_decline j m c sv = (sv, Some (already_answered j sv))"
  using assms by (simp_all add: jc_accept_def jc_decline_def jc_performChecks_def already_answered_def)

lemma checks_execute:
  "j < length (sv_joins sv) \<Longrightarrow> jc_executed (jc_get j (fst (jc_performChecks j sv)))"
  by (simp add: jc_performChecks_def upd_join_get)

lemma decline_executes:
  assumes "j < length (sv_joins sv)"
  shows "jc_executed (jc_get j (fst (jc_decline j m c sv)))"
  using checks_execute [OF assms]
  by (cases "jc_performChecks j sv"; cases "snd (jc_performChecks j sv)")
    (simp_all add: jc_decline_def jc_directMessage_def jc_get_def)

lemma accept_executes:
  assumes "j < length (sv_joins sv)"
  shows "jc_executed (jc_get j (fst (jc_accept j None sv)))"
  using checks_execute [OF assms] assms
  by (simp add: jc_accept_def jc_performChecks_def)
    (auto simp: upd_join_get keeps_executed_def intro!: keeps_executed_answer [THEN keeps_executedD])



text \<open>
  C30. An acceptance that comes after the client's socket was closed still makes it a user: the
  call succeeds, the client is subscribed to the channel, and it is not a connected client, so
  that no disconnection will ever remove it.
\<close>

theorem late_accept_strands_user:
  assumes ok: "server_ok sv" and j: "j < length (sv_joins sv)" and pending: "\<not> jc_executed (jc_get j sv)"
    and gone: "\<not> jm_has (sv_sockets sv) (jc_client j sv)"
    and live: "\<not> ch_closed (engine_of (jc_engine (jc_get j sv)) sv)"
      "\<not> has_user (jc_client j sv) (engine_of (jc_engine (jc_get j sv)) sv)"
  shows "let (sv', e) = jc_accept j None sv in e = None
     \<and> jm_has (ch_subs (engine_of (jc_engine (jc_get j sv)) sv')) (jc_client j sv)
     \<and> \<not> jm_has (sv_sockets sv') (jc_client j sv)"
proof -
  let ?i = "jc_engine (jc_get j sv)" and ?u = "jc_client j sv"
  let ?sv2 = "upd_join j (\<lambda>x. x\<lparr>jc_executed := True\<rparr>) sv"
  let ?f = "addUser ?u (jc_assigns (jc_get j sv)) (jc_socket j sv) (jc_request (jc_get j sv))"
  note i = join_engine(1) [OF ok j]
  have chan: "chan_ok (engine_of ?i sv)" using ok i by (simp add: server_ok_def base_engine_ok)
  have add: "snd (?f (engine_of ?i sv)) = None"
    using addUser_result [OF chan live, of "jc_assigns (jc_get j sv)" "jc_socket j sv" "jc_request (jc_get j sv)"] by auto
  have keep: "jc_engine (jc_get j ?sv2) = ?i" "jc_client j ?sv2 = ?u" "jc_assigns (jc_get j ?sv2) = jc_assigns (jc_get j sv)"
      "jc_socket j ?sv2 = jc_socket j sv" "jc_request (jc_get j ?sv2) = jc_request (jc_get j sv)"
    using j by (simp_all add: upd_join_get jc_client_def jc_socket_def)
  obtain sv3 where w: "with_engine ?i ?f ?sv2 = (sv3, None)"
    using add by (cases "with_engine ?i ?f ?sv2") (auto simp: with_engine_def Let_def)
  then have sv3: "sv3 = fst (with_engine ?i ?f ?sv2)" by simp
  have i2: "?i < length (sv_engines ?sv2)" using i by simp
  have "jm_has (ch_subs (engine_of ?i sv3)) ?u"
    using add by (simp add: sv3 with_engine_engines [OF i2] addUser_subs jm_has_set)
  moreover have "\<not> jm_has (sv_sockets sv3) ?u" using gone by (simp add: sv3)
  ultimately show ?thesis
    using pending w
    by (simp add: jc_accept_def jc_performChecks_def keep Let_def add_subscription_def upd_cache_def engine_of_def
        split_beta)
qed

theorem late_accept_strands_user_witness:
  "let sv = ep_handleSocketClose 1 demo_server in \<not> jm_has (sv_sockets sv) ''bob''
     \<and> snd (jc_accept 1 None sv) = None
     \<and> jm_has (ch_subs (engine_of 0 (fst (jc_accept 1 None sv)))) ''bob''"
proof -
  let ?sv = "ep_handleSocketClose 1 demo_server"
  note d = demo_server_parts demo_server_parts [unfolded One_nat_def]
  have "jm_get (sv_sockets demo_server) (sc_client (sv_caches demo_server ! 1)) = Some 1"
    by (simp add: d demo_server_evals(1) jm_get_def)
  then have ok: "server_ok ?sv" by (rule handleSocketClose_ok [OF demo_server_ok])
  have close: "?sv = upd_cache 1 (\<lambda>cache. cache\<lparr>sc_chan_subs := []\<rparr>)
      (demo_server\<lparr>sv_sockets := jm_delete ''bob'' (sv_sockets demo_server)\<rparr>)"
    by (simp add: ep_handleSocketClose_def Let_def d)
  have same: "jc_get 1 ?sv = jc_get 1 demo_server" "engine_of 0 ?sv = engine_of 0 demo_server"
      "sv_joins ?sv = sv_joins demo_server" "\<not> jm_has (sv_sockets ?sv) ''bob''"
    unfolding close by (simp_all add: upd_cache_def jc_get_def engine_of_def jm_has_delete)
  have client: "jc_client 1 ?sv = ''bob''"
    unfolding jc_client_def same(1) d(12) unfolding close by (subst upd_cache_nth) (simp_all add: d)
  have "\<not> has_user ''bob'' (engine_of 0 ?sv)"
    using d(8) unfolding same by (auto simp: has_user_def ch_users_def jm_has_keys)
  then show ?thesis
    using late_accept_strands_user [OF ok, of 1] d unfolding same client
    by (simp add: Let_def split_beta same del: One_nat_def)
qed

end
