(* ===== verification/Message_Props.thy ===== *)
theory Message_Props
  imports Endpoint_Props
begin

text \<open>
  What a client's message is answered with when the endpoint cannot serve it: each refused
  message gives exactly one error event for the socket it came from, an event no handler takes
  gives one error for its sender, and a join handler that ends silently declines the request.
\<close>

subsection \<open>Refused messages\<close>

text \<open>
  The specification: the error a message is refused with. An oversized text, one that is not a
  JSON client message, and a leave or broadcast for a channel that cannot be found (or of which
  the client is no user) are \<open>INVALID_MESSAGE\<close>s from the endpoint; a join no pattern matches is a
  \<open>CHANNEL_NOT_FOUND\<close> for that channel and request.
\<close>

definition not_existing :: "string \<Rightarrow> exn" where
  "not_existing channel = Http_Error 404 (''GatewayEngine: Channel '' @ channel @ '' does not exist'')"

definition request_refusal :: "auth_handler list \<Rightarrow> nat \<Rightarrow> client_message \<Rightarrow> string \<Rightarrow> server \<Rightarrow> channel_event option" where
  "request_refusal auths k m uuid sv =
     (let invalid = (\<lambda>e. Some (ep_buildError e INVALID_MESSAGE SYSTEM_ENDPOINT uuid)) in
      case cm_action m of
        JOIN_CHANNEL \<Rightarrow>
          if \<forall>(path, handler) \<in> set auths. parseAddress path (cm_channel m) = Inr None
          then Some (ep_buildError (not_existing (cm_channel m)) CHANNEL_NOT_FOUND (cm_channel m) (cm_request m))
          else None
      | LEAVE_CHANNEL \<Rightarrow>
          (if jm_has (sc_chan_subs (sv_caches sv ! k)) (cm_channel m) then None
           else case ep_retrieveChannel (cm_channel m) sv of Inl e \<Rightarrow> invalid e | Inr i \<Rightarrow> None)
      | C_BROADCAST \<Rightarrow>
          (case ep_retrieveChannel (cm_channel m) sv of
             Inl e \<Rightarrow> invalid e
           | Inr i \<Rightarrow> if has_user (sc_client (sv_caches sv ! k)) (engine_of i sv) then None
               else invalid (Http_Error 404 (''ChannelEngine: User with id '' @ sc_client (sv_caches sv ! k) @
                 '' does not exist in channel '' @ ch_name (engine_of i sv)))))"

definition refusal ::
    "(string \<Rightarrow> json res) \<Rightarrow> auth_handler list \<Rightarrow> nat \<Rightarrow> string \<Rightarrow> string \<Rightarrow> server \<Rightarrow> channel_event option" where
  "refusal json_parse auths k message uuid sv =
     (if sv_max sv < js_length message then
        Some (ep_buildError (Http_Error 413 (''Message size '' @ nat_text (js_length message)
          @ '' exceeds maximum allowed size of '' @ nat_text (sv_max sv) @ '' bytes''))
          INVALID_MESSAGE SYSTEM_ENDPOINT uuid)
      else case res_bind (json_parse message) parse_client_message of
          Inl e \<Rightarrow> Some (ep_buildError e INVALID_MESSAGE SYSTEM_ENDPOINT uuid)
        | Inr m \<Rightarrow> request_refusal auths k m uuid sv)"

text \<open>A join no pattern matches runs through the whole chain.\<close>

lemma zip_upt_fst: "(x, l) \<in> set (zip xs [0..<n]) \<Longrightarrow> x \<in> set xs"
  by (meson in_set_zipE)

lemma join_unmatched:
  assumes "\<forall>(path, handler) \<in> set auths. parseAddress path (jr_channel req) = Inr None"
  shows "ep_joinChannel auths req sv =
    (\<lparr>mr_index = length auths, mr_tasks = [],
      mr_state = ep_sendMessage (sc_socket (sv_caches sv ! jr_cache req))
        (ep_buildError (not_existing (jr_channel req)) CHANNEL_NOT_FOUND (jr_channel req) (jr_request req)) sv,
      mr_called = [0..<length auths], mr_finals = [None]\<rparr>, None)"
proof -
  let ?stack = "map join_function (zip auths [0..<length auths])"
  have "\<forall>m \<in> set ?stack. m req () = pass_on"
    using assms zip_upt_fst by (fastforce simp: join_function_def split: prod.splits)
  then show ?thesis
    unfolding ep_joinChannel_def
    by (subst mw_run_exhausted) (auto simp: join_final_def Let_def not_existing_def)
qed

lemma start_run_state [simp]: "mr_state (start_run sv) = sv" "mr_tasks (start_run sv) = []"
  by (simp_all add: start_run_def)

lemma request_refused:
  assumes "request_refusal auths k m uuid sv = Some ev"
  obtains r e where "ep_handleMessage auths events k m sv = (r, e)" "mr_tasks r = []"
    "e = None \<Longrightarrow> mr_state r = ep_sendMessage (sc_socket (sv_caches sv ! k)) ev sv"
    "\<And>x. e = Some x \<Longrightarrow> mr_state r = sv \<and> ev = ep_buildError x INVALID_MESSAGE SYSTEM_ENDPOINT uuid"
proof (cases "cm_action m")
  case JOIN_CHANNEL
  then show ?thesis
    using assms that join_unmatched [of auths "\<lparr>jr_cache = k, jr_request = cm_request m,
          jr_channel = cm_channel m, jr_params = cm_payload m\<rparr>" sv]
    by (auto simp: request_refusal_def ep_handleMessage_def Let_def split: if_splits)
next
  case LEAVE_CHANNEL
  then show ?thesis
    using assms that
    by (auto simp: request_refusal_def ep_handleMessage_def Let_def ep_leaveChannel_def jm_has_get
        split: if_splits option.splits sum.splits)
next
  case C_BROADCAST
  then show ?thesis
    using assms that
    by (auto simp: request_refusal_def ep_handleMessage_def Let_def ep_broadcastMessage_def broadcastMessage_def
        split: if_splits sum.splits)
qed

text \<open>
  C31. A message that is refused gives exactly one event, the error of the specification, to the
  socket it came from if that is still open; it starts nothing and changes nothing else.
\<close>

theorem refused_message_answered:
  assumes "refusal json_parse auths k message uuid sv = Some ev"
  shows "let r = ep_readMessage json_parse auths events uuid k message sv; socket = sc_socket (sv_caches sv ! k) in
     mr_tasks r = []
     \<and> mr_state r = (if socket \<in> set (sv_open sv) then sv\<lparr>sv_sent := sv_sent sv @ [(socket, ev)]\<rparr> else sv)"
proof -
  let ?r = "ep_readMessage json_parse auths events uuid k message sv"
  have "mr_tasks ?r = [] \<and> mr_state ?r = ep_sendMessage (sc_socket (sv_caches sv ! k)) ev sv"
  proof (cases "sv_max sv < js_length message")
    case True
    then show ?thesis using assms by (simp add: refusal_def ep_readMessage_def Let_def)
  next
    case False
    show ?thesis
    proof (cases "res_bind (json_parse message) parse_client_message")
      case (Inl e)
      with False show ?thesis using assms by (simp add: refusal_def ep_readMessage_def Let_def)
    next
      case (Inr m)
      with False assms have "request_refusal auths k m uuid sv = Some ev" by (simp add: refusal_def)
      then obtain r e where "ep_handleMessage auths events k m sv = (r, e)" "mr_tasks r = []"
          "e = None \<Longrightarrow> mr_state r = ep_sendMessage (sc_socket (sv_caches sv ! k)) ev sv"
          "\<And>x. e = Some x \<Longrightarrow> mr_state r = sv \<and> ev = ep_buildError x INVALID_MESSAGE SYSTEM_ENDPOINT uuid"
        using request_refused [of auths k m uuid sv ev events] by blast
      with False Inr show ?thesis
        by (cases e) (simp_all add: ep_readMessage_def Let_def)
    qed
  qed
  then show ?thesis by (simp add: Let_def ep_sendMessage_def)
qed

theorem refused_message_answered_witness:
  "mr_state (ep_readMessage (\<lambda>s. Inl (Plain_Error ''bad'')) [] [] ''u'' 0 ''not json'' demo_server) =
     demo_server\<lparr>sv_sent := sv_sent demo_server @
       [(7, ep_buildError (Plain_Error ''bad'') INVALID_MESSAGE SYSTEM_ENDPOINT ''u'')]\<rparr>"
proof -
  have "sv_max demo_server = 9 \<and> sv_open demo_server = [8, 7]" by code_simp
  moreover have "js_length ''not json'' = 8" by code_simp
  moreover have "sc_socket (sv_caches demo_server ! 0) = 7"
    using demo_server_evals(2) by (auto simp: map_eq_Cons_conv)
  ultimately show ?thesis
    using refused_message_answered [of "\<lambda>s. Inl (Plain_Error ''bad'')" "[]" 0 "''not json''" "''u''" demo_server
        "ep_buildError (Plain_Error ''bad'') INVALID_MESSAGE SYSTEM_ENDPOINT ''u''" "[]"]
    by (simp add: refusal_def res_bind_def Let_def)
qed

subsection \<open>Events no handler takes\<close>

text \<open>
  A user's event that no handler of the lobby matches is answered with \<open>HANDLER_NOT_FOUND\<close>
  (code 500) for its sender alone, under its request id: the error goes out once to the sender's
  subscription, to nobody else, and no handler is left suspended.
\<close>

theorem unhandled_event_answered:
  assumes ok: "server_ok sv" and i: "i < length (sv_engines sv)" and user: "has_user u (engine_of i sv)"
    and unmatched: "\<forall>(path, handler) \<in> set handlers. parseAddress path (cm_event m) = Inr None"
  shows "\<exists>r es. broadcastMessage handlers i u m sv = (r, None) \<and> mr_tasks r = []
     \<and> engine_of i (mr_state r) = emit es (engine_of i sv)
     \<and> (\<forall>v. filter (delivered_to v) es =
          (if v = u \<and> jm_has (ch_subs (engine_of i sv)) u
           then [Start_Outgoing (connection_of (engine_of i sv) u) u
             (event_of A_ERROR (error_type_str HANDLER_NOT_FOUND) (unhandled None) (cm_request m) (engine_of i sv))]
           else []))"
proof -
  let ?c = "engine_of i sv"
  let ?send = "sendMessage SYSTEM_CHANNEL (Users [u]) A_ERROR (error_type_str HANDLER_NOT_FOUND)
       (unhandled None) (cm_request m)"
  obtain c' where sent: "?send ?c = (c', None)"
    using user by (auto simp: sendMessage_def getUsersFromRecipients_def ch_users_def has_user_def jm_has_keys)
  then obtain rs where rs: "getUsersFromRecipients (Users [u]) SYSTEM_CHANNEL ?c = Inr rs"
      and c': "c' = emit (deliveries (user_event A_ERROR (error_type_str HANDLER_NOT_FOUND) (unhandled None) (cm_request m) rs ?c) ?c
        @ to_nodes (USER_MESSAGE SYSTEM_CHANNEL (error_type_str HANDLER_NOT_FOUND) (unhandled None) (cm_request m) (Users [u])) ?c) ?c"
    by (rule sendMessage_Inr)
  let ?es = "deliveries (user_event A_ERROR (error_type_str HANDLER_NOT_FOUND) (unhandled None) (cm_request m) rs ?c) ?c
        @ to_nodes (USER_MESSAGE SYSTEM_CHANNEL (error_type_str HANDLER_NOT_FOUND) (unhandled None) (cm_request m) (Users [u])) ?c"
  have chan: "chan_ok ?c" using ok i by (simp add: server_ok_def base_engine_ok)
  have members: "v \<in> set rs \<longleftrightarrow> v = u" for v
    using recipients_addressed [OF rs, of v] user by auto
  have final: "broadcast_final i u m None sv = (fst (with_engine i ?send sv), None)"
    using sent by (simp add: broadcast_final_def with_engine_def Let_def)
  have pass: "\<forall>h \<in> set (map event_function handlers). h (u, m) i = pass_on"
    using unmatched by (fastforce simp: event_function_def split: prod.splits)
  have run: "broadcastMessage handlers i u m sv =
      (\<lparr>mr_index = length handlers, mr_tasks = [], mr_state = fst (with_engine i ?send sv),
        mr_called = [0..<length handlers], mr_finals = [None]\<rparr>, None)"
    using user mw_run_exhausted [where final = "broadcast_final i u m" and st = sv, OF pass final]
    by (simp add: broadcastMessage_def)
  have eng: "engine_of i (fst (with_engine i ?send sv)) = emit ?es ?c"
    by (simp only: with_engine_engines(1) [OF i] sent c' fst_conv)
  show ?thesis
    using run eng chan members
    by (intro exI [of _ "fst (broadcastMessage handlers i u m sv)"] exI [of _ ?es]) (simp add: delivered_once)
qed

theorem unhandled_event_answered_witness:
  "snd (broadcastMessage [] 0 ''ann''
     \<lparr>cm_action = C_BROADCAST, cm_event = ''hi'', cm_channel = ''/chat/1'', cm_request = ''r'', cm_payload = []\<rparr>
     demo_server) = None"
proof -
  have "has_user ''ann'' (engine_of 0 demo_server)"
    using demo_server_parts(8) by (simp add: has_user_def ch_users_def jm_has_keys)
  then show ?thesis
    using unhandled_event_answered [OF demo_server_ok, of 0 "''ann''" "[]"
        "\<lparr>cm_action = C_BROADCAST, cm_event = ''hi'', cm_channel = ''/chat/1'', cm_request = ''r'', cm_payload = []\<rparr>"]
      demo_server_parts(2)
    by auto
qed

subsection \<open>Join handlers that end silently\<close>

definition join_stack :: "auth_handler list \<Rightarrow> join_request \<Rightarrow> server mw_prog list" where
  "join_stack auths req = map (\<lambda>m. m req ()) (map join_function (zip auths [0..<length auths]))"

lemma start_join_facts:
  assumes ok: "server_ok sv" and l: "l < length (sv_lobbies sv)" and st: "start_join l req params sv = (j, sv')"
  shows "jc_get j sv' = new_join req params (jc_engine (jc_get j sv')) sv" "j < length (sv_joins sv')"
    "sv_open sv' = sv_open sv" "sv_sent sv' = sv_sent sv" "sv_caches sv' = sv_caches sv"
    "ch_name (engine_of (jc_engine (jc_get j sv')) sv') = jr_channel req"
proof -
  obtain i sv1 where g: "lobby_getOrCreateChannel l (jr_channel req) sv = (i, sv1)" by force
  note caches = getOrCreate_server_ok(3) [OF ok l g]
  have sv': "sv' = sv1\<lparr>sv_joins := sv_joins sv1 @ [new_join req params i sv1]\<rparr>" "j = length (sv_joins sv1)"
    using st by (auto simp: start_join_def g)
  have get: "jc_get j sv' = new_join req params i sv1" by (simp add: sv' jc_get_def)
  then show "jc_get j sv' = new_join req params (jc_engine (jc_get j sv')) sv"
    by (simp add: new_join_def caches)
  show "j < length (sv_joins sv')" by (simp add: sv')
  show "sv_caches sv' = sv_caches sv" by (simp add: sv' caches)
  show "sv_open sv' = sv_open sv" "sv_sent sv' = sv_sent sv"
    using g by (auto simp: sv' lobby_getOrCreateChannel_def lobby_createChannel_def Let_def split: option.splits)
  have "ch_name (engine_of i sv1) = jr_channel req"
  proof (cases "jm_get (lb_channels (sv_lobbies sv ! l)) (jr_channel req)")
    case None
    then show ?thesis
      using g by (auto simp: lobby_getOrCreateChannel_def lobby_createChannel_def Let_def engine_of_def new_channel_def)
  next
    case (Some n)
    with ok l have "ch_name (engine_of n sv) = jr_channel req"
      by (auto simp: server_ok_def base_ok_def lobbies_ok_def lobby_entry_def)
    with Some g show ?thesis by (simp add: lobby_getOrCreateChannel_def)
  qed
  then show "ch_name (engine_of (jc_engine (jc_get j sv')) sv') = jr_channel req"
    by (simp add: get new_join_def) (simp add: sv' engine_of_def)
qed

text \<open>The chain of join handlers around one of them.\<close>

lemma join_functions_split:
  "map join_function (zip (pre @ h # post) [0..<length (pre @ h # post)]) = map join_function (zip pre [0..<length pre])
     @ join_function (h, length pre) # map join_function (zip post [Suc (length pre)..<length (pre @ h # post)])"
proof -
  have "[0..<length (pre @ h # post)] = [0..<length pre] @ length pre # [Suc (length pre)..<length (pre @ h # post)]"
    by (metis upt_conv_Cons upt_add_eq_append zero_le le_add_same_cancel1 length_append length_Cons
        less_add_same_cancel1 zero_less_Suc add_0)
  then show ?thesis by simp
qed

lemma unanswered_declines:
  assumes "j < length (sv_joins sv)" "\<not> jc_delegated (jc_get j sv)" "\<not> jc_executed (jc_get j sv)"
    and "jc_socket j sv \<in> set (sv_open sv)" "mr_state r = sv"
  shows "\<exists>sv'. exec_prog nxt (unanswered j) r = (r\<lparr>mr_state := sv'\<rparr>, None)
     \<and> sv_sent sv' = sv_sent sv @ [(jc_socket j sv,
         \<lparr>ce_action = A_ERROR, ce_event = error_type_str UNAUTHORIZED_JOIN_REQUEST,
          ce_channel = ch_name (engine_of (jc_engine (jc_get j sv)) sv), ce_request = jc_request (jc_get j sv),
          ce_payload = decline_payload (Some ''Join handler completed without accepting or declining the request'')
            (Some 500)\<rparr>)]
     \<and> jc_executed (jc_get j sv')"
proof -
  let ?d = "jc_decline j (Some ''Join handler completed without accepting or declining the request'') (Some 500) sv"
  let ?sv1 = "upd_join j (\<lambda>x. x\<lparr>jc_executed := True\<rparr>) sv"
  have get: "jc_get j ?sv1 = (jc_get j sv)\<lparr>jc_executed := True\<rparr>" using assms(1) by (simp add: upd_join_get)
  have sock: "jc_socket j ?sv1 = jc_socket j sv" by (simp add: jc_socket_def get)
  have opened: "sv_open ?sv1 = sv_open sv" "sv_sent ?sv1 = sv_sent sv" by (simp_all add: upd_join_def)
  have d: "snd ?d = None" "jc_executed (jc_get j (fst ?d))"
    "sv_sent (fst ?d) = sv_sent sv @ [(jc_socket j sv,
         \<lparr>ce_action = A_ERROR, ce_event = error_type_str UNAUTHORIZED_JOIN_REQUEST,
          ce_channel = ch_name (engine_of (jc_engine (jc_get j sv)) sv), ce_request = jc_request (jc_get j sv),
          ce_payload = decline_payload (Some ''Join handler completed without accepting or declining the request'')
            (Some 500)\<rparr>)]"
    using assms(3,4)
    by (simp_all add: jc_decline_def jc_performChecks_def jc_directMessage_def ep_sendMessage_def get sock opened)
      (simp add: jc_get_def get [unfolded jc_get_def])
  then obtain sv' where "?d = (sv', None)" by (cases ?d) auto
  with d assms(2,3,5) show ?thesis
    by (intro exI [of _ sv']) (simp add: unanswered_def)
qed

text \<open>
  A join handler that ends without accepting, declining or passing the request on does not
  leave the client waiting: when its promise is resolved the request is declined with code 500
  on the client's socket, and no handler behind it runs.
\<close>

theorem silent_join_declined:
  assumes ok: "server_ok sv" and l: "length pre < length (sv_lobbies sv)"
    and pre: "\<forall>(path, handler) \<in> set pre. parseAddress path (jr_channel req) = Inr None"
    and match: "parseAddress path (jr_channel req) = Inr (Some params)"
    and silent: "\<And>j. handler j = Done"
    and socket: "sc_socket (sv_caches sv ! jr_cache req) \<in> set (sv_open sv)"
  shows "let auths = pre @ (path, handler) # post; (r, e) = ep_joinChannel auths req sv;
       r' = mw_resume (join_stack auths req) (join_final req) r (Resume 0) in
     e = None \<and> mr_tasks r' = [] \<and> mr_finals r' = [] \<and> mr_called r' = [0..<Suc (length pre)]
     \<and> sv_sent (mr_state r') = sv_sent sv @ [(sc_socket (sv_caches sv ! jr_cache req),
         \<lparr>ce_action = A_ERROR, ce_event = error_type_str UNAUTHORIZED_JOIN_REQUEST,
          ce_channel = jr_channel req, ce_request = jr_request req,
          ce_payload = decline_payload (Some ''Join handler completed without accepting or declining the request'')
            (Some 500)\<rparr>)]"
proof -
  let ?auths = "pre @ (path, handler) # post"
  let ?zip = "zip ?auths [0..<length ?auths]"
  obtain j sv1 where st: "start_join (length pre) req params sv = (j, sv1)" by force
  note f = start_join_facts [OF ok l st]
  note split = join_functions_split [of pre "(path, handler)" post]
  have pass: "\<forall>m \<in> set (map join_function (zip pre [0..<length pre])). m req () = pass_on"
    using pre zip_upt_fst by (fastforce simp: join_function_def split: prod.splits)
  let ?r = "\<lparr>mr_index = Suc (length pre), mr_tasks = [Suspended (unanswered j)], mr_state = sv1,
      mr_called = [0..<Suc (length pre)], mr_finals = []\<rparr>"
  have fn: "join_function ((path, handler), length pre) req () = Act (\<lambda>sv.
      let (j, sv1) = start_join (length pre) req params sv in (sv1, Await (unanswered j)))"
    by (simp add: join_function_def match silent guard_handler_def)
  let ?before = "map join_function (zip pre [0..<length pre])"
  have run: "ep_joinChannel ?auths req sv = (?r, None)"
  proof -
    have "mw_run (?before @ join_function ((path, handler), length pre)
        # map join_function (zip post [Suc (length pre)..<length ?auths])) req () (join_final req) sv
      = (?r\<lparr>mr_index := Suc (length ?before), mr_called := [0..<Suc (length ?before)]\<rparr>, None)"
    proof (subst mw_run_suspended)
      show "(\<lambda>sv. let (j, sv1) = start_join (length pre) req params sv in (sv1, Await (unanswered j))) sv
          = (sv1, Await (unanswered j))"
        by (simp add: st)
    qed (use pass fn in simp_all)
    then show ?thesis unfolding ep_joinChannel_def split by simp
  qed
  have sock: "jc_socket j sv1 = sc_socket (sv_caches sv ! jr_cache req)"
    by (simp add: jc_socket_def f(5), subst f(1)) (simp add: new_join_def)
  have fresh: "\<not> jc_delegated (jc_get j sv1)" "\<not> jc_executed (jc_get j sv1)" "jc_request (jc_get j sv1) = jr_request req"
    by (subst f(1), simp add: new_join_def)+
  obtain sv' where ran: "exec_prog (next_of (join_stack ?auths req) (join_final req)) (unanswered j) (?r\<lparr>mr_tasks := []\<rparr>)
        = (?r\<lparr>mr_tasks := [], mr_state := sv'\<rparr>, None)"
      and sent: "sv_sent sv' = sv_sent sv1 @ [(jc_socket j sv1,
         \<lparr>ce_action = A_ERROR, ce_event = error_type_str UNAUTHORIZED_JOIN_REQUEST,
          ce_channel = ch_name (engine_of (jc_engine (jc_get j sv1)) sv1), ce_request = jc_request (jc_get j sv1),
          ce_payload = decline_payload (Some ''Join handler completed without accepting or declining the request'')
            (Some 500)\<rparr>)]"
    using unanswered_declines [OF f(2) fresh(1,2), of "?r\<lparr>mr_tasks := []\<rparr>"
        "next_of (join_stack ?auths req) (join_final req)"] socket
    by (auto simp: sock f(3))
  then have "mw_resume (join_stack ?auths req) (join_final req) ?r (Resume 0) = ?r\<lparr>mr_tasks := [], mr_state := sv'\<rparr>"
    by (simp add: mw_resume_def)
  then show ?thesis
    using run sent by (simp add: Let_def sock fresh f(4,6))
qed

theorem silent_join_declined_witness:
  "let auths = [(Pattern ''/chat/:id'', \<lambda>j. Done)]; (r, e) = ep_joinChannel auths (demo_request 1) demo_server;
     r' = mw_resume (join_stack auths (demo_request 1)) (join_final (demo_request 1)) r (Resume 0) in
   e = None \<and> map fst (sv_sent (mr_state r')) = map fst (sv_sent demo_server) @ [8]"
proof -
  have "parseAddress (Pattern ''/chat/:id'') ''/chat/1''
      = Inr (Some \<lparr>ep_params = [(''id'', ''1'')], ep_query = []\<rparr>)" by code_simp
  then have "parseAddress (Pattern ''/chat/:id'') (jr_channel (demo_request 1))
      = Inr (Some \<lparr>ep_params = [(''id'', ''1'')], ep_query = []\<rparr>)" by (simp add: demo_request_def)
  moreover have "length (sv_lobbies demo_server) = 1" by code_simp
  moreover have "sc_socket (sv_caches demo_server ! jr_cache (demo_request 1)) = 8"
    using demo_server_evals(2) by (auto simp: map_eq_Cons_conv demo_request_def)
  moreover have "sv_open demo_server = [8, 7]"
    using demo_server_view by (simp add: server_view_def)
  ultimately show ?thesis
    using silent_join_declined [OF demo_server_ok, of "[]" "demo_request 1" "Pattern ''/chat/:id''"
        "\<lparr>ep_params = [(''id'', ''1'')], ep_query = []\<rparr>" "\<lambda>j. Done" "[]"]
    by (simp add: Let_def split_beta)
qed

end
