(* ===== verification/Client_Channel_Props.thy ===== *)
theory Client_Channel_Props
  imports Client_Channel
begin

text \<open>
  What a channel of the client guarantees: the states its listeners see follow the life cycle,
  its queue is a bounded queue that is sent in order when the channel is joined, and what
  becomes of the responses that are waited for.
\<close>

subsection \<open>The life of a channel\<close>

datatype cc_op =
    C_Join conn_state
  | C_Wait conn_state
  | C_State conn_state
  | C_Acknowledge conn_state string
  | C_Decline client_error string
  | C_Join_Timeout
  | C_Leave
  | C_Send string obj obj
  | C_Ask string obj obj
  | C_Response_Timeout string nat string
  | C_Receive channel_event

fun cc_exec :: "cchan \<Rightarrow> cc_op \<Rightarrow> cchan" where
  "cc_exec c (C_Join conn) = cc_join conn c"
| "cc_exec c (C_Wait conn) = (if cc_wait c then cc_on_wait conn c else c)"
| "cc_exec c (C_State conn) = cc_on_state conn c"
| "cc_exec c (C_Acknowledge conn rid) = fst (cc_acknowledge conn rid c)"
| "cc_exec c (C_Decline e rid) = cc_decline e rid c"
| "cc_exec c C_Join_Timeout = cc_join_timeout c"
| "cc_exec c C_Leave = cc_leave c"
| "cc_exec c (C_Send event payload params) = fst (cc_sendMessage event payload params c)"
| "cc_exec c (C_Ask event payload params) = cc_sendForResponse event payload params c"
| "cc_exec c (C_Response_Timeout event ms rid) = cc_response_timeout event ms rid c"
| "cc_exec c (C_Receive data) = cc_receive data c"

text \<open>The life cycle.\<close>

inductive cc_moves :: "channel_state \<Rightarrow> channel_state \<Rightarrow> bool" where
  ask: "s \<in> {IDLE, STALLED, DECLINED} \<Longrightarrow> cc_moves s JOINING"
| accepted: "s \<in> {JOINING, STALLED} \<Longrightarrow> cc_moves s JOINED"
| declined: "s \<in> {JOINING, STALLED} \<Longrightarrow> cc_moves s DECLINED"
| lost: "cc_moves JOINED STALLED"
| left: "s \<noteq> CLOSED \<Longrightarrow> cc_moves s CLOSED"

inductive_simps moves_iff: "cc_moves s t"

definition state_trace :: "cc_eff list \<Rightarrow> channel_state list" where
  "state_trace es = concat (map (\<lambda>e. case e of State_Change s \<Rightarrow> [s] | _ \<Rightarrow> []) es)"

lemma state_trace_append [simp]: "state_trace (es @ fs) = state_trace es @ state_trace fs"
  by (simp add: state_trace_def)

lemma state_trace_simps [simp]:
  "state_trace [] = []" "state_trace (State_Change s # es) = s # state_trace es"
  "state_trace (Publish m # es) = state_trace es" "state_trace (Error_Event e # es) = state_trace es"
  "state_trace (Deliver d # es) = state_trace es" "state_trace (Fulfil r p # es) = state_trace es"
  "state_trace (Fail r msg # es) = state_trace es" "state_trace (Watch n # es) = state_trace es"
  "state_trace (Unwatch n # es) = state_trace es" "state_trace (Wait_Connected # es) = state_trace es"
  "state_trace (Unwait # es) = state_trace es" "state_trace (map Publish ms) = []"
  by (auto simp: state_trace_def)

definition trace_ok :: "cchan \<Rightarrow> bool" where
  "trace_ok c \<longleftrightarrow> successively cc_moves (IDLE # state_trace (cc_log c))
     \<and> (\<not> cc_closed c \<longrightarrow> last (IDLE # state_trace (cc_log c)) = cc_state c)"

definition fields_ok :: "cchan \<Rightarrow> bool" where
  "fields_ok c \<longleftrightarrow> cc_timer c = cc_pending c \<and> (cc_pending c \<noteq> None \<longrightarrow> cc_state c \<in> {JOINING, STALLED})
     \<and> (cc_state c \<in> {DECLINED, CLOSED} \<longrightarrow> cc_queue c = []) \<and> (cc_state c = JOINED \<longrightarrow> cc_closed c \<or> cc_queue c = [])
     \<and> (cc_state c = CLOSED \<longrightarrow> cc_closed c) \<and> length (cc_queue c) \<le> max 1 (cc_max c)
     \<and> (cc_closed c \<longrightarrow> cc_live c = None)"

definition cchan_ok :: "cchan \<Rightarrow> bool" where
  "cchan_ok c \<longleftrightarrow> trace_ok c \<and> fields_ok c"

lemma trace_okI:
  assumes "trace_ok c" "cc_closed d = cc_closed c" "state_trace (cc_log d) = state_trace (cc_log c)"
    "cc_state d = cc_state c"
  shows "trace_ok d"
  using assms by (simp add: trace_ok_def)

lemma trace_ok_move:
  assumes "trace_ok c" "\<not> cc_closed c \<Longrightarrow> cc_moves (cc_state c) s" "cc_closed d = cc_closed c"
    and "state_trace (cc_log d) = state_trace (cc_log c) @ (if cc_closed c then [] else [s])" "cc_state d = s"
  shows "trace_ok d"
proof (cases "cc_closed c")
  case True
  then show ?thesis using assms by (simp add: trace_ok_def)
next
  case False
  let ?t = "IDLE # state_trace (cc_log c)"
  have "successively cc_moves (?t @ [s])"
    using assms(1,2) False unfolding trace_ok_def successively_append_iff by simp
  then show ?thesis using assms False by (simp add: trace_ok_def)
qed

lemmas cc_frame = cc_emit_def cc_draw_def cc_set_state_def cc_publish_error_def cc_clearJoinTimeout_def

lemma new_cchan_ok: "cchan_ok (new_cchan name params n ms random)"
  by (simp add: cchan_ok_def trace_ok_def fields_ok_def new_cchan_def)

lemma request_trace:
  "trace_ok c \<Longrightarrow> trace_ok (sendJoinRequest c)"
  by (erule trace_okI) (simp_all add: sendJoinRequest_def Let_def cc_frame)

lemma request_fields:
  "fields_ok c \<Longrightarrow> cc_state c \<in> {JOINING, STALLED} \<Longrightarrow> fields_ok (sendJoinRequest c)"
  by (auto simp: sendJoinRequest_def Let_def cc_frame fields_ok_def)

lemma set_state_trace:
  "trace_ok c \<Longrightarrow> (\<not> cc_closed c \<Longrightarrow> cc_moves (cc_state c) s) \<Longrightarrow> trace_ok (cc_set_state s c)"
  by (erule trace_ok_move) (simp_all add: cc_frame)

lemma frame_ok [simp]:
  "cchan_ok (cc_draw c) \<longleftrightarrow> cchan_ok c" "cchan_ok (c\<lparr>cc_responses := rs\<rparr>) \<longleftrightarrow> cchan_ok c"
  "cchan_ok (c\<lparr>cc_wait := w\<rparr>) \<longleftrightarrow> cchan_ok c" "cchan_ok (c\<lparr>cc_presence := p\<rparr>) \<longleftrightarrow> cchan_ok c"
  "cchan_ok (c\<lparr>cc_last_error := le\<rparr>) \<longleftrightarrow> cchan_ok c" "cchan_ok (c\<lparr>cc_inits := n\<rparr>) \<longleftrightarrow> cchan_ok c"
  by (simp_all add: cchan_ok_def trace_ok_def fields_ok_def cc_draw_def)

lemma cc_emit_ok [simp]: "state_trace es = [] \<Longrightarrow> cchan_ok (cc_emit es c) \<longleftrightarrow> cchan_ok c"
  by (simp add: cchan_ok_def trace_ok_def fields_ok_def cc_emit_def)

lemma emit_fields [simp]:
  "cc_state (cc_emit es c) = cc_state c" "cc_closed (cc_emit es c) = cc_closed c" "cc_queue (cc_emit es c) = cc_queue c"
  "cc_wait (cc_emit es c) = cc_wait c" "cc_live (cc_emit es c) = cc_live c" "cc_max (cc_emit es c) = cc_max c"
  "cc_log (cc_emit es c) = cc_log c @ es" "cc_responses (cc_emit es c) = cc_responses c"
  "cc_pending (cc_emit es c) = cc_pending c" "cc_timer (cc_emit es c) = cc_timer c"
  "cc_inits (cc_emit es c) = cc_inits c"
  by (simp_all add: cc_emit_def)

lemma set_state_fields [simp]:
  "cc_state (cc_set_state s c) = s" "cc_closed (cc_set_state s c) = cc_closed c" "cc_queue (cc_set_state s c) = cc_queue c"
  "cc_wait (cc_set_state s c) = cc_wait c" "cc_live (cc_set_state s c) = cc_live c" "cc_max (cc_set_state s c) = cc_max c"
  "cc_pending (cc_set_state s c) = cc_pending c" "cc_timer (cc_set_state s c) = cc_timer c"
  by (simp_all add: cc_set_state_def)

lemma presenceSub_fields [simp]:
  "cc_state (cc_presenceSub c) = cc_state c" "cc_closed (cc_presenceSub c) = cc_closed c"
  "cc_queue (cc_presenceSub c) = cc_queue c" "cc_live (cc_presenceSub c) = None" "cc_max (cc_presenceSub c) = cc_max c"
  "cc_pending (cc_presenceSub c) = cc_pending c" "cc_timer (cc_presenceSub c) = cc_timer c"
  "state_trace (cc_log (cc_presenceSub c)) = state_trace (cc_log c)" "cc_inits (cc_presenceSub c) = cc_inits c"
  by (auto simp: cc_presenceSub_def split: option.split)

lemma join_ok: "cchan_ok c \<Longrightarrow> cchan_ok (cc_join conn c)"
proof (cases "cc_state c \<in> {JOINED, JOINING}")
  case False
  let ?c = "cc_set_state JOINING (c\<lparr>cc_last_error := None\<rparr>)"
  assume ok: "cchan_ok c"
  have "trace_ok (c\<lparr>cc_last_error := None\<rparr>)" using ok by (auto simp: cchan_ok_def intro: trace_okI)
  then have "trace_ok ?c"
    using ok False by (intro set_state_trace) (cases "cc_state c"; auto simp: cchan_ok_def fields_ok_def moves_iff)+
  moreover have "fields_ok ?c"
    using ok False by (cases "cc_state c") (auto simp: cchan_ok_def fields_ok_def cc_frame)
  moreover have "cc_state ?c = JOINING" by (simp add: cc_frame)
  ultimately show ?thesis
    using False request_trace [of ?c] request_fields [of ?c] by (simp add: cc_join_def Let_def) (simp add: cchan_ok_def)
qed (simp add: cc_join_def)

lemma wait_ok: "cchan_ok c \<Longrightarrow> cchan_ok (cc_on_wait conn c)"
proof -
  assume ok: "cchan_ok c"
  let ?c = "(cc_emit [Unwait] c)\<lparr>cc_wait := False\<rparr>"
  have "trace_ok ?c" "fields_ok ?c" "cc_state ?c = cc_state c"
    using ok by (auto simp: cchan_ok_def trace_ok_def fields_ok_def cc_emit_def)
  then show ?thesis
    using ok request_trace [of ?c] request_fields [of ?c] by (simp add: cc_on_wait_def cchan_ok_def Let_def)
qed

lemma on_state_ok: "cchan_ok c \<Longrightarrow> cchan_ok (cc_on_state conn c)"
proof -
  assume ok: "cchan_ok c"
  let ?c = "(cc_clearJoinTimeout c)\<lparr>cc_pending := None\<rparr>"
  have "trace_ok ?c" using ok by (auto simp: cchan_ok_def cc_frame intro: trace_okI)
  then have "cc_state c = JOINED \<Longrightarrow> trace_ok (cc_set_state STALLED ?c)"
    by (intro set_state_trace) (simp_all add: moves_iff cc_frame)
  moreover have "cc_state c = JOINED \<Longrightarrow> fields_ok (cc_set_state STALLED ?c)"
    using ok by (auto simp: cchan_ok_def fields_ok_def cc_frame)
  ultimately show ?thesis
    using ok request_trace [of c] request_fields [of c] by (auto simp: cc_on_state_def cchan_ok_def)
qed

lemma cc_decline_ok:
  assumes ok: "cchan_ok c"
  shows "cchan_ok (cc_decline e rid c)"
proof -
  let ?c = "(cc_clearJoinTimeout c)\<lparr>cc_pending := None, cc_last_error := Some e\<rparr>"
  have "trace_ok ?c" using ok by (auto simp: cchan_ok_def cc_frame intro: trace_okI)
  then have "cc_state c \<in> {JOINING, STALLED} \<Longrightarrow> trace_ok (cc_set_state DECLINED ?c)"
    by (intro set_state_trace) (simp_all add: moves_iff cc_frame)
  then have "cc_state c \<in> {JOINING, STALLED} \<Longrightarrow>
      trace_ok (cc_publish_error e ((cc_set_state DECLINED ?c)\<lparr>cc_queue := []\<rparr>))"
    by (auto simp: cc_publish_error_def cc_emit_def intro: trace_okI)
  moreover have "fields_ok (cc_publish_error e ((cc_set_state DECLINED ?c)\<lparr>cc_queue := []\<rparr>))"
    using ok by (auto simp: cchan_ok_def fields_ok_def cc_frame)
  moreover have "cchan_ok (cc_publish_error e c)"
    using ok by (auto simp: cchan_ok_def cc_publish_error_def cc_emit_def fields_ok_def trace_ok_def)
  ultimately show ?thesis
    using ok by (auto simp: cc_decline_def cchan_ok_def)
qed

lemma leave_fields [simp]:
  "cc_state (cc_leave c) = CLOSED" "cc_closed (cc_leave c)" "cc_queue (cc_leave c) = []" "cc_pending (cc_leave c) = None"
  "cc_timer (cc_leave c) = None" "cc_live (cc_leave c) = None" "cc_max (cc_leave c) = cc_max c"
  "cc_responses (cc_leave c) = []"
  by (simp_all add: cc_leave_def Let_def cc_clearJoinTimeout_def cc_draw_def cc_presenceSub_def cc_set_state_def
      split: option.split)

lemma leave_trace:
  "state_trace (cc_log (cc_leave c)) = state_trace (cc_log c) @ (if cc_closed c then [] else [CLOSED])"
  by (simp add: cc_leave_def Let_def cc_clearJoinTimeout_def cc_draw_def) (simp add: cc_set_state_def)

lemma cc_leave_ok:
  assumes ok: "cchan_ok c"
  shows "cchan_ok (cc_leave c)"
proof -
  have "trace_ok ((cc_leave c)\<lparr>cc_closed := cc_closed c\<rparr>)"
  proof (rule trace_ok_move)
    show "trace_ok c" using ok by (simp add: cchan_ok_def)
    show "cc_moves (cc_state c) CLOSED" if "\<not> cc_closed c"
      using ok that by (auto simp: cchan_ok_def fields_ok_def moves_iff)
  qed (simp_all add: leave_trace)
  then have "successively cc_moves (IDLE # state_trace (cc_log (cc_leave c)))" by (simp add: trace_ok_def)
  then have "trace_ok (cc_leave c)" unfolding trace_ok_def by simp
  moreover have "fields_ok (cc_leave c)" by (simp add: fields_ok_def)
  ultimately show ?thesis by (simp add: cchan_ok_def)
qed

lemma on_state_trace:
  assumes "trace_ok c"
  shows "trace_ok (cc_on_state conn c)"
proof -
  have "trace_ok ((cc_clearJoinTimeout c)\<lparr>cc_pending := None\<rparr>)"
    using assms by (rule trace_okI) (simp_all add: cc_clearJoinTimeout_def)
  then have "cc_state c = JOINED \<Longrightarrow> trace_ok (cc_set_state STALLED ((cc_clearJoinTimeout c)\<lparr>cc_pending := None\<rparr>))"
    by (rule set_state_trace) (simp add: moves_iff cc_clearJoinTimeout_def)
  then show ?thesis using assms request_trace by (simp add: cc_on_state_def)
qed

lemma on_state_joined:
  assumes "cc_state c = JOINED" "cc_pending c = None" "cc_timer c = None"
  shows "cc_state (cc_on_state conn c) \<in> {JOINED, STALLED}" "cc_pending (cc_on_state conn c) = None"
    "cc_timer (cc_on_state conn c) = None" "cc_closed (cc_on_state conn c) = cc_closed c"
    "cc_queue (cc_on_state conn c) = cc_queue c" "cc_max (cc_on_state conn c) = cc_max c"
    "cc_live (cc_on_state conn c) = cc_live c"
  using assms by (auto simp: cc_on_state_def cc_clearJoinTimeout_def)

lemma init_joined:
  assumes "cc_state c = JOINED" "cc_pending c = None" "cc_timer c = None"
  shows "trace_ok c \<Longrightarrow> trace_ok (fst (cc_init conn c))" "cc_state (fst (cc_init conn c)) \<in> {JOINED, STALLED}"
    "cc_pending (fst (cc_init conn c)) = None" "cc_timer (fst (cc_init conn c)) = None"
    "cc_closed (fst (cc_init conn c)) = cc_closed c" "cc_queue (fst (cc_init conn c)) = cc_queue c"
    "cc_max (fst (cc_init conn c)) = cc_max c" "cc_closed c \<Longrightarrow> cc_live (fst (cc_init conn c)) = None"
    "snd (cc_init conn c) = None \<longleftrightarrow> \<not> cc_closed c"
proof -
  let ?n = "cc_inits (cc_presenceSub c)"
  let ?c1 = "(cc_emit [Watch ?n] (cc_presenceSub c))\<lparr>cc_inits := Suc ?n\<rparr>"
  have c1: "cc_state ?c1 = JOINED" "cc_pending ?c1 = None" "cc_timer ?c1 = None" using assms by simp_all
  note f = on_state_joined [OF c1, of conn]
  have init: "cc_init conn c =
      (if cc_closed c then (cc_on_state conn ?c1, Some (Plain_Error ''Cannot subscribe to a closed subject''))
       else ((cc_on_state conn ?c1)\<lparr>cc_live := Some ?n\<rparr>, None))"
    using f(4) by (simp add: cc_init_def Let_def)
  show "trace_ok (fst (cc_init conn c))" if "trace_ok c"
  proof -
    have "trace_ok ?c1" using that by (rule trace_okI) simp_all
    then have on: "trace_ok (cc_on_state conn ?c1)" by (rule on_state_trace)
    from on have "trace_ok ((cc_on_state conn ?c1)\<lparr>cc_live := Some ?n\<rparr>)" by (rule trace_okI) simp_all
    with on show ?thesis by (simp only: init split: if_split) (simp del: presenceSub_fields)
  qed
  show "cc_state (fst (cc_init conn c)) \<in> {JOINED, STALLED}"
    "cc_pending (fst (cc_init conn c)) = None" "cc_timer (fst (cc_init conn c)) = None"
    "cc_closed (fst (cc_init conn c)) = cc_closed c" "cc_queue (fst (cc_init conn c)) = cc_queue c"
    "cc_max (fst (cc_init conn c)) = cc_max c" "cc_closed c \<Longrightarrow> cc_live (fst (cc_init conn c)) = None"
    "snd (cc_init conn c) = None \<longleftrightarrow> \<not> cc_closed c"
    using f by (auto simp: init)
qed

lemma acknowledge_ok:
  assumes ok: "cchan_ok c"
  shows "cchan_ok (fst (cc_acknowledge conn rid c))"
proof (cases "cc_state c \<notin> {JOINING, STALLED} \<or> other_request rid c")
  case False
  let ?c1 = "(cc_clearJoinTimeout c)\<lparr>cc_pending := None, cc_last_error := None\<rparr>"
  let ?c = "cc_set_state JOINED ?c1" and ?i = "cc_init conn (cc_set_state JOINED ?c1)"
  have "trace_ok ?c1" using ok by (auto simp: cchan_ok_def cc_clearJoinTimeout_def intro: trace_okI)
  then have tr: "trace_ok ?c"
    using False by (intro set_state_trace) (auto simp: moves_iff cc_clearJoinTimeout_def)
  have c: "cc_state ?c = JOINED" "cc_pending ?c = None" "cc_timer ?c = None" "cc_closed ?c = cc_closed c"
      "cc_queue ?c = cc_queue c" "cc_max ?c = cc_max c"
    by (simp_all add: cc_clearJoinTimeout_def)
  note i = init_joined [OF c(1-3), of conn]
  have t: "trace_ok (fst ?i)" by (rule i(1) [OF tr])
  have lim: "length (cc_queue c) \<le> max 1 (cc_max c)" using ok by (simp add: cchan_ok_def fields_ok_def)
  show ?thesis
  proof (cases "cc_closed c")
    case True
    then have "cc_acknowledge conn rid c = (fst ?i, snd ?i)"
      using False i(9) c(4) by (cases ?i) (auto simp: cc_acknowledge_def split: option.split)
    then show ?thesis
      using t i c lim True by (auto simp: cchan_ok_def fields_ok_def)
  next
    case live: False
    then have "cc_acknowledge conn rid c = (emptyQueue (fst ?i), None)"
      using False i(9) c(4) by (cases ?i) (auto simp: cc_acknowledge_def split: option.split)
    moreover have "trace_ok (emptyQueue (fst ?i))"
      using t by (rule trace_okI) (simp_all add: emptyQueue_def)
    ultimately show ?thesis
      using i c live by (auto simp: cchan_ok_def fields_ok_def emptyQueue_def)
  qed
qed (use ok in \<open>auto simp: cc_acknowledge_def\<close>)

lemma cc_publish_ok: "cchan_ok c \<Longrightarrow> cchan_ok (fst (cc_publish m c))"
proof (cases "cc_state c \<in> {JOINED, DECLINED, CLOSED}")
  case False
  assume "cchan_ok c"
  then have "trace_ok (cc_enqueue m c)" "fields_ok (cc_enqueue m c)"
    using False by (auto simp: cchan_ok_def fields_ok_def cc_enqueue_def intro: trace_okI)
  then show ?thesis using False by (simp add: cc_publish_def cchan_ok_def)
qed (auto simp: cc_publish_def)

lemma ask_ok:
  assumes "cchan_ok c"
  shows "cchan_ok (cc_sendForResponse event payload params c)"
proof -
  have "cchan_ok (fst (cc_publish m ((cc_draw c)\<lparr>cc_responses := rs\<rparr>)))" for m rs
    using assms by (intro cc_publish_ok) simp
  then show ?thesis
    using assms by (auto simp: cc_sendForResponse_def Let_def split: sum.split prod.split option.split)
      (metis fst_conv)+
qed

lemma cc_exec_ok: "cchan_ok c \<Longrightarrow> cchan_ok (cc_exec c op)"
  by (cases op)
    (auto simp: join_ok wait_ok on_state_ok acknowledge_ok cc_decline_ok cc_leave_ok ask_ok cc_join_timeout_def
      cc_sendMessage_def cc_publish_ok cc_response_timeout_def cc_receive_def Let_def
      split: option.split sum.split)

interpretation cc_run: invariant_machine cc_exec cchan_ok
  by unfold_locales (rule cc_exec_ok)



subsection \<open>The queue\<close>

text \<open>
  A bounded queue: adding to a full one drops its oldest element. After any number of additions
  it holds the last elements that fit.
\<close>

definition last_n :: "nat \<Rightarrow> 'a list \<Rightarrow> 'a list" where
  "last_n n xs = drop (length xs - n) xs"

locale bounded_queue =
  fixes push :: "'a \<Rightarrow> 'q \<Rightarrow> 'q"
    and content :: "'q \<Rightarrow> 'a list"
    and limit :: "'q \<Rightarrow> nat"
  assumes push_content: "content (push x q) = (if limit q \<le> length (content q) then tl (content q) else content q) @ [x]"
    and push_limit: "limit (push x q) = limit q"
begin

lemma push_last_n:
  "0 < limit q \<Longrightarrow> length (content q) \<le> limit q \<Longrightarrow> content (push x q) = last_n (limit q) (content q @ [x])"
  by (cases "content q") (auto simp: push_content last_n_def drop_Suc Suc_diff_le)

lemma push_bounded: "0 < limit q \<Longrightarrow> length (content q) \<le> limit q \<Longrightarrow> length (content (push x q)) \<le> limit q"
  by (cases "content q") (auto simp: push_content)

lemma pushes_last_n:
  assumes "0 < limit q" "length (content q) \<le> limit q"
  shows "content (fold push xs q) = last_n (limit q) (content q @ xs)"
  using assms
proof (induction xs arbitrary: q)
  case Nil
  then show ?case by (simp add: last_n_def)
next
  case (Cons x xs)
  have "content (fold push xs (push x q)) = last_n (limit q) (last_n (limit q) (content q @ [x]) @ xs)"
    using Cons.IH [of "push x q"] Cons.prems push_bounded by (simp add: push_limit push_last_n)
  moreover have "last_n n (last_n n ys @ zs) = last_n n (ys @ zs)" for n and ys zs :: "'a list"
    by (cases "length ys \<le> n") (simp_all add: last_n_def add.commute)
  ultimately show ?case by simp
qed

end

interpretation cq: bounded_queue cc_enqueue cc_queue cc_max
  by unfold_locales (simp_all add: cc_enqueue_def)

definition published :: "cc_eff list \<Rightarrow> client_message list" where
  "published es = concat (map (\<lambda>e. case e of Publish m \<Rightarrow> [m] | _ \<Rightarrow> []) es)"

lemma published_simps [simp]:
  "published [] = []" "published (es @ fs) = published es @ published fs" "published (Publish m # es) = m # published es"
  "published (State_Change s # es) = published es" "published (Watch n # es) = published es"
  "published (Unwatch n # es) = published es" "published (map Publish ms) = ms"
  by (simp_all add: published_def comp_def)

lemma enqueue_fields [simp]:
  "cc_state (cc_enqueue m c) = cc_state c" "cc_log (cc_enqueue m c) = cc_log c" "cc_closed (cc_enqueue m c) = cc_closed c"
  "cc_pending (cc_enqueue m c) = cc_pending c"
  by (simp_all add: cc_enqueue_def)

lemma fold_enqueue_fields [simp]:
  "cc_state (fold cc_enqueue ms c) = cc_state c" "cc_log (fold cc_enqueue ms c) = cc_log c"
  "cc_closed (fold cc_enqueue ms c) = cc_closed c" "cc_pending (fold cc_enqueue ms c) = cc_pending c"
  by (induction ms arbitrary: c) simp_all

lemma publishes_enqueue:
  "cc_state c \<in> {IDLE, JOINING, STALLED} \<Longrightarrow>
     fold (\<lambda>m c. fst (cc_publish m c)) ms c = fold cc_enqueue ms c"
  by (induction ms arbitrary: c) (auto simp: cc_publish_def)

lemma init_connected:
  assumes "cc_state c = JOINED" "\<not> cc_closed c"
  shows "cc_queue (fst (cc_init CONNECTED c)) = cc_queue c" "snd (cc_init CONNECTED c) = None"
    "published (cc_log (fst (cc_init CONNECTED c))) = published (cc_log c)"
    "cc_state (fst (cc_init CONNECTED c)) = JOINED"
proof -
  have "cc_on_state CONNECTED d = d" if "cc_state d = JOINED" for d
    using that by (simp add: cc_on_state_def)
  then have "cc_init CONNECTED c = (((cc_emit [Watch (cc_inits c)] (cc_presenceSub c))
      \<lparr>cc_inits := Suc (cc_inits c)\<rparr>)\<lparr>cc_live := Some (cc_inits c)\<rparr>, None)"
    using assms by (simp add: cc_init_def Let_def)
  moreover have "published (cc_log (cc_presenceSub c)) = published (cc_log c)"
    by (auto simp: cc_presenceSub_def split: option.split)
  ultimately show "cc_queue (fst (cc_init CONNECTED c)) = cc_queue c" "snd (cc_init CONNECTED c) = None"
    "published (cc_log (fst (cc_init CONNECTED c))) = published (cc_log c)"
    "cc_state (fst (cc_init CONNECTED c)) = JOINED"
    using assms by simp_all
qed

text \<open>An acknowledgement that counts, while connected, joins the channel and sends the queue.\<close>

lemma acknowledge_flushes:
  assumes state: "cc_state c \<in> {JOINING, STALLED}" and live: "\<not> cc_closed c" and own: "\<not> other_request rid c"
  shows "\<exists>c2. cc_acknowledge CONNECTED rid c = (c2, None) \<and> cc_state c2 = JOINED \<and> cc_queue c2 = []
    \<and> published (cc_log c2) = published (cc_log c) @ cc_queue c"
proof -
  let ?d = "cc_set_state JOINED ((cc_clearJoinTimeout c)\<lparr>cc_pending := None, cc_last_error := None\<rparr>)"
  have ack: "cc_acknowledge CONNECTED rid c =
      (case cc_init CONNECTED ?d of (c2, Some e) \<Rightarrow> (c2, Some e) | (c2, None) \<Rightarrow> (emptyQueue c2, None))"
    using state own by (auto simp: cc_acknowledge_def)
  have "cc_state ?d = JOINED" "\<not> cc_closed ?d" using live by (simp_all add: cc_clearJoinTimeout_def)
  note i = init_connected [OF this]
  have "cc_acknowledge CONNECTED rid c = (emptyQueue (fst (cc_init CONNECTED ?d)), None)"
    unfolding ack using i(2) by (cases "cc_init CONNECTED ?d") simp
  moreover have "published (cc_log ?d) = published (cc_log c)" "cc_queue ?d = cc_queue c"
    using live by (simp_all add: cc_set_state_def cc_clearJoinTimeout_def)
  ultimately show ?thesis using i by (simp add: emptyQueue_def)
qed

text \<open>
  C36. Messages sent while a channel is joining (or joining again) are kept in a queue that
  agrees with the specification of a bounded queue, the last \<open>maxQueueSize\<close> of all; when the
  server acknowledges the pending request they are sent in order, once each, and nothing stays.
\<close>

theorem queued_messages_sent:
  assumes state: "cc_state c \<in> {JOINING, STALLED}" and live: "\<not> cc_closed c" and own: "\<not> other_request rid c"
    and limit: "0 < cc_max c" "length (cc_queue c) \<le> cc_max c"
  shows "let c1 = fold (\<lambda>m c. fst (cc_publish m c)) ms c; (c2, e) = cc_acknowledge CONNECTED rid c1 in
     cc_queue c1 = last_n (cc_max c) (cc_queue c @ ms) \<and> published (cc_log c1) = published (cc_log c)
     \<and> e = None \<and> cc_state c2 = JOINED \<and> cc_queue c2 = []
     \<and> published (cc_log c2) = published (cc_log c) @ last_n (cc_max c) (cc_queue c @ ms)"
proof -
  let ?c1 = "fold cc_enqueue ms c"
  have c1: "fold (\<lambda>m c. fst (cc_publish m c)) ms c = ?c1" using publishes_enqueue state by blast
  have "cc_queue ?c1 = last_n (cc_max c) (cc_queue c @ ms)" by (rule cq.pushes_last_n [OF limit])
  moreover have "cc_state ?c1 \<in> {JOINING, STALLED}" "\<not> cc_closed ?c1" "\<not> other_request rid ?c1"
    using state live own by (simp_all add: other_request_def)
  ultimately show ?thesis
    using acknowledge_flushes [of ?c1 rid] unfolding c1 by auto
qed

theorem queued_messages_sent_witness:
  "let m = (\<lambda>n. \<lparr>cm_action = C_BROADCAST, cm_event = n, cm_channel = ''room'', cm_request = n, cm_payload = []\<rparr>);
       c = cc_join CONNECTED (new_cchan ''room'' [] 2 10 (\<lambda>n. ''id''));
       c1 = fold (\<lambda>m c. fst (cc_publish m c)) [m ''a'', m ''b'', m ''d''] c
   in published (cc_log (fst (cc_acknowledge CONNECTED ''id'' c1))) = published (cc_log c) @ [m ''b'', m ''d'']"
proof -
  let ?m = "\<lambda>n. \<lparr>cm_action = C_BROADCAST, cm_event = n, cm_channel = ''room'', cm_request = n, cm_payload = []\<rparr>"
  let ?c = "cc_join CONNECTED (new_cchan ''room'' [] 2 10 (\<lambda>n. ''id''))"
  have "cc_state ?c = JOINING" "\<not> cc_closed ?c" "cc_max ?c = 2" "cc_queue ?c = []" "cc_pending ?c = Some ''id''"
    by (simp_all add: cc_join_def new_cchan_def sendJoinRequest_def cc_frame Let_def cc_uuid_def)
  then show ?thesis
    using queued_messages_sent [of ?c "''id''" "[?m ''a'', ?m ''b'', ?m ''d'']"]
    by (simp add: Let_def other_request_def last_n_def split_beta)
qed

subsection \<open>Responses\<close>

fun settles :: "string \<Rightarrow> cc_eff \<Rightarrow> bool" where
  "settles r (Fulfil r' payload) = (r' = r)"
| "settles r (Fail r' message) = (r' = r)"
| "settles r _ = False"

definition quiet :: "string \<Rightarrow> cc_eff list \<Rightarrow> cchan \<Rightarrow> bool" where
  "quiet r es c \<longleftrightarrow> cc_closed c \<and> r \<notin> set (cc_responses c) \<and> (\<forall>n \<ge> cc_drawn c. cc_random c n \<noteq> r)
     \<and> filter (settles r) (cc_log c) = es"

lemma quiet_emit: "quiet r es c \<Longrightarrow> filter (settles r) fs = [] \<Longrightarrow> quiet r es (cc_emit fs c)"
  by (simp add: quiet_def cc_emit_def)

lemma quiet_draw: "quiet r es c \<Longrightarrow> quiet r es (cc_draw c)"
  by (simp add: quiet_def cc_draw_def)

lemma quiet_uuid: "quiet r es c \<Longrightarrow> cc_uuid c \<noteq> r"
  by (simp add: quiet_def cc_uuid_def)

lemma quiet_frame:
  "quiet r es (c\<lparr>cc_timer := t\<rparr>) \<longleftrightarrow> quiet r es c" "quiet r es (c\<lparr>cc_pending := p\<rparr>) \<longleftrightarrow> quiet r es c"
  "quiet r es (c\<lparr>cc_state := s\<rparr>) \<longleftrightarrow> quiet r es c" "quiet r es (c\<lparr>cc_wait := w\<rparr>) \<longleftrightarrow> quiet r es c"
  "quiet r es (c\<lparr>cc_live := l\<rparr>) \<longleftrightarrow> quiet r es c" "quiet r es (c\<lparr>cc_inits := n\<rparr>) \<longleftrightarrow> quiet r es c"
  "quiet r es (c\<lparr>cc_queue := q\<rparr>) \<longleftrightarrow> quiet r es c" "quiet r es (c\<lparr>cc_last_error := e\<rparr>) \<longleftrightarrow> quiet r es c"
  by (simp_all add: quiet_def)

lemma quiet_state: "quiet r es c \<Longrightarrow> quiet r es (cc_set_state s c)"
  unfolding cc_set_state_def by (intro quiet_emit) (simp_all add: quiet_frame)

lemma quiet_request: "quiet r es c \<Longrightarrow> quiet r es (sendJoinRequest c)"
  unfolding sendJoinRequest_def Let_def cc_clearJoinTimeout_def
  by (simp add: quiet_frame) (intro quiet_emit, simp_all add: quiet_frame quiet_draw)

lemma quiet_join: "quiet r es c \<Longrightarrow> quiet r es (cc_join conn c)"
  by (auto simp: cc_join_def Let_def quiet_frame intro!: quiet_request quiet_state quiet_emit)

lemma quiet_wait: "quiet r es c \<Longrightarrow> quiet r es (cc_on_wait conn c)"
  by (auto simp: cc_on_wait_def Let_def quiet_frame intro!: quiet_request quiet_emit)

lemma quiet_on_state: "quiet r es c \<Longrightarrow> quiet r es (cc_on_state conn c)"
  by (auto simp: cc_on_state_def cc_clearJoinTimeout_def quiet_frame intro!: quiet_request quiet_state)

lemma quiet_presenceSub: "quiet r es c \<Longrightarrow> quiet r es (cc_presenceSub c)"
  by (auto simp: cc_presenceSub_def quiet_frame intro!: quiet_emit split: option.split)

lemma quiet_acknowledge: "quiet r es c \<Longrightarrow> quiet r es (fst (cc_acknowledge conn rid c))"
proof -
  assume q: "quiet r es c"
  have init: "snd (cc_init conn d) \<noteq> None \<and> quiet r es (fst (cc_init conn d))" if "quiet r es d" for d
  proof -
    have "quiet r es (cc_on_state conn ((cc_emit [Watch n] (cc_presenceSub d))\<lparr>cc_inits := Suc n\<rparr>))" for n
      using that by (auto simp: quiet_frame intro!: quiet_on_state quiet_emit quiet_presenceSub)
    then show ?thesis by (auto simp: cc_init_def Let_def) (simp_all add: quiet_def)
  qed
  let ?d = "cc_set_state JOINED ((cc_clearJoinTimeout c)\<lparr>cc_pending := None, cc_last_error := None\<rparr>)"
  have "quiet r es ?d" using q by (intro quiet_state) (simp add: cc_clearJoinTimeout_def quiet_frame)
  from init [OF this] q show ?thesis
    by (cases "cc_init conn ?d") (auto simp: cc_acknowledge_def)
qed

lemma quiet_decline: "quiet r es c \<Longrightarrow> quiet r es (cc_decline e rid c)"
  by (auto simp: cc_decline_def cc_publish_error_def cc_clearJoinTimeout_def quiet_frame intro!: quiet_emit quiet_state)

lemma quiet_leave:
  assumes "\<forall>n \<ge> cc_drawn c. cc_random c n \<noteq> r"
  shows "quiet r (filter (settles r) (cc_log c)) (cc_leave c)"
  using assms
  by (simp add: quiet_def cc_leave_def Let_def cc_presenceSub_def cc_set_state_def cc_emit_def cc_clearJoinTimeout_def
      cc_draw_def split: option.split)

lemma quiet_publish: "quiet r es c \<Longrightarrow> quiet r es (fst (cc_publish m c))"
  by (auto simp: cc_publish_def cc_enqueue_def quiet_frame intro!: quiet_emit)

lemma quiet_step:
  assumes q: "quiet r es c"
  shows "quiet r es (cc_exec c op)"
proof (cases op)
  case (C_Leave)
  have "filter (settles r) (cc_log c) = es" "\<forall>n \<ge> cc_drawn c. cc_random c n \<noteq> r" using q by (simp_all add: quiet_def)
  then show ?thesis using quiet_leave [of c r] C_Leave by simp
next
  case (C_Ask event payload params)
  have "cc_closed c" using q by (simp add: quiet_def)
  then show ?thesis
    using q quiet_uuid [OF q]
    by (auto simp: C_Ask cc_sendForResponse_def Let_def cc_draw_def [of c] intro!: quiet_emit)
       (simp add: quiet_def)
next
  case (C_Response_Timeout event ms rid)
  have "quiet r es (c\<lparr>cc_responses := js_remove rid (cc_responses c)\<rparr>)" using q by (simp add: quiet_def)
  moreover have "rid \<noteq> r" if "rid \<in> set (cc_responses c)" using q that by (auto simp: quiet_def)
  ultimately show ?thesis
    using q by (auto simp: C_Response_Timeout cc_response_timeout_def intro!: quiet_emit)
next
  case (C_Receive data)
  then show ?thesis using q by (auto simp: cc_receive_def quiet_def)
qed (auto simp: cc_join_timeout_def cc_sendMessage_def q
    intro!: quiet_join quiet_wait quiet_on_state quiet_acknowledge quiet_decline quiet_publish quiet_draw
    split: option.split sum.split)

text \<open>
  C40. Leaving a channel abandons the responses that are waited for: no call of \<open>resolve\<close> or
  \<open>reject\<close> for such a promise ever follows, whatever happens to the channel afterwards.
\<close>

theorem leave_abandons_responses:
  assumes waiting: "r \<in> set (cc_responses c)" and fresh: "\<forall>n \<ge> cc_drawn c. cc_random c n \<noteq> r"
  shows "filter (settles r) (cc_log (foldl cc_exec (cc_leave c) ops)) = filter (settles r) (cc_log c)"
proof -
  have "quiet r (filter (settles r) (cc_log c)) (foldl cc_exec (cc_leave c) ops)"
  proof (induction ops rule: rev_induct)
    case Nil
    then show ?case using quiet_leave [OF fresh] by simp
  next
    case (snoc op ops)
    then show ?case using quiet_step by simp
  qed
  then show ?thesis by (simp add: quiet_def)
qed

theorem leave_abandons_responses_witness:
  "let c = (new_cchan ''room'' [] 2 10 (\<lambda>n. replicate n CHR ''x''))\<lparr>cc_responses := [''x''], cc_drawn := 2\<rparr>
   in ''x'' \<in> set (cc_responses c)
     \<and> filter (settles ''x'') (cc_log (foldl cc_exec (cc_leave c) [C_Response_Timeout ''ping'' 30 ''x''])) = []"
proof -
  let ?c = "(new_cchan ''room'' [] 2 10 (\<lambda>n. replicate n CHR ''x''))\<lparr>cc_responses := [''x''], cc_drawn := 2\<rparr>"
  have "\<forall>n \<ge> cc_drawn ?c. cc_random ?c n \<noteq> ''x''"
  proof (intro allI impI)
    fix n
    assume "cc_drawn ?c \<le> n"
    then have "length (cc_random ?c n) \<noteq> length ''x''" by (simp add: new_cchan_def)
    then show "cc_random ?c n \<noteq> ''x''" by metis
  qed
  moreover have "''x'' \<in> set (cc_responses ?c)" by simp
  ultimately show ?thesis
    using leave_abandons_responses [of "''x''" ?c "[C_Response_Timeout ''ping'' 30 ''x'']"]
    by (simp add: Let_def new_cchan_def)
qed

end
