(* ===== verification/Handshake.thy ===== *)
theory Handshake
  imports Message_Props Client_Channel_Props
begin

text \<open>
  Client and server together: a channel of the client asks to join, the server's chain of join
  handlers accepts, and the acknowledgement finds its way back to the channel.
\<close>

subsection \<open>An accepting handler\<close>

text \<open>The handler of an application that accepts every request.\<close>

definition accepting :: "nat \<Rightarrow> server mw_prog" where
  "accepting j = Act (\<lambda>sv. case jc_accept j None sv of (sv', None) \<Rightarrow> (sv', Done) | (sv', Some e) \<Rightarrow> (sv', Throw e))"

lemma with_engine_sent:
  assumes "ch_log (fst (f (engine_of i sv))) = ch_log (engine_of i sv) @ Send conn ev # to_nodes body c"
    and "conn \<in> set (sv_open sv)"
  shows "sv_sent (fst (with_engine i f sv)) = sv_sent sv @ [(conn, ev)]"
  using assms by (auto simp: with_engine_def Let_def ep_sendMessage_def to_nodes_def)

lemma accept_acknowledges:
  assumes ok: "server_ok sv" and j: "j < length (sv_joins sv)" and pending: "\<not> jc_executed (jc_get j sv)"
    and live: "\<not> ch_closed (engine_of (jc_engine (jc_get j sv)) sv)"
      "\<not> has_user (jc_client j sv) (engine_of (jc_engine (jc_get j sv)) sv)"
    and socket: "jc_socket j sv \<in> set (sv_open sv)"
  shows "\<exists>sv'. jc_accept j None sv = (sv', None)
     \<and> sv_sent sv' = sv_sent sv @ [(jc_socket j sv, ack_event (jc_request (jc_get j sv)) (engine_of (jc_engine (jc_get j sv)) sv))]
     \<and> jm_has (ch_subs (engine_of (jc_engine (jc_get j sv)) sv')) (jc_client j sv)
     \<and> ch_name (engine_of (jc_engine (jc_get j sv)) sv') = ch_name (engine_of (jc_engine (jc_get j sv)) sv)
     \<and> jm_get (ch_assigns (engine_of (jc_engine (jc_get j sv)) sv')) (jc_client j sv) = Some (jc_assigns (jc_get j sv))"
proof -
  let ?i = "jc_engine (jc_get j sv)" and ?u = "jc_client j sv"
  let ?sv2 = "upd_join j (\<lambda>x. x\<lparr>jc_executed := True\<rparr>) sv"
  let ?f = "addUser ?u (jc_assigns (jc_get j sv)) (jc_socket j sv) (jc_request (jc_get j sv))"
  note i = join_engine(1) [OF ok j]
  have chan: "chan_ok (engine_of ?i sv)" using ok i by (simp add: server_ok_def base_engine_ok)
  have add: "snd (?f (engine_of ?i sv)) = None"
    "ch_log (fst (?f (engine_of ?i sv))) = ch_log (engine_of ?i sv)
      @ Send (jc_socket j sv) (ack_event (jc_request (jc_get j sv)) (engine_of ?i sv))
      # to_nodes (USER_JOINED ?u [] (jc_assigns (jc_get j sv))) (engine_of ?i sv)"
    "ch_name (fst (?f (engine_of ?i sv))) = ch_name (engine_of ?i sv)"
    "jm_get (ch_assigns (fst (?f (engine_of ?i sv)))) ?u = Some (jc_assigns (jc_get j sv))"
    using addUser_result [OF chan live, of "jc_assigns (jc_get j sv)" "jc_socket j sv" "jc_request (jc_get j sv)"]
    by (auto simp: emit_def jm.get_put)
  have keep: "jc_engine (jc_get j ?sv2) = ?i" "jc_client j ?sv2 = ?u" "jc_assigns (jc_get j ?sv2) = jc_assigns (jc_get j sv)"
      "jc_socket j ?sv2 = jc_socket j sv" "jc_request (jc_get j ?sv2) = jc_request (jc_get j sv)"
      "engine_of ?i ?sv2 = engine_of ?i sv" "sv_sent ?sv2 = sv_sent sv" "sv_open ?sv2 = sv_open sv"
    using j by (simp_all add: upd_join_get jc_client_def jc_socket_def) (simp_all add: upd_join_def)
  obtain sv3 where w: "with_engine ?i ?f ?sv2 = (sv3, None)"
    using add(1) keep(6) by (cases "with_engine ?i ?f ?sv2") (auto simp: with_engine_def Let_def)
  then have sv3: "sv3 = fst (with_engine ?i ?f ?sv2)" by simp
  have i2: "?i < length (sv_engines ?sv2)" using i by simp
  have "jm_has (ch_subs (engine_of ?i sv3)) ?u"
    using add(1) by (simp add: sv3 with_engine_engines [OF i2] keep addUser_subs jm_has_set)
  moreover have "sv_sent sv3 = sv_sent sv @ [(jc_socket j sv, ack_event (jc_request (jc_get j sv)) (engine_of ?i sv))]"
    unfolding sv3 using with_engine_sent [of ?f ?i ?sv2] add(2) socket by (simp add: keep)
  moreover have "ch_name (engine_of ?i sv3) = ch_name (engine_of ?i sv)"
    using add(3) by (simp add: sv3 with_engine_engines [OF i2] keep)
  moreover have "jm_get (ch_assigns (engine_of ?i sv3)) ?u = Some (jc_assigns (jc_get j sv))"
    using add(4) by (simp add: sv3 with_engine_engines [OF i2] keep)
  moreover let ?sv4 = "upd_join j (\<lambda>x. x\<lparr>jc_accepted := True\<rparr>) (add_subscription j sv3)"
  have "sv_sent ?sv4 = sv_sent sv3" "engine_of ?i ?sv4 = engine_of ?i sv3"
    by (simp_all add: upd_join_def add_subscription_def Let_def upd_cache_def engine_of_def)
  moreover have "jc_accept j None sv = (?sv4, None)"
    using pending by (simp add: jc_accept_def jc_performChecks_def keep w)
  ultimately show ?thesis by simp
qed

text \<open>A function of a chain that runs to its first suspension without an exception.\<close>

lemma mw_run_executed:
  assumes pre: "\<forall>m \<in> set pre. m req res = pass_on"
    and ran: "\<And>nxt r. mr_state r = st \<Longrightarrow> mr_tasks r = [] \<Longrightarrow>
      exec_prog nxt (m req res) r = (r\<lparr>mr_tasks := ts, mr_state := st'\<rparr>, None)"
  shows "mw_run (pre @ m # post) req res final st =
    (\<lparr>mr_index = Suc (length pre), mr_tasks = ts, mr_state = st', mr_called = [0..<Suc (length pre)], mr_finals = []\<rparr>, None)"
proof (rule mw_run_prefix [OF pre refl])
  show "mw_next (Suc (length (m # post))) (map (\<lambda>m. m req res) (pre @ m # post)) final None
      \<lparr>mr_index = length pre, mr_tasks = [], mr_state = st, mr_called = [0..<length pre], mr_finals = []\<rparr>
    = (\<lparr>mr_index = Suc (length pre), mr_tasks = ts, mr_state = st', mr_called = [0..<Suc (length pre)], mr_finals = []\<rparr>, None)"
    unfolding mw_next.simps(2) Let_def by (simp add: nth_map_prefix ran)
qed

subsection \<open>The server's side\<close>

lemma start_join_engine:
  assumes ok: "server_ok sv" and l: "l < length (sv_lobbies sv)" and st: "start_join l req params sv = (j, sv')"
  shows "\<not> ch_closed (engine_of (jc_engine (jc_get j sv')) sv')"
    and "(\<And>i. lobby_getChannel l (jr_channel req) sv = Inr i \<Longrightarrow> \<not> has_user u (engine_of i sv)) \<Longrightarrow>
      \<not> has_user u (engine_of (jc_engine (jc_get j sv')) sv')"
proof -
  obtain i sv1 where g: "lobby_getOrCreateChannel l (jr_channel req) sv = (i, sv1)" by force
  have eng: "engine_of (jc_engine (jc_get j sv')) sv' = engine_of i sv1"
    using st by (auto simp: start_join_def g jc_get_def new_join_def engine_of_def)
  show "\<not> ch_closed (engine_of (jc_engine (jc_get j sv')) sv')"
    "(\<And>i. lobby_getChannel l (jr_channel req) sv = Inr i \<Longrightarrow> \<not> has_user u (engine_of i sv)) \<Longrightarrow>
      \<not> has_user u (engine_of (jc_engine (jc_get j sv')) sv')"
    unfolding eng
    using g ok l
    by (auto simp: lobby_getOrCreateChannel_def lobby_createChannel_def lobby_getChannel_def Let_def engine_of_def
        new_channel_def has_user_def server_ok_def base_ok_def lobbies_ok_def lobby_entry_def split: option.splits)
qed

lemma accepted_join:
  assumes ok: "server_ok sv" and l: "length pre < length (sv_lobbies sv)" and k: "jr_cache req < length (sv_caches sv)"
    and pre: "\<forall>(path, handler) \<in> set pre. parseAddress path (jr_channel req) = Inr None"
    and match: "parseAddress path (jr_channel req) = Inr (Some params)"
    and new: "\<And>i. lobby_getChannel (length pre) (jr_channel req) sv = Inr i \<Longrightarrow>
      \<not> has_user (sc_client (sv_caches sv ! jr_cache req)) (engine_of i sv)"
    and socket: "sc_socket (sv_caches sv ! jr_cache req) \<in> set (sv_open sv)"
  shows "\<exists>r c i. ep_joinChannel (pre @ (path, accepting) # post) req sv = (r, None)
    \<and> sv_sent (mr_state r) = sv_sent sv @ [(sc_socket (sv_caches sv ! jr_cache req), ack_event (jr_request req) c)]
    \<and> ch_name c = jr_channel req \<and> ch_name (engine_of i (mr_state r)) = jr_channel req
    \<and> jm_has (ch_subs (engine_of i (mr_state r))) (sc_client (sv_caches sv ! jr_cache req))"
proof -
  let ?auths = "pre @ (path, accepting) # post" and ?u = "sc_client (sv_caches sv ! jr_cache req)"
  let ?before = "map join_function (zip pre [0..<length pre])"
  obtain j sv1 where st: "start_join (length pre) req params sv = (j, sv1)" by force
  note f = start_join_facts [OF ok l st] and e = start_join_engine [OF ok l st]
  have ok1: "server_ok sv1" using startJoin_ok [OF ok l k, of params] by (simp add: st)
  have names: "jc_client j sv1 = ?u" "jc_socket j sv1 = sc_socket (sv_caches sv ! jr_cache req)"
    by (simp_all add: jc_client_def jc_socket_def f(5), (subst f(1), simp add: new_join_def)+)
  have fresh: "\<not> jc_executed (jc_get j sv1)" "jc_request (jc_get j sv1) = jr_request req"
    by (subst f(1), simp add: new_join_def)+
  obtain sv2 where acc: "jc_accept j None sv1 = (sv2, None)"
      "sv_sent sv2 = sv_sent sv1 @ [(jc_socket j sv1, ack_event (jc_request (jc_get j sv1)) (engine_of (jc_engine (jc_get j sv1)) sv1))]"
      "jm_has (ch_subs (engine_of (jc_engine (jc_get j sv1)) sv2)) (jc_client j sv1)"
      "ch_name (engine_of (jc_engine (jc_get j sv1)) sv2) = ch_name (engine_of (jc_engine (jc_get j sv1)) sv1)"
    using accept_acknowledges [OF ok1 f(2) fresh(1) e(1)] e(2) [OF new] socket by (auto simp: names f(3))
  note split = join_functions_split [of pre "(path, accepting)" post]
  have pass: "\<forall>m \<in> set ?before. m req () = pass_on"
    using pre zip_upt_fst by (fastforce simp: join_function_def split: prod.splits)
  have "exec_prog nxt (join_function ((path, accepting), length pre) req ()) r
      = (r\<lparr>mr_tasks := [Suspended (unanswered j)], mr_state := sv2\<rparr>, None)"
    if "mr_state r = sv" "mr_tasks r = []" for nxt r
    using that by (simp add: join_function_def match guard_handler_def accepting_def st acc(1))
  note ran = mw_run_executed [where m = "join_function ((path, accepting), length pre)" and req = req and res = "()", OF pass this]
  have run: "ep_joinChannel ?auths req sv = (\<lparr>mr_index = Suc (length ?before), mr_tasks = [Suspended (unanswered j)],
      mr_state = sv2, mr_called = [0..<Suc (length ?before)], mr_finals = []\<rparr>, None)"
    unfolding ep_joinChannel_def split by (rule ran)
  show ?thesis
    using run acc f(4,6) by (auto simp: names fresh)
qed

subsection \<open>The whole trip\<close>

text \<open>
  C2. Joining, from the client to the server and back. A channel that asks to join publishes one
  message. A server that reads it, and whose first handler for the name accepts, subscribes the
  user of that socket to the channel of that name and sends the socket one event, which passes
  the client's validator; and the channel that hears it is joined and sends what it had queued.
\<close>

theorem join_handshake:
  assumes server: "server_ok sv" "length pre < length (sv_lobbies sv)" "k < length (sv_caches sv)"
      "sc_socket (sv_caches sv ! k) \<in> set (sv_open sv)"
    and handlers: "\<forall>(path, handler) \<in> set pre. parseAddress path (cc_name c) = Inr None"
      "parseAddress path (cc_name c) = Inr (Some params)"
    and new: "\<And>i. lobby_getChannel (length pre) (cc_name c) sv = Inr i \<Longrightarrow>
      \<not> has_user (sc_client (sv_caches sv ! k)) (engine_of i sv)"
    and channel: "cc_state c \<notin> {JOINED, JOINING}" "\<not> cc_closed c"
    and wire: "m = cc_message JOIN_CHANNEL (client_action_str JOIN_CHANNEL) (cc_params c) (cc_uuid c) c"
      "json_parse line = Inr (client_message_json m)" "js_length line \<le> sv_max sv"
  shows "\<exists>ev i c2. let c1 = cc_join CONNECTED c;
      sv' = mr_state (ep_readMessage json_parse (pre @ (path, accepting) # post) events uuid k line sv) in
    published (cc_log c1) = published (cc_log c) @ [m]
    \<and> sv_sent sv' = sv_sent sv @ [(sc_socket (sv_caches sv ! k), ev)]
    \<and> ch_name (engine_of i sv') = cc_name c \<and> jm_has (ch_subs (engine_of i sv')) (sc_client (sv_caches sv ! k))
    \<and> parse_channel_event (channel_event_json ev) = Inr ev
    \<and> ce_event ev = EV_ACKNOWLEDGE \<and> ce_channel ev = cc_name c
    \<and> cc_acknowledge CONNECTED (ce_request ev) c1 = (c2, None) \<and> cc_state c2 = JOINED \<and> cc_queue c2 = []
    \<and> published (cc_log c2) = published (cc_log c) @ m # cc_queue c"
proof -
  let ?req = "\<lparr>jr_cache = k, jr_request = cc_uuid c, jr_channel = cc_name c, jr_params = cc_params c\<rparr>"
  let ?c1 = "cc_join CONNECTED c"
  obtain r ch i where j: "ep_joinChannel (pre @ (path, accepting) # post) ?req sv = (r, None)"
      "sv_sent (mr_state r) = sv_sent sv @ [(sc_socket (sv_caches sv ! k), ack_event (cc_uuid c) ch)]"
      "ch_name ch = cc_name c" "ch_name (engine_of i (mr_state r)) = cc_name c"
      "jm_has (ch_subs (engine_of i (mr_state r))) (sc_client (sv_caches sv ! k))"
    using accepted_join [of sv pre ?req path params post] server handlers new by auto
  have read: "ep_readMessage json_parse (pre @ (path, accepting) # post) events uuid k line sv = r"
  proof -
    have "res_bind (json_parse line) parse_client_message = Inr m"
      by (simp add: wire(2) res_bind_def client_message_json_def parse_client_message_obj jm_get_Cons)
    then show ?thesis
      using wire(3) j(1) by (simp add: ep_readMessage_def Let_def ep_handleMessage_def wire(1) cc_message_def)
  qed
  have c1: "?c1 = sendJoinRequest (cc_set_state JOINING (c\<lparr>cc_last_error := None\<rparr>))"
    using channel(1) by (auto simp: cc_join_def Let_def)
  have f: "cc_state ?c1 = JOINING" "\<not> cc_closed ?c1" "cc_queue ?c1 = cc_queue c" "cc_pending ?c1 = Some (cc_uuid c)"
    "published (cc_log ?c1) = published (cc_log c) @ [m]"
    unfolding c1 using channel(2)
    by (simp_all add: sendJoinRequest_def Let_def cc_frame cc_uuid_def cc_message_def wire(1))
  then have "\<not> other_request (cc_uuid c) ?c1" by (simp add: other_request_def)
  then obtain c2 where "cc_acknowledge CONNECTED (cc_uuid c) ?c1 = (c2, None)" "cc_state c2 = JOINED" "cc_queue c2 = []"
      "published (cc_log c2) = published (cc_log c) @ m # cc_queue c"
    using acknowledge_flushes [of ?c1 "cc_uuid c"] f by auto
  moreover have "parse_channel_event (channel_event_json (ack_event (cc_uuid c) ch)) = Inr (ack_event (cc_uuid c) ch)"
    by (rule wire_event_accepted) (simp add: wire_event_def ack_event_def)
  ultimately show ?thesis
    using j f(5) by (intro exI [of _ "ack_event (cc_uuid c) ch"] exI [of _ i] exI [of _ c2]) (simp add: Let_def read ack_event_def)
qed

text \<open>Bob, who is connected to the server of the examples, joins the channel Ann is in.\<close>

theorem join_handshake_witness:
  "\<exists>ev c2. let c = new_cchan ''/chat/1'' [] 2 10 (\<lambda>n. ''id'');
      m = cc_message JOIN_CHANNEL (client_action_str JOIN_CHANNEL) (cc_params c) (cc_uuid c) c;
      sv' = mr_state (ep_readMessage (\<lambda>s. Inr (client_message_json m)) [(Pattern ''/chat/:id'', accepting)] [] ''u'' 1 ''join'' demo_server)
    in sv_sent sv' = sv_sent demo_server @ [(8, ev)]
      \<and> cc_acknowledge CONNECTED (ce_request ev) (cc_join CONNECTED c) = (c2, None) \<and> cc_state c2 = JOINED"
proof -
  let ?c = "new_cchan ''/chat/1'' [] 2 10 (\<lambda>n. ''id'')"
  let ?m = "cc_message JOIN_CHANNEL (client_action_str JOIN_CHANNEL) (cc_params ?c) (cc_uuid ?c) ?c"
  have c: "cc_name ?c = ''/chat/1''" "cc_state ?c \<notin> {JOINED, JOINING}" "\<not> cc_closed ?c" by (simp_all add: new_cchan_def)
  have "parseAddress (Pattern ''/chat/:id'') ''/chat/1'' = Inr (Some \<lparr>ep_params = [(''id'', ''1'')], ep_query = []\<rparr>)"
    by code_simp
  moreover have "length (sv_lobbies demo_server) = 1" "sv_max demo_server = 9 \<and> sv_open demo_server = [8, 7]" by code_simp+
  moreover have "js_length ''join'' = 4" by code_simp
  moreover have "sc_socket (sv_caches demo_server ! 1) = 8" "length (sv_caches demo_server) = 2"
    using demo_server_evals(2) by (auto simp: map_eq_Cons_conv)
  moreover have "\<not> has_user (sc_client (sv_caches demo_server ! 1)) (engine_of i demo_server)"
    if "lobby_getChannel 0 ''/chat/1'' demo_server = Inr i" for i
  proof -
    have "i < length (sv_engines demo_server)"
      using that demo_server_ok calculation(2)
      by (auto simp: lobby_getChannel_def server_ok_def base_ok_def lobbies_ok_def lobby_entry_def split: option.splits)
    then have "i = 0" by (simp add: demo_server_parts)
    then show ?thesis
      using demo_server_parts(8,11) by (simp add: has_user_def jm_has_keys ch_users_def)
  qed
  ultimately show ?thesis
    using join_handshake [of demo_server "[]" 1 ?c "Pattern ''/chat/:id''" "\<lparr>ep_params = [(''id'', ''1'')], ep_query = []\<rparr>" ?m
        "\<lambda>s. Inr (client_message_json ?m)" "''join''" "[]" "[]" "''u''"] demo_server_ok
    unfolding c(1) using c(2,3) by (simp add: Let_def) blast
qed

end
