(* ===== verification/Wrappers.thy ===== *)
theory Wrappers
  imports Endpoint
begin

text \<open>
  The objects that handlers and the application hold: what the base class of the contexts shows
  (\<open>core/src/contexts/baseContext.ts\<close>), the \<open>Channel\<close> wrapper of an engine
  (\<open>core/src/wrappers/channel.ts\<close>; sending and evicting are in \<open>Server\<close>), the \<open>PondChannel\<close>
  wrapper of a lobby (\<open>core/src/wrappers/pondChannel.ts\<close>) and the \<open>Endpoint\<close> wrapper
  (\<open>core/src/wrappers/endpoint.ts\<close>).
\<close>

subsection \<open>The base context\<close>

record context_event =
  xe_event :: string
  xe_query :: "string jmap"
  xe_params :: "string jmap"
  xe_payload :: obj

definition bc_event :: "event_context \<Rightarrow> context_event" where
  "bc_event x = \<lparr>xe_event = ec_event x, xe_query = ep_query (ec_params x),
     xe_params = ep_params (ec_params x), xe_payload = ec_payload x\<rparr>"

definition bc_channelName :: "event_context \<Rightarrow> server \<Rightarrow> string" where
  "bc_channelName x sv = ch_name (engine_of (ec_engine x) sv)"

definition bc_presences :: "event_context \<Rightarrow> server \<Rightarrow> obj jmap" where
  "bc_presences x sv = getPresence (engine_of (ec_engine x) sv)"

definition bc_assigns :: "event_context \<Rightarrow> server \<Rightarrow> obj jmap" where
  "bc_assigns x sv = getAssigns (engine_of (ec_engine x) sv)"

definition bc_user :: "event_context \<Rightarrow> server \<Rightarrow> user_data res" where
  "bc_user x sv = getUserData (ec_sender x) (engine_of (ec_engine x) sv)"

text \<open>A join context answers \<open>user\<close> and \<open>hasResponded\<close> itself.\<close>

definition jc_user :: "nat \<Rightarrow> server \<Rightarrow> user_data" where
  "jc_user j sv = \<lparr>ud_id = jc_client j sv, ud_assigns = sc_assigns (sv_caches sv ! jc_cache (jc_get j sv)),
     ud_presence = []\<rparr>"

definition jc_hasResponded :: "nat \<Rightarrow> server \<Rightarrow> bool" where
  "jc_hasResponded j sv = jc_executed (jc_get j sv)"

subsection \<open>Channel\<close>

definition wrap_getUserData :: "nat \<Rightarrow> string \<Rightarrow> server \<Rightarrow> user_data res" where
  "wrap_getUserData i userId sv = getUserData userId (engine_of i sv)"

definition wrap_getPresences :: "nat \<Rightarrow> server \<Rightarrow> obj jmap" where
  "wrap_getPresences i sv = getPresence (engine_of i sv)"

definition wrap_getAssigns :: "nat \<Rightarrow> server \<Rightarrow> obj jmap" where
  "wrap_getAssigns i sv = getAssigns (engine_of i sv)"

definition wrap_trackPresence :: "nat \<Rightarrow> string \<Rightarrow> obj \<Rightarrow> server \<Rightarrow> server \<times> exn option" where
  "wrap_trackPresence i userId presence = with_engine i (trackPresence userId presence)"

definition wrap_updatePresence :: "nat \<Rightarrow> string \<Rightarrow> obj \<Rightarrow> server \<Rightarrow> server \<times> exn option" where
  "wrap_updatePresence i userId presence = with_engine i (updatePresence userId presence)"

definition wrap_removePresence :: "nat \<Rightarrow> string \<Rightarrow> server \<Rightarrow> server \<times> exn option" where
  "wrap_removePresence i userId = with_engine i (removePresence userId)"

definition wrap_upsertPresence :: "nat \<Rightarrow> string \<Rightarrow> obj \<Rightarrow> server \<Rightarrow> server \<times> exn option" where
  "wrap_upsertPresence i userId presence = with_engine i (upsertPresence userId presence)"

definition wrap_updateAssigns :: "nat \<Rightarrow> string \<Rightarrow> obj \<Rightarrow> server \<Rightarrow> server \<times> exn option" where
  "wrap_updateAssigns i userId assigns = with_engine i (updateAssigns userId assigns)"

definition wrap_getUserAcrossNodes :: "nat \<Rightarrow> string \<Rightarrow> server \<Rightarrow> server \<times> exn option" where
  "wrap_getUserAcrossNodes i userId = with_engine i (\<lambda>c. (getUserAcrossNodes userId c, None))"

definition wrap_requestUserRemoval :: "nat \<Rightarrow> string \<Rightarrow> server \<Rightarrow> server \<times> exn option" where
  "wrap_requestUserRemoval i userId = with_engine i (\<lambda>c. (requestUserRemoval userId c, None))"

subsection \<open>PondChannel\<close>

definition pc_getChannel :: "nat \<Rightarrow> string \<Rightarrow> server \<Rightarrow> nat option" where
  "pc_getChannel l channelName sv =
     (case lobby_getChannel l channelName sv of Inl e \<Rightarrow> None | Inr i \<Rightarrow> Some i)"

definition pc_on_channel ::
    "nat \<Rightarrow> string \<Rightarrow> (nat \<Rightarrow> server \<Rightarrow> server \<times> exn option) \<Rightarrow> server \<Rightarrow> server \<times> exn option" where
  "pc_on_channel l channelName f sv =
     (case lobby_getChannel l channelName sv of Inl e \<Rightarrow> (sv, Some e) | Inr i \<Rightarrow> f i sv)"

definition pc_broadcast :: "nat \<Rightarrow> string \<Rightarrow> string \<Rightarrow> obj \<Rightarrow> obj \<Rightarrow> server \<Rightarrow> server \<times> exn option" where
  "pc_broadcast l channelName event payload params =
     pc_on_channel l channelName (\<lambda>i. wrap_broadcast i event payload params)"

definition pc_broadcastFrom ::
    "nat \<Rightarrow> string \<Rightarrow> string \<Rightarrow> string \<Rightarrow> obj \<Rightarrow> obj \<Rightarrow> server \<Rightarrow> server \<times> exn option" where
  "pc_broadcastFrom l channelName userId event payload params =
     pc_on_channel l channelName (\<lambda>i. wrap_broadcastFrom i userId event payload params)"

definition pc_broadcastTo ::
    "nat \<Rightarrow> string \<Rightarrow> string + string list \<Rightarrow> string \<Rightarrow> obj \<Rightarrow> obj \<Rightarrow> server \<Rightarrow> server \<times> exn option" where
  "pc_broadcastTo l channelName userIds event payload params =
     pc_on_channel l channelName (\<lambda>i. wrap_broadcastTo i userIds event payload params)"

subsection \<open>Endpoint\<close>

definition ew_getClients :: "server \<Rightarrow> nat list" where
  "ew_getClients sv = map (\<lambda>k. sc_socket (sv_caches sv ! k)) (ep_getClients sv)"

definition ew_closeConnection :: "string + string list \<Rightarrow> server \<Rightarrow> server" where
  "ew_closeConnection clientIds = ep_closeConnection clientIds"

end
