(* ===== verification/Outgoing.thy ===== *)
theory Outgoing
  imports Endpoint Route_Match
begin

text \<open>
  Outgoing events: the chain of a lobby's outgoing handlers (\<open>handleOutgoingEvent\<close> and
  \<open>processOutgoingEvents\<close> of \<open>core/src/engines/lobbyEngine.ts\<close>, \<open>runAsync\<close> of
  \<open>core/src/abstracts/middleware.ts\<close>) with its context (\<open>core/src/contexts/outgoingContext.ts\<close>),
  and the task of the event loop that ends in the socket.
\<close>

subsection \<open>The context\<close>

record out_ctx =
  oc_engine :: nat
  oc_params :: "event_params option"
  oc_event :: string
  oc_payload :: obj
  oc_sender :: string
  oc_action :: server_action
  oc_blocked :: bool

definition new_out_ctx :: "channel_event \<Rightarrow> event_params option \<Rightarrow> nat \<Rightarrow> string \<Rightarrow> out_ctx" where
  "new_out_ctx event params engine userId =
     \<lparr>oc_engine = engine, oc_params = params, oc_event = ce_event event, oc_payload = ce_payload event,
      oc_sender = userId, oc_action = ce_action event, oc_blocked = False\<rparr>"

text \<open>The getter \<open>event\<close> reads the parameters and throws when there are none.\<close>

definition oc_get_event :: "out_ctx \<Rightarrow> (string \<times> event_params \<times> server_action \<times> obj) res" where
  "oc_get_event x =
     (case oc_params x of
        None \<Rightarrow> Inl (Plain_Error ''Cannot read properties of null'')
      | Some p \<Rightarrow> Inr (oc_event x, p, oc_action x, oc_payload x))"

definition oc_block :: "out_ctx \<Rightarrow> out_ctx" where
  "oc_block x = x\<lparr>oc_blocked := True\<rparr>"

definition oc_transform :: "obj \<Rightarrow> out_ctx \<Rightarrow> out_ctx" where
  "oc_transform payload x = x\<lparr>oc_payload := payload\<rparr>"

definition oc_updateParams :: "event_params \<Rightarrow> out_ctx \<Rightarrow> out_ctx" where
  "oc_updateParams params x = x\<lparr>oc_params := Some params\<rparr>"

text \<open>\<open>broadcast\<close> and its variants on an outgoing context send nothing.\<close>

definition oc_sendTo :: "receivers \<Rightarrow> string \<Rightarrow> obj \<Rightarrow> out_ctx \<Rightarrow> out_ctx" where
  "oc_sendTo recipient event payload x = x"

subsection \<open>The chain\<close>

text \<open>
  A handler is code that reads the context and calls its methods; when its promise is fulfilled
  or rejected, what counts is the calls it made, and the promise may never settle
  (\<^term>\<open>None\<close>). The functions of the chain are asynchronous, and each is awaited.
\<close>

datatype out_call = Block | Transform obj | Update_Params event_params

fun oc_call :: "out_call \<Rightarrow> out_ctx \<Rightarrow> out_ctx" where
  "oc_call Block x = oc_block x"
| "oc_call (Transform payload) x = oc_transform payload x"
| "oc_call (Update_Params params) x = oc_updateParams params x"

type_synonym out_code = "out_ctx \<Rightarrow> (out_call list \<times> exn option) option"

type_synonym out_handler = "pond_path \<times> out_code"

definition handleOutgoingEvent :: "pond_path \<Rightarrow> out_code \<Rightarrow> out_handler list \<Rightarrow> out_handler list res" where
  "handleOutgoingEvent event handler handlers =
     (case event of
        Pattern p \<Rightarrow> res_bind (compilePondRoute p) (\<lambda>_. Inr (handlers @ [(event, handler)]))
      | Reg_Exp _ _ \<Rightarrow> Inr (handlers @ [(event, handler)]))"

text \<open>\<open>runAsync\<close>, with the final function that blocks the context on an error.\<close>

definition out_final :: "exn option \<Rightarrow> out_ctx \<Rightarrow> out_ctx" where
  "out_final err x = (if err = None then x else oc_block x)"

fun run_async :: "out_handler list \<Rightarrow> string \<Rightarrow> out_ctx \<Rightarrow> out_ctx option" where
  "run_async [] name x = Some (out_final None x)"
| "run_async ((path, handler) # rest) name x =
     (case parseAddress path name of
        Inl e \<Rightarrow> Some (out_final (Some (handleError e)) x)
      | Inr None \<Rightarrow> run_async rest name x
      | Inr (Some params) \<Rightarrow>
          if oc_blocked x then run_async rest name x
          else (let typed = oc_updateParams params x in
                case handler typed of
                  None \<Rightarrow> None
                | Some (calls, None) \<Rightarrow> Some (fold oc_call calls typed)
                | Some (calls, Some e) \<Rightarrow> Some (out_final (Some (handleError e)) (fold oc_call calls typed))))"

text \<open>
  What the subscriber of a user gets: the event to send, nothing when it is blocked, or an
  exception; \<^term>\<open>None\<close> when a handler never ends.
\<close>

definition processOutgoingEvents ::
    "out_handler list \<Rightarrow> channel_event \<Rightarrow> nat \<Rightarrow> string \<Rightarrow> channel_event option res option" where
  "processOutgoingEvents handlers event engine userId =
     (case parseAddress (Pattern ''*'') (ce_event event) of
        Inl e \<Rightarrow> Some (Inl e)
      | Inr params \<Rightarrow>
          (case run_async handlers (ce_event event) (new_out_ctx event params engine userId) of
             None \<Rightarrow> None
           | Some x \<Rightarrow> Some
               (if oc_blocked x then Inr None
                else res_bind (oc_get_event x) (\<lambda>(name, _).
                  Inr (Some (event\<lparr>ce_payload := oc_payload x, ce_event := name\<rparr>))))))"

text \<open>
  A task of the event loop ends: the observer of a user sends what the chain gave. (An exception
  rejects the observer's promise, and nothing is sent.)
\<close>

definition finish_task :: "out_handler list list \<Rightarrow> nat \<Rightarrow> server \<Rightarrow> server" where
  "finish_task outs t sv =
     (let task = sv_tasks sv ! t;
          sv1 = sv\<lparr>sv_tasks := take t (sv_tasks sv) @ drop (Suc t) (sv_tasks sv)\<rparr>
      in case processOutgoingEvents (outs ! lobby_of (ot_engine task) sv) (ot_event task) (ot_engine task) (ot_user task) of
           Some (Inr (Some event)) \<Rightarrow> ep_sendMessage (ot_conn task) event sv1
         | Some _ \<Rightarrow> sv1
         | None \<Rightarrow> sv)"

subsection \<open>The pattern of every event\<close>

lemma first_some_none: "(\<And>x. x \<in> set xs \<Longrightarrow> f x = None) \<Longrightarrow> first_some f xs = None"
  by (induction xs) auto

lemma star_rx: "rx_exec [R_All] s = (if dot_span s = length s then Some [s] else None)"
proof (cases "dot_span s = length s")
  case True
  have "rev [0..<Suc (length s)] = length s # rev [0..<length s]" by simp
  then show ?thesis using True by simp
next
  case False
  have "dot_span s < length s"
    using False dot_span_le by (metis le_neq_implies_less)
  then show ?thesis
    using False by (auto intro!: first_some_none)
qed

definition on_one_line :: "string \<Rightarrow> bool" where
  "on_one_line name \<longleftrightarrow> no_line_terminator (hd (js_split CHR ''?'' name))"

lemma compile_star: "compilePondRoute ''*'' = Inr \<lparr>cr_keys = [''*''], cr_regexp = [R_All], cr_route = ''*''\<rparr>"
  by code_simp

lemma star_address:
  "on_one_line name \<Longrightarrow> \<exists>params. parseAddress (Pattern ''*'') name = Inr (Some params)"
  "\<not> on_one_line name \<Longrightarrow> parseAddress (Pattern ''*'') name = Inr None"
  by (simp_all add: parseAddress_def parsePondRoute_def compile_star star_rx on_one_line_def no_line_terminator_def
      Let_def del: rx_exec.simps)

subsection \<open>What a chain does to an event\<close>

definition last_payload :: "out_call list \<Rightarrow> obj \<Rightarrow> obj" where
  "last_payload calls payload = fold (\<lambda>call p. case call of Transform q \<Rightarrow> q | _ \<Rightarrow> p) calls payload"

lemma fold_calls:
  "oc_event (fold oc_call calls x) = oc_event x" "oc_payload (fold oc_call calls x) = last_payload calls (oc_payload x)"
  "oc_blocked (fold oc_call calls x) \<longleftrightarrow> oc_blocked x \<or> Block \<in> set calls"
  "oc_params x \<noteq> None \<Longrightarrow> oc_params (fold oc_call calls x) \<noteq> None"
proof (induction calls arbitrary: x)
  case (Cons call calls)
  {
    case 1 show ?case using Cons.IH(1) by (cases call) (simp_all add: oc_block_def oc_transform_def oc_updateParams_def)
  next
    case 2 show ?case
      using Cons.IH(2) by (cases call) (simp_all add: oc_block_def oc_transform_def oc_updateParams_def last_payload_def)
  next
    case 3 show ?case
      using Cons.IH(3) by (cases call) (auto simp: oc_block_def oc_transform_def oc_updateParams_def)
  next
    case 4 then show ?case
      using Cons.IH(4) by (cases call) (simp_all add: oc_block_def oc_transform_def oc_updateParams_def)
  }
qed (simp_all add: last_payload_def)

lemma run_async_prefix:
  assumes "\<forall>(path, handler) \<in> set pre. parseAddress path name = Inr None"
  shows "run_async (pre @ rest) name x = run_async rest name x"
  using assms by (induction pre) auto

text \<open>
  C34. The first outgoing handler whose pattern matches an event decides alone: the event is
  dropped when the handler blocks it or fails, and otherwise goes out with its name and the
  handler's last payload; the handlers behind it do not see it. An event that no handler
  matches goes out as it is, unless its name has a line terminator: then reading the context's
  event throws, and the event is lost.
\<close>

theorem outgoing_chain:
  assumes pre: "\<forall>(path, handler) \<in> set pre. parseAddress path (ce_event ev) = Inr None"
    and match: "parseAddress path (ce_event ev) = Inr (Some params)"
  shows "processOutgoingEvents pre ev i u =
      Some (if on_one_line (ce_event ev) then Inr (Some ev)
            else Inl (Plain_Error ''Cannot read properties of null''))
    \<and> (\<exists>p. processOutgoingEvents (pre @ (path, handler) # post) ev i u =
        (case handler (oc_updateParams params (new_out_ctx ev p i u)) of
           None \<Rightarrow> None
         | Some (calls, failed) \<Rightarrow> Some (Inr
             (if failed \<noteq> None \<or> Block \<in> set calls then None
              else Some (ev\<lparr>ce_payload := last_payload calls (ce_payload ev)\<rparr>)))))"
proof
  obtain p where star: "parseAddress (Pattern ''*'') (ce_event ev) = Inr p" "on_one_line (ce_event ev) \<longleftrightarrow> p \<noteq> None"
    using star_address [of "ce_event ev"] by (cases "on_one_line (ce_event ev)") auto
  show "processOutgoingEvents pre ev i u =
      Some (if on_one_line (ce_event ev) then Inr (Some ev)
            else Inl (Plain_Error ''Cannot read properties of null''))"
    using run_async_prefix [OF pre, of "[]"] star
    by (auto simp: processOutgoingEvents_def new_out_ctx_def out_final_def oc_get_event_def res_bind_def)
  let ?x = "oc_updateParams params (new_out_ctx ev p i u)"
  have ctx: "oc_params ?x \<noteq> None" "oc_event ?x = ce_event ev" "oc_payload ?x = ce_payload ev" "\<not> oc_blocked ?x"
      "\<not> oc_blocked (new_out_ctx ev p i u)"
    by (simp_all add: oc_updateParams_def new_out_ctx_def)
  have "oc_get_event (fold oc_call calls ?x) =
      Inr (ce_event ev, the (oc_params (fold oc_call calls ?x)), oc_action (fold oc_call calls ?x),
        last_payload calls (ce_payload ev))" for calls
    using fold_calls(4) [OF ctx(1), of calls] by (auto simp: oc_get_event_def fold_calls ctx split: option.split)
  then show "\<exists>p. processOutgoingEvents (pre @ (path, handler) # post) ev i u =
        (case handler (oc_updateParams params (new_out_ctx ev p i u)) of
           None \<Rightarrow> None
         | Some (calls, failed) \<Rightarrow> Some (Inr
             (if failed \<noteq> None \<or> Block \<in> set calls then None
              else Some (ev\<lparr>ce_payload := last_payload calls (ce_payload ev)\<rparr>))))"
    using ctx by (intro exI [of _ p])
      (auto simp: processOutgoingEvents_def star run_async_prefix [OF pre] match Let_def out_final_def oc_block_def
        fold_calls res_bind_def split: option.split)
qed

theorem outgoing_chain_witness:
  "processOutgoingEvents [] \<lparr>ce_action = A_BROADCAST, ce_event = ''a'' @ [CHR 0x0A], ce_channel = ''c'', ce_request = ''r'',
       ce_payload = []\<rparr> 0 ''ann'' = Some (Inl (Plain_Error ''Cannot read properties of null''))
   \<and> processOutgoingEvents [(Reg_Exp ''/.*/s'' (\<lambda>s. True), \<lambda>x. Some ([Transform [(''n'', JNum 1)]], None))]
       \<lparr>ce_action = A_BROADCAST, ce_event = ''a'' @ [CHR 0x0A], ce_channel = ''c'', ce_request = ''r'', ce_payload = []\<rparr>
       0 ''ann''
     = Some (Inr (Some \<lparr>ce_action = A_BROADCAST, ce_event = ''a'' @ [CHR 0x0A], ce_channel = ''c'', ce_request = ''r'',
         ce_payload = [(''n'', JNum 1)]\<rparr>))"
  using outgoing_chain [of "[]" "\<lparr>ce_action = A_BROADCAST, ce_event = ''a'' @ [CHR 0x0A], ce_channel = ''c'',
      ce_request = ''r'', ce_payload = []\<rparr>" "Reg_Exp ''/.*/s'' (\<lambda>s. True)" "\<lparr>ep_params = [], ep_query = []\<rparr>" 0 "''ann''"
      "\<lambda>x. Some ([Transform [(''n'', JNum 1)]], None)" "[]"]
  by (simp add: parseAddress_def last_payload_def on_one_line_def no_line_terminator_def)

end
