(* ===== verification/Pond_Server.thy ===== *)
theory Pond_Server
  imports Endpoint Text
begin

text \<open>
  The server (\<open>core/src/server/server.ts\<close>) with its endpoints, and the context of a connection
  request (\<open>core/src/contexts/connectionContext.ts\<close>). The HTTP and WebSocket libraries are
  outside: what is written to a raw socket, which upgrades were asked for and which sockets were
  pinged or terminated are fields of the state, and the library's callbacks are operations.
\<close>

subsection \<open>State\<close>

record conn_context =
  cx_client :: string
  cx_endpoint :: nat
  cx_http :: nat
  cx_request :: string
  cx_params :: event_params
  cx_cookies :: "string jmap"
  cx_address :: string
  cx_assigns :: obj
  cx_executed :: bool
  cx_delegated :: bool

text \<open>\<open>isAlive\<close> of a WebSocket is undefined until its first ping or pong.\<close>

record pond =
  pd_exclusive :: bool
  pd_backend :: "nat option"
  pd_max :: nat
  pd_random :: "nat \<Rightarrow> nat \<Rightarrow> nat \<Rightarrow> string"
  pd_endpoints :: "server list"
  pd_contexts :: "conn_context list"
  pd_http :: "(nat \<times> string) list"
  pd_upgrades :: "nat list"
  pd_clients :: "(nat \<times> bool option) list"
  pd_pings :: "nat list"
  pd_terminated :: "nat list"
  pd_timer :: bool
  pd_backend_error :: "string option"
  pd_server_error :: "string option"
  pd_shutdown :: bool
  pd_listening :: bool

text \<open>The constructor starts the heartbeat and listens for upgrades.\<close>

definition new_pond :: "bool \<Rightarrow> nat option \<Rightarrow> nat \<Rightarrow> (nat \<Rightarrow> nat \<Rightarrow> nat \<Rightarrow> string) \<Rightarrow> pond" where
  "new_pond exclusiveServer backend maxMessageSize random =
     \<lparr>pd_exclusive = exclusiveServer, pd_backend = backend, pd_max = maxMessageSize, pd_random = random,
      pd_endpoints = [], pd_contexts = [], pd_http = [], pd_upgrades = [], pd_clients = [], pd_pings = [],
      pd_terminated = [], pd_timer = True, pd_backend_error = None, pd_server_error = None,
      pd_shutdown = False, pd_listening = True\<rparr>"

definition on_endpoint :: "nat \<Rightarrow> (server \<Rightarrow> server) \<Rightarrow> pond \<Rightarrow> pond" where
  "on_endpoint e f pd = pd\<lparr>pd_endpoints := (pd_endpoints pd)[e := f (pd_endpoints pd ! e)]\<rparr>"

definition upd_context :: "nat \<Rightarrow> (conn_context \<Rightarrow> conn_context) \<Rightarrow> pond \<Rightarrow> pond" where
  "upd_context c f pd = pd\<lparr>pd_contexts := (pd_contexts pd)[c := f (pd_contexts pd ! c)]\<rparr>"

text \<open>A raw socket is written to and destroyed.\<close>

definition http_answer :: "nat \<Rightarrow> nat \<Rightarrow> string \<Rightarrow> pond \<Rightarrow> pond" where
  "http_answer http code message pd =
     pd\<lparr>pd_http := pd_http pd @ [(http, ''HTTP/1.1 '' @ nat_text code @ '' '' @ message
       @ [CHR 0x0D, CHR 0x0A, CHR 0x0D, CHR 0x0A])]\<rparr>"

subsection \<open>Connection contexts\<close>

definition cx_performChecks :: "nat \<Rightarrow> pond \<Rightarrow> pond \<times> exn option" where
  "cx_performChecks c pd =
     (if cx_executed (pd_contexts pd ! c) then (pd, Some (Http_Error 400 ''Response has already been executed''))
      else (upd_context c (\<lambda>x. x\<lparr>cx_executed := True\<rparr>) pd, None))"

definition cx_assign :: "nat \<Rightarrow> obj \<Rightarrow> pond \<Rightarrow> pond \<times> exn option" where
  "cx_assign c assigns pd =
     (let x = pd_contexts pd ! c in
      if \<not> cx_executed x then (upd_context c (\<lambda>x. x\<lparr>cx_assigns := obj_merge (cx_assigns x) assigns\<rparr>) pd, None)
      else (case ep_getUser (cx_client x) (pd_endpoints pd ! cx_endpoint x) of
          Inl e \<Rightarrow> (pd, Some e)
        | Inr k \<Rightarrow> (on_endpoint (cx_endpoint x)
            (upd_cache k (\<lambda>user. user\<lparr>sc_assigns := obj_merge (sc_assigns user) assigns\<rparr>)) pd, None)))"

definition cx_accept :: "nat \<Rightarrow> obj option \<Rightarrow> pond \<Rightarrow> pond \<times> exn option" where
  "cx_accept c assigns pd =
     (case (case assigns of Some a \<Rightarrow> cx_assign c a pd | None \<Rightarrow> (pd, None)) of
        (pd1, Some e) \<Rightarrow> (pd1, Some e)
      | (pd1, None) \<Rightarrow>
          (case cx_performChecks c pd1 of
             (pd2, Some e) \<Rightarrow> (pd2, Some e)
           | (pd2, None) \<Rightarrow> (pd2\<lparr>pd_upgrades := pd_upgrades pd2 @ [c]\<rparr>, None)))"

text \<open>The callback of the upgrade, with the new WebSocket: it is open and answers pings from now on.\<close>

definition cx_upgraded :: "nat \<Rightarrow> nat \<Rightarrow> string \<Rightarrow> pond \<Rightarrow> pond" where
  "cx_upgraded c ws uuid pd =
     (let x = pd_contexts pd ! c
      in on_endpoint (cx_endpoint x)
           (\<lambda>sv. snd (ep_manageSocket (cx_client x) ws (cx_assigns x) uuid (sv\<lparr>sv_open := ws # sv_open sv\<rparr>)))
           (pd\<lparr>pd_upgrades := js_remove c (pd_upgrades pd), pd_clients := pd_clients pd @ [(ws, None)]\<rparr>))"

definition cx_decline :: "nat \<Rightarrow> string option \<Rightarrow> nat option \<Rightarrow> pond \<Rightarrow> pond \<times> exn option" where
  "cx_decline c message errorCode pd =
     (case cx_performChecks c pd of
        (pd1, Some e) \<Rightarrow> (pd1, Some e)
      | (pd1, None) \<Rightarrow>
          (http_answer (cx_http (pd_contexts pd ! c))
             (case errorCode of Some n \<Rightarrow> if n = 0 then 400 else n | None \<Rightarrow> 400)
             (case message of Some s \<Rightarrow> if s = [] then ''Unauthorized connection'' else s
                | None \<Rightarrow> ''Unauthorized connection'') pd1, None))"

definition cx_reply :: "nat \<Rightarrow> string \<Rightarrow> obj \<Rightarrow> pond \<Rightarrow> pond \<times> exn option" where
  "cx_reply c event payload pd =
     (let x = pd_contexts pd ! c; sv = pd_endpoints pd ! cx_endpoint x in
      if \<not> cx_executed x then (pd, Some (Http_Error 400 ''Connection has not been accepted''))
      else (case ep_getUser (cx_client x) sv of
          Inl e \<Rightarrow> (pd, Some e)
        | Inr k \<Rightarrow> (on_endpoint (cx_endpoint x) (ep_sendMessage (sc_socket (sv_caches sv ! k))
            \<lparr>ce_action = A_BROADCAST, ce_event = event, ce_channel = SYSTEM_ENDPOINT,
             ce_request = cx_request x, ce_payload = payload\<rparr>) pd, None)))"

definition cx_event :: "conn_context \<Rightarrow> event_params" where
  "cx_event x = cx_params x"

definition cx_hasResponded :: "nat \<Rightarrow> pond \<Rightarrow> bool" where
  "cx_hasResponded c pd = cx_executed (pd_contexts pd ! c)"

subsection \<open>Endpoints and upgrades\<close>

text \<open>The request of an upgrade: a fresh client and request id, the raw socket, the URL and the cookie header.\<close>

record upgrade_request =
  ur_client :: string
  ur_request :: string
  ur_http :: nat
  ur_url :: string
  ur_cookie :: "string option"

text \<open>A connection handler is registered with its path and given the index of its context.\<close>

type_synonym conn_handler = "pond_path \<times> (nat \<Rightarrow> pond mw_prog)"

definition pd_createEndpoint ::
    "pond_path \<Rightarrow> (nat \<Rightarrow> pond mw_prog) \<Rightarrow> conn_handler list \<Rightarrow> pond \<Rightarrow> (conn_handler list \<times> pond) res" where
  "pd_createEndpoint path handler handlers pd =
     res_bind (case path of Pattern p \<Rightarrow> res_bind (compilePondRoute p) (\<lambda>_. Inr ()) | Reg_Exp _ _ \<Rightarrow> Inr ()) (\<lambda>_.
     Inr (handlers @ [(path, handler)],
       pd\<lparr>pd_endpoints := pd_endpoints pd @
         [new_endpoint (path_text path) (pd_backend pd) (pd_max pd) (pd_random pd (length (pd_endpoints pd)))]\<rparr>))"

definition cx_unanswered :: "nat \<Rightarrow> pond mw_prog" where
  "cx_unanswered c = Act (\<lambda>pd.
     if cx_delegated (pd_contexts pd ! c) \<or> cx_executed (pd_contexts pd ! c) then (pd, Done)
     else (case cx_decline c (Some ''Connection handler completed without accepting or declining the request'')
         (Some 500) pd of
        (pd', None) \<Rightarrow> (pd', Done)
      | (pd', Some e) \<Rightarrow> (pd', Throw e)))"

definition new_conn_context :: "upgrade_request \<Rightarrow> event_params \<Rightarrow> nat \<Rightarrow> conn_context" where
  "new_conn_context req params e =
     \<lparr>cx_client = ur_client req, cx_endpoint = e, cx_http = ur_http req, cx_request = ur_request req,
      cx_params = params, cx_cookies = getCookies (ur_cookie req), cx_address = ur_url req, cx_assigns = [],
      cx_executed = False, cx_delegated = False\<rparr>"

definition connection_function :: "conn_handler \<times> nat \<Rightarrow> upgrade_request \<Rightarrow> unit \<Rightarrow> pond mw_prog" where
  "connection_function he req x =
     (case he of ((path, handler), e) \<Rightarrow>
        case parseAddress path (ur_url req) of
          Inl err \<Rightarrow> Throw err
        | Inr None \<Rightarrow> pass_on
        | Inr (Some params) \<Rightarrow>
            Act (\<lambda>pd. let c = length (pd_contexts pd) in
              (pd\<lparr>pd_contexts := pd_contexts pd @ [new_conn_context req params e]\<rparr>,
               guard_prog (upd_context c (\<lambda>x. x\<lparr>cx_delegated := True\<rparr>)) (cx_unanswered c) (handler c))))"

definition upgrade_final :: "upgrade_request \<Rightarrow> exn option \<Rightarrow> pond \<Rightarrow> pond \<times> exn option" where
  "upgrade_final req err pd =
     (case err of
        Some e \<Rightarrow>
          (let (code, message) = (case e of Http_Error code m \<Rightarrow> (code, m) | Plain_Error m \<Rightarrow> (0, m) | Not_An_Error \<Rightarrow> (0, []))
           in (http_answer (ur_http req) (if code = 0 then 400 else code)
                (if message = [] then ''Unauthorized connection'' else message) pd, None))
      | None \<Rightarrow> (if pd_exclusive pd then http_answer (ur_http req) 404 ''Not Found'' pd else pd, None))"

definition pd_handleUpgrade :: "conn_handler list \<Rightarrow> upgrade_request \<Rightarrow> pond \<Rightarrow> pond mw_run \<times> exn option" where
  "pd_handleUpgrade handlers req pd =
     mw_run (map connection_function (zip handlers [0..<length handlers])) req () (upgrade_final req) pd"

subsection \<open>Heartbeat\<close>

definition pd_pong :: "nat \<Rightarrow> pond \<Rightarrow> pond" where
  "pd_pong ws pd = pd\<lparr>pd_clients := map (\<lambda>(s, alive). (s, if s = ws then Some True else alive)) (pd_clients pd)\<rparr>"

definition pd_tick :: "pond \<Rightarrow> pond" where
  "pd_tick pd =
     pd\<lparr>pd_clients := map (\<lambda>(s, alive). (s, Some False)) (pd_clients pd),
        pd_terminated := pd_terminated pd @ map fst (filter (\<lambda>c. snd c = Some False) (pd_clients pd)),
        pd_pings := pd_pings pd @ map fst (filter (\<lambda>c. snd c \<noteq> Some False) (pd_clients pd))\<rparr>"

text \<open>The library takes a closed socket off its list.\<close>

definition pd_socket_gone :: "nat \<Rightarrow> pond \<Rightarrow> pond" where
  "pd_socket_gone ws pd = pd\<lparr>pd_clients := filter (\<lambda>c. fst c \<noteq> ws) (pd_clients pd)\<rparr>"

subsection \<open>Health and shutdown\<close>

definition pd_backend_failed :: "string \<Rightarrow> pond \<Rightarrow> pond" where
  "pd_backend_failed message pd = pd\<lparr>pd_backend_error := Some message\<rparr>"

definition pd_on_error :: "string \<Rightarrow> pond \<Rightarrow> pond" where
  "pd_on_error message pd = pd\<lparr>pd_server_error := Some message, pd_timer := False\<rparr>"

definition pd_on_close :: "pond \<Rightarrow> pond" where
  "pd_on_close pd = pd\<lparr>pd_timer := False\<rparr>"

definition pd_ready :: "pond \<Rightarrow> unit res" where
  "pd_ready pd = (case pd_backend_error pd of Some m \<Rightarrow> Inl (Plain_Error m) | None \<Rightarrow> Inr ())"

definition pd_isHealthy :: "pond \<Rightarrow> bool" where
  "pd_isHealthy pd \<longleftrightarrow> pd_backend_error pd = None \<and> pd_server_error pd = None \<and> \<not> pd_shutdown pd"

text \<open>
  \<open>closeAsync\<close> up to its first \<open>await\<close>: the timer and the upgrade handler go, and every open
  socket is closed (it cannot be written to any more). A second call changes nothing.
\<close>

definition pd_closeAsync :: "pond \<Rightarrow> pond" where
  "pd_closeAsync pd =
     (if pd_shutdown pd then pd
      else pd\<lparr>pd_shutdown := True, pd_timer := False, pd_listening := False,
        pd_endpoints := map (\<lambda>sv. sv\<lparr>sv_open := filter (\<lambda>s. s \<notin> fst ` set (pd_clients pd)) (sv_open sv)\<rparr>)
          (pd_endpoints pd)\<rparr>)"

text \<open>When the timeout strikes before all sockets are closed, those that are left are terminated.\<close>

definition pd_force_close :: "pond \<Rightarrow> pond" where
  "pd_force_close pd = pd\<lparr>pd_terminated := pd_terminated pd @ map fst (pd_clients pd)\<rparr>"

end
