(* ===== verification/Transports.thy ===== *)
theory Transports
  imports Base_Client
begin

text \<open>
  The two transports of the client: WebSockets (\<open>client/src/core/webSocketClient.ts\<close>) and
  server-sent events (\<open>client/src/browser/sseClient.ts\<close>). The browser's objects are outside: a
  socket or an event source is a number with its ready state, their callbacks and the timers
  are operations. \<open>JSON.parse\<close> is a parameter. An operation is \<^term>\<open>None\<close> when one of its
  publications would not end.
\<close>

subsection \<open>WebSockets\<close>

datatype ready_state = WS_CONNECTING | WS_OPEN | WS_CLOSING | WS_CLOSED

record ws_client = client +
  ws_socket :: "nat option"
  ws_sockets :: "ready_state list"
  ws_ping :: "nat option"
  ws_pong :: "nat option"
  ws_last :: nat
  ws_sent :: "(nat \<times> client_message) list"

definition new_ws_client :: "nat option \<Rightarrow> nat option \<Rightarrow> nat option \<Rightarrow> (nat \<Rightarrow> nat \<Rightarrow> string) \<Rightarrow> ws_client" where
  "new_ws_client joinTimeout maxReconnectDelay pingInterval random =
     client.extend (new_client joinTimeout maxReconnectDelay random)
       \<lparr>ws_socket = None, ws_sockets = [], ws_ping = pingInterval, ws_pong = None, ws_last = 0, ws_sent = []\<rparr>"

definition ws_publisher :: "client_message \<Rightarrow> ws_client \<Rightarrow> ws_client" where
  "ws_publisher message cl =
     (if getState cl = CONNECTED then
        (case ws_socket cl of
           Some s \<Rightarrow> cl\<lparr>ws_sent := ws_sent cl @ [(s, message)]\<rparr>
         | None \<Rightarrow> cl)
      else cl)"

text \<open>\<open>close\<close> of a socket starts the closing; the close event follows.\<close>

definition ws_close :: "nat \<Rightarrow> ws_client \<Rightarrow> ws_client" where
  "ws_close s cl =
     (if ws_sockets cl ! s \<in> {WS_CONNECTING, WS_OPEN}
      then cl\<lparr>ws_sockets := (ws_sockets cl)[s := WS_CLOSING]\<rparr> else cl)"

definition ws_clearPongTimeout :: "ws_client \<Rightarrow> ws_client" where
  "ws_clearPongTimeout cl = cl\<lparr>ws_pong := None\<rparr>"

definition ws_schedulePongTimeout :: "nat \<Rightarrow> ws_client \<Rightarrow> ws_client" where
  "ws_schedulePongTimeout s cl = cl\<lparr>ws_pong := Some s\<rparr>"

definition ws_connect :: "ws_client \<Rightarrow> ws_client option" where
  "ws_connect cl =
     Option.bind (publish_state ws_publisher CONNECTING ((clearReconnectTimeout cl)\<lparr>cl_disconnecting := False\<rparr>)) (\<lambda>cl1.
     let s = length (ws_sockets cl1)
     in Some ((startConnectionTimeout s (cl1\<lparr>ws_sockets := ws_sockets cl1 @ [WS_CONNECTING]\<rparr>))\<lparr>ws_socket := Some s\<rparr>))"

text \<open>The timer of the connection attempt of socket \<open>s\<close> fires.\<close>

definition ws_connection_timeout :: "nat \<Rightarrow> ws_client \<Rightarrow> ws_client" where
  "ws_connection_timeout s cl =
     (if s \<notin> set (cl_conn_timers cl) then cl
      else (let cl1 = cl\<lparr>cl_conn_timers := js_remove s (cl_conn_timers cl)\<rparr> in
        if ws_sockets cl1 ! s = WS_CONNECTING then ws_close s (cl_error ''Connection timeout'' cl1) else cl1))"

definition ws_onopen :: "nat \<Rightarrow> nat \<Rightarrow> ws_client \<Rightarrow> ws_client" where
  "ws_onopen now s cl =
     (let cl1 = (ws_clearPongTimeout (clearConnectionTimeout (cl\<lparr>ws_sockets := (ws_sockets cl)[s := WS_OPEN]\<rparr>)))
            \<lparr>cl_attempts := 0, ws_last := now\<rparr>
      in case ws_ping cl1 of
           None \<Rightarrow> cl1
         | Some p \<Rightarrow> if p = 0 then cl1 else ws_schedulePongTimeout s cl1)"

text \<open>A message that does not parse throws in the callback, and none of its events is published.\<close>

definition ws_onmessage :: "(string \<Rightarrow> json res) \<Rightarrow> nat \<Rightarrow> string \<Rightarrow> ws_client \<Rightarrow> ws_client option" where
  "ws_onmessage json_parse now data cl =
     (let cl1 = cl\<lparr>ws_last := now\<rparr> in
      case parseMessages json_parse data of
        Inl e \<Rightarrow> Some cl1
      | Inr events \<Rightarrow> broadcast_all ws_publisher events cl1)"

definition ws_onerror :: "nat \<Rightarrow> ws_client \<Rightarrow> ws_client" where
  "ws_onerror s cl = ws_close s (cl_error ''WebSocket error'' cl)"

definition ws_onclose :: "nat \<Rightarrow> ws_client \<Rightarrow> ws_client option" where
  "ws_onclose s cl =
     (let cl1 = cl\<lparr>ws_sockets := (ws_sockets cl)[s := WS_CLOSED]\<rparr> in
      if ws_socket cl1 \<noteq> Some s then Some cl1
      else map_option scheduleReconnect
        (publish_state ws_publisher DISCONNECTED (ws_clearPongTimeout (clearConnectionTimeout (cl1\<lparr>ws_socket := None\<rparr>)))))"

definition ws_pong_timeout :: "nat \<Rightarrow> ws_client \<Rightarrow> ws_client" where
  "ws_pong_timeout now cl =
     (case ws_pong cl of
        None \<Rightarrow> cl
      | Some s \<Rightarrow>
          if 2 * case_option 0 id (ws_ping cl) \<le> now - ws_last cl
          then ws_close s (cl_error ''Connection lost: no response from server'' cl)
          else ws_schedulePongTimeout s (ws_clearPongTimeout cl))"

definition ws_disconnect :: "ws_client \<Rightarrow> ws_client option" where
  "ws_disconnect cl =
     map_option (\<lambda>cl1. clearChannels ws_publisher (case ws_socket cl1 of None \<Rightarrow> cl1 | Some s \<Rightarrow> ws_close s cl1))
       (publish_state ws_publisher DISCONNECTED
          ((ws_clearPongTimeout (clearReconnectTimeout (clearConnectionTimeout cl)))\<lparr>cl_disconnecting := True\<rparr>))"

subsection \<open>Server-sent events\<close>

text \<open>
  Event sources are numbered too; closing one is silent (no event follows), and a closed one
  calls nothing any more. Messages are posted with the connection id the server gave.
\<close>

record sse_client = client +
  se_source :: "nat option"
  se_sources :: "ready_state list"
  se_connection :: "string option"
  se_posts :: "(string \<times> client_message) list"
  se_deletes :: "string list"

definition new_sse_client :: "nat option \<Rightarrow> nat option \<Rightarrow> (nat \<Rightarrow> nat \<Rightarrow> string) \<Rightarrow> sse_client" where
  "new_sse_client joinTimeout maxReconnectDelay random =
     client.extend (new_client joinTimeout maxReconnectDelay random)
       \<lparr>se_source = None, se_sources = [], se_connection = None, se_posts = [], se_deletes = []\<rparr>"

text \<open>An empty connection id counts as none.\<close>

definition se_id :: "sse_client \<Rightarrow> string option" where
  "se_id cl = (case se_connection cl of Some i \<Rightarrow> if i = [] then None else Some i | None \<Rightarrow> None)"

definition sse_publisher :: "client_message \<Rightarrow> sse_client \<Rightarrow> sse_client" where
  "sse_publisher message cl =
     (if getState cl = CONNECTED then
        (case se_id cl of
           Some i \<Rightarrow> cl\<lparr>se_posts := se_posts cl @ [(i, message)]\<rparr>
         | None \<Rightarrow> cl)
      else cl)"

text \<open>A post failed.\<close>

definition sse_post_failed :: "string \<Rightarrow> sse_client \<Rightarrow> sse_client" where
  "sse_post_failed message cl = cl_error message cl"

definition sse_close :: "nat \<Rightarrow> sse_client \<Rightarrow> sse_client" where
  "sse_close s cl = cl\<lparr>se_sources := (se_sources cl)[s := WS_CLOSED]\<rparr>"

definition sse_connect :: "sse_client \<Rightarrow> sse_client option" where
  "sse_connect cl =
     Option.bind (publish_state sse_publisher CONNECTING
         ((clearReconnectTimeout cl)\<lparr>cl_disconnecting := False, se_connection := None\<rparr>)) (\<lambda>cl1.
     let s = length (se_sources cl1)
     in Some ((startConnectionTimeout s (cl1\<lparr>se_sources := se_sources cl1 @ [WS_CONNECTING]\<rparr>))\<lparr>se_source := Some s\<rparr>))"

definition sse_connection_timeout :: "nat \<Rightarrow> sse_client \<Rightarrow> sse_client" where
  "sse_connection_timeout s cl =
     (if s \<notin> set (cl_conn_timers cl) then cl
      else (let cl1 = cl\<lparr>cl_conn_timers := js_remove s (cl_conn_timers cl)\<rparr> in
        if se_sources cl1 ! s = WS_CONNECTING then sse_close s (cl_error ''Connection timeout'' cl1) else cl1))"

definition sse_onopen :: "nat \<Rightarrow> sse_client \<Rightarrow> sse_client" where
  "sse_onopen s cl =
     (if se_sources cl ! s = WS_CLOSED then cl
      else (clearConnectionTimeout (cl\<lparr>se_sources := (se_sources cl)[s := WS_OPEN]\<rparr>))\<lparr>cl_attempts := 0\<rparr>)"

fun sse_events :: "channel_event list \<Rightarrow> sse_client \<Rightarrow> sse_client option" where
  "sse_events [] cl = Some cl"
| "sse_events (event # events) cl =
     (let cl1 = (if ce_event event = EV_CONNECTION \<and> ce_action event = A_CONNECT
                 then (case jm_get (ce_payload event) ''connectionId'' of
                         Some (JStr i) \<Rightarrow> cl\<lparr>se_connection := Some i\<rparr>
                       | _ \<Rightarrow> cl)
                 else cl)
      in Option.bind (cl_broadcast sse_publisher event cl1) (sse_events events))"

definition error_text :: "exn \<Rightarrow> string" where
  "error_text e = (case e of Http_Error code m \<Rightarrow> m | Plain_Error m \<Rightarrow> m | Not_An_Error \<Rightarrow> ''Failed to parse SSE message'')"

definition sse_onmessage :: "(string \<Rightarrow> json res) \<Rightarrow> nat \<Rightarrow> string \<Rightarrow> sse_client \<Rightarrow> sse_client option" where
  "sse_onmessage json_parse s data cl =
     (if se_sources cl ! s = WS_CLOSED then Some cl
      else case parseMessages json_parse data of
        Inl e \<Rightarrow> Some (cl_error (error_text e) cl)
      | Inr events \<Rightarrow> sse_events events cl)"

definition sse_onerror :: "nat \<Rightarrow> sse_client \<Rightarrow> sse_client option" where
  "sse_onerror s cl =
     (if se_sources cl ! s = WS_CLOSED \<or> se_source cl \<noteq> Some s then Some cl
      else map_option scheduleReconnect
        (publish_state sse_publisher DISCONNECTED
           (clearConnectionTimeout ((sse_close s (cl_error ''SSE connection error'' cl))\<lparr>se_source := None\<rparr>))))"

definition sse_disconnect :: "sse_client \<Rightarrow> sse_client option" where
  "sse_disconnect cl =
     map_option (\<lambda>cl1.
         let cl2 = (case se_id cl1 of Some i \<Rightarrow> cl1\<lparr>se_deletes := se_deletes cl1 @ [i]\<rparr> | None \<Rightarrow> cl1);
             cl3 = (case se_source cl2 of None \<Rightarrow> cl2 | Some s \<Rightarrow> sse_close s cl2)
         in clearChannels sse_publisher (cl3\<lparr>se_source := None, se_connection := None\<rparr>))
       (publish_state sse_publisher DISCONNECTED
          ((clearReconnectTimeout (clearConnectionTimeout cl))\<lparr>cl_disconnecting := True\<rparr>))"

end
