(* ===== verification/Client_Props.thy ===== *)
theory Client_Props
  imports Transports Client_Channel_Props
begin

text \<open>
  Guarantees of the client as a whole: its publications end although observers subscribe and
  unsubscribe while they run, the delays before reconnecting are bounded, and what becomes of a
  connection attempt that times out.
\<close>

subsection \<open>Publications end\<close>

text \<open>What the subjects of a client look like: its own observer is the first of the broadcaster.\<close>

definition subjects_ok :: "'a client_scheme \<Rightarrow> bool" where
  "subjects_ok cl \<longleftrightarrow> (\<exists>es. sj_entries (cl_broadcaster cl) = (0, Base) # es
     \<and> (\<forall>e \<in> set es. snd e \<noteq> Base \<and> 0 < fst e) \<and> 0 < sj_next (cl_broadcaster cl))"

fun subscribes :: "cc_eff \<Rightarrow> bool" where
  "subscribes (Watch n) = True"
| "subscribes (Unwatch n) = True"
| "subscribes Wait_Connected = True"
| "subscribes _ = False"

text \<open>The reconnection timer and what it depends on.\<close>

definition timers :: "'a client_scheme \<Rightarrow> nat option \<times> bool \<times> nat" where
  "timers cl = (cl_reconnect cl, cl_disconnecting cl, cl_max_delay cl)"

text \<open>What sends a message leaves the subjects and the timers alone.\<close>

locale message_publisher =
  fixes pub :: "client_message \<Rightarrow> 'a client_scheme \<Rightarrow> 'a client_scheme"
  assumes pub_broadcaster: "cl_broadcaster (pub m cl) = cl_broadcaster cl"
    and pub_state: "cl_state (pub m cl) = cl_state cl"
    and pub_timers: "timers (pub m cl) = timers cl"
begin

lemma eff_timers: "timers (run_cc_eff pub i e cl) = timers cl"
  by (cases e) (simp_all add: pub_timers, simp_all add: timers_def on_state_subject_def)

lemma effs_timers: "timers (fold (run_cc_eff pub i) es cl) = timers cl"
  by (induction es arbitrary: cl) (simp_all add: eff_timers)

lemma with_timers [simp]: "timers (with_cchan pub i f cl) = timers cl"
  by (simp add: with_cchan_def Let_def effs_timers) (simp add: timers_def)

lemma state_call_timers: "timers (state_call pub obs s cl) = timers cl"
  by (simp add: state_call_def split: state_observer.split)

lemma eff_subjects: "subjects_ok cl \<Longrightarrow> subjects_ok (run_cc_eff pub i e cl)"
  by (cases e) (auto simp: subjects_ok_def pub_broadcaster on_state_subject_def watch_def sj_subscribe_def
      sj_unsubscribe_def split: if_splits)

lemma effs_subjects: "subjects_ok cl \<Longrightarrow> subjects_ok (fold (run_cc_eff pub i) es cl)"
  by (induction es arbitrary: cl) (simp_all add: eff_subjects)

lemma with_subjects: "subjects_ok cl \<Longrightarrow> subjects_ok (with_cchan pub i f cl)"
  unfolding with_cchan_def Let_def by (rule effs_subjects) (simp add: subjects_ok_def)

text \<open>Effects that do not subscribe leave the broadcaster and take state observers away at most.\<close>

lemma effs_shrink:
  assumes "\<forall>e \<in> set es. \<not> subscribes e"
  shows "cl_broadcaster (fold (run_cc_eff pub i) es cl) = cl_broadcaster cl
    \<and> set (sj_entries (bs_subject (cl_state (fold (run_cc_eff pub i) es cl)))) \<subseteq> set (sj_entries (bs_subject (cl_state cl)))"
  using assms
proof (induction es arbitrary: cl)
  case (Cons e es)
  have "cl_broadcaster (run_cc_eff pub i e cl) = cl_broadcaster cl
    \<and> set (sj_entries (bs_subject (cl_state (run_cc_eff pub i e cl)))) \<subseteq> set (sj_entries (bs_subject (cl_state cl)))"
    using Cons.prems by (cases e) (auto simp: pub_broadcaster pub_state on_state_subject_def sj_unsubscribe_def)
  then show ?case using Cons.IH [of "run_cc_eff pub i e cl"] Cons.prems by fastforce
qed simp

lemma with_shrink:
  assumes "cc_log (f (cl_chans cl ! i)) = cc_log (cl_chans cl ! i) @ es" "\<forall>e \<in> set es. \<not> subscribes e"
  shows "cl_broadcaster (with_cchan pub i f cl) = cl_broadcaster cl
    \<and> set (sj_entries (bs_subject (cl_state (with_cchan pub i f cl)))) \<subseteq> set (sj_entries (bs_subject (cl_state cl)))"
  using effs_shrink [OF assms(2), of i "cl\<lparr>cl_chans := (cl_chans cl)[i := f (cl_chans cl ! i)]\<rparr>"] assms(1)
  by (simp add: with_cchan_def Let_def)

lemma state_call_shrinks:
  "cl_broadcaster (state_call pub obs s cl) = cl_broadcaster cl
    \<and> set (sj_entries (bs_subject (cl_state (state_call pub obs s cl)))) \<subseteq> set (sj_entries (bs_subject (cl_state cl)))"
proof -
  have wait: "\<exists>es. cc_log (cc_on_wait s c) = cc_log c @ es \<and> (\<forall>e \<in> set es. \<not> subscribes e)" for c
    by (auto simp: cc_on_wait_def Let_def sendJoinRequest_def cc_frame)
  have state: "\<exists>es. cc_log (cc_on_state s c) = cc_log c @ es \<and> (\<forall>e \<in> set es. \<not> subscribes e)" for c
    by (auto simp: cc_on_state_def Let_def sendJoinRequest_def cc_frame)
  show ?thesis
  proof (cases obs)
    case (Waiter i)
    obtain es where "cc_log (cc_on_wait s (cl_chans cl ! i)) = cc_log (cl_chans cl ! i) @ es" "\<forall>e \<in> set es. \<not> subscribes e"
      using wait by blast
    then show ?thesis unfolding state_call_def Waiter by (simp add: with_shrink)
  next
    case (Watcher i n)
    obtain es where "cc_log (cc_on_state s (cl_chans cl ! i)) = cc_log (cl_chans cl ! i) @ es" "\<forall>e \<in> set es. \<not> subscribes e"
      using state by blast
    then show ?thesis unfolding state_call_def Watcher by (simp add: with_shrink)
  qed
qed

lemma publish_state_ends:
  "\<exists>cl'. publish_state pub s cl = Some cl' \<and> cl_broadcaster cl' = cl_broadcaster cl \<and> timers cl' = timers cl"
  unfolding publish_state_def bs_publish_def sj_publish_def
  by (rule publish_from_ends [where m = 0])
    (simp_all add: notifyObserver_def state_call_shrinks state_call_timers, simp add: timers_def)

lemma publish_state_unwatched:
  "sj_entries (bs_subject (cl_state cl)) = [] \<Longrightarrow>
    publish_state pub s cl = Some (cl\<lparr>cl_state := (cl_state cl)\<lparr>bs_last := Some s\<rparr>\<rparr>)"
  by (simp add: publish_state_def bs_publish_def sj_publish_def publish_from.simps next_entry_def)

lemma receive_shrinks: "cl_broadcaster (with_cchan pub i (cc_receive ev) cl) = cl_broadcaster cl"
proof -
  have "\<exists>es. cc_log (cc_receive ev c) = cc_log c @ es \<and> (\<forall>e \<in> set es. \<not> subscribes e)" for c
    by (auto simp: cc_receive_def Let_def cc_emit_def)
  then obtain es where "cc_log (cc_receive ev (cl_chans cl ! i)) = cc_log (cl_chans cl ! i) @ es"
      "\<forall>e \<in> set es. \<not> subscribes e" by blast
  then show ?thesis by (simp add: with_shrink)
qed

lemma base_call_ends:
  assumes "subjects_ok cl"
  shows "\<exists>cl'. base_call pub ev cl = Some cl' \<and> subjects_ok cl' \<and> timers cl' = timers cl"
proof -
  obtain cl' where "publish_state pub CONNECTED cl = Some cl'" "cl_broadcaster cl' = cl_broadcaster cl"
      "timers cl' = timers cl"
    using publish_state_ends by blast
  then show ?thesis
    using assms with_subjects [OF assms]
    by (auto simp: base_call_def handleAcknowledge_def cl_handleError_def subjects_ok_def [of cl] subjects_ok_def [of cl']
        split: option.split)
qed

lemma broadcast_ends:
  assumes ok: "subjects_ok cl"
  shows "\<exists>cl'. cl_broadcast pub ev cl = Some cl' \<and> subjects_ok cl' \<and> timers cl' = timers cl"
proof -
  let ?get = "\<lambda>st. case st of None \<Rightarrow> sj_new | Some cl \<Rightarrow> cl_broadcaster cl"
  let ?notify = "\<lambda>observer st. notifyObserver (\<lambda>observer message st. (Option.bind st (broadcast_call pub observer message), None))
     (\<lambda>e observer st. st) observer ev st"
  obtain es where es: "sj_entries (cl_broadcaster cl) = (0, Base) # es" using ok by (auto simp: subjects_ok_def)
  obtain cl1 where cl1: "base_call pub ev cl = Some cl1" "subjects_ok cl1" "timers cl1 = timers cl" using base_call_ends [OF ok] by blast
  have first: "publish_from ?get ?notify 0 (Some cl) = publish_from ?get ?notify (Suc 0) (Some cl1)"
    by (subst publish_from.simps)
      (simp add: next_entry_def es notifyObserver_def broadcast_call_def cl1)
  let ?I = "\<lambda>st :: 'a client_scheme option. \<exists>cl'. st = Some cl' \<and> cl_broadcaster cl' = cl_broadcaster cl1 \<and> timers cl' = timers cl1"
  have "\<exists>st. publish_from ?get ?notify (Suc 0) (Some cl1) = Some st \<and> ?I st"
  proof (rule publish_from_ends [where m = "Suc 0"])
    fix e and st :: "'a client_scheme option"
    assume I: "?I st" and e: "e \<in> set (sj_entries (?get st))" "Suc 0 \<le> fst e"
    then obtain cl' where st: "st = Some cl'" "cl_broadcaster cl' = cl_broadcaster cl1" "timers cl' = timers cl1" by blast
    with e cl1(2) obtain i n where "snd e = Listener i n"
      by (cases "snd e") (auto simp: subjects_ok_def)
    then show "?I (?notify (snd e) st) \<and> set (sj_entries (?get (?notify (snd e) st))) \<subseteq> set (sj_entries (?get st))"
      using st by (simp add: notifyObserver_def broadcast_call_def receive_shrinks)
  qed simp_all
  then obtain cl2 where "publish_from ?get ?notify 0 (Some cl) = Some (Some cl2)" "cl_broadcaster cl2 = cl_broadcaster cl1"
      "timers cl2 = timers cl1"
    unfolding first by blast
  then show ?thesis
    using cl1(2,3) by (intro exI [of _ cl2]) (simp add: cl_broadcast_def sj_publish_def subjects_ok_def)
qed

lemma broadcast_all_ends: "subjects_ok cl \<Longrightarrow> \<exists>cl'. broadcast_all pub evs cl = Some cl' \<and> subjects_ok cl' \<and> timers cl' = timers cl"
proof (induction evs arbitrary: cl)
  case (Cons ev evs)
  obtain cl1 where "cl_broadcast pub ev cl = Some cl1" "subjects_ok cl1" "timers cl1 = timers cl"
    using broadcast_ends [OF Cons.prems] by blast
  then show ?case using Cons.IH [of cl1] by simp
qed simp

lemma clear_timers [simp]: "timers (clearChannels pub cl) = timers cl"
proof -
  have "timers (fold (\<lambda>i. with_cchan pub i cc_leave) is cl) = timers cl" for "is"
    by (induction "is" arbitrary: cl) simp_all
  then show ?thesis by (simp add: clearChannels_def) (simp add: timers_def)
qed

lemma clear_subjects: "subjects_ok cl \<Longrightarrow> subjects_ok (clearChannels pub cl)"
proof -
  assume "subjects_ok cl"
  then have "subjects_ok (fold (\<lambda>i. with_cchan pub i cc_leave) is cl)" for "is"
    by (induction "is" arbitrary: cl) (simp_all add: with_subjects)
  then show ?thesis by (simp add: clearChannels_def subjects_ok_def)
qed

end

interpretation ws_pub: message_publisher ws_publisher
  by unfold_locales (auto simp: ws_publisher_def timers_def split: option.split)

interpretation sse_pub: message_publisher sse_publisher
  by unfold_locales (auto simp: sse_publisher_def timers_def split: option.split)

subsection \<open>Any life of a WebSocket client\<close>

datatype ws_op =
    W_Connect
  | W_Connection_Timeout nat
  | W_Open nat nat
  | W_Message nat string
  | W_Error nat
  | W_Close nat
  | W_Pong_Timeout nat
  | W_Reconnect
  | W_Disconnect
  | W_Create string obj "nat option"
  | W_Join nat
  | W_Channel nat cc_op

fun ws_exec :: "(string \<Rightarrow> json res) \<Rightarrow> ws_op \<Rightarrow> ws_client \<Rightarrow> ws_client option" where
  "ws_exec json_parse W_Connect cl = ws_connect cl"
| "ws_exec json_parse (W_Connection_Timeout s) cl = Some (ws_connection_timeout s cl)"
| "ws_exec json_parse (W_Open now s) cl = Some (ws_onopen now s cl)"
| "ws_exec json_parse (W_Message now data) cl = ws_onmessage json_parse now data cl"
| "ws_exec json_parse (W_Error s) cl = Some (ws_onerror s cl)"
| "ws_exec json_parse (W_Close s) cl = ws_onclose s cl"
| "ws_exec json_parse (W_Pong_Timeout now) cl = Some (ws_pong_timeout now cl)"
| "ws_exec json_parse W_Reconnect cl = reconnect_fires ws_connect cl"
| "ws_exec json_parse W_Disconnect cl = ws_disconnect cl"
| "ws_exec json_parse (W_Create name params ms) cl = Some (snd (cl_createChannel name params ms cl))"
| "ws_exec json_parse (W_Join i) cl = Some (with_cchan ws_publisher i (cc_join (getState cl)) cl)"
| "ws_exec json_parse (W_Channel i op) cl = Some (with_cchan ws_publisher i (\<lambda>c. cc_exec c op) cl)"

fun ws_run :: "(string \<Rightarrow> json res) \<Rightarrow> ws_op list \<Rightarrow> ws_client \<Rightarrow> ws_client option" where
  "ws_run json_parse [] cl = Some cl"
| "ws_run json_parse (op # ops) cl = Option.bind (ws_exec json_parse op cl) (ws_run json_parse ops)"

text \<open>A running reconnection timer has a delay of the sequence, and the client is not disconnecting.\<close>

definition timer_ok :: "nat \<Rightarrow> nat option \<times> bool \<times> nat \<Rightarrow> bool" where
  "timer_ok M t = (case t of (r, off, m) \<Rightarrow> m = M \<and> (\<forall>d. r = Some d \<longrightarrow> \<not> off \<and> (\<exists>n. d = reconnect_delay n m)))"

lemma subjects_frame:
  "cl_broadcaster cl' = cl_broadcaster cl \<Longrightarrow> subjects_ok cl \<Longrightarrow> subjects_ok cl'"
  by (simp add: subjects_ok_def)

definition ws_ok :: "nat \<Rightarrow> ws_client \<Rightarrow> bool" where
  "ws_ok M cl \<longleftrightarrow> subjects_ok cl \<and> timer_ok M (timers cl)"

lemma ws_ok_frame:
  "cl_broadcaster cl' = cl_broadcaster cl \<Longrightarrow> timers cl' = timers cl \<Longrightarrow> ws_ok M cl \<Longrightarrow> ws_ok M cl'"
  by (simp add: ws_ok_def subjects_frame)

lemma ws_publish_state_ok:
  assumes "ws_ok M cl"
  obtains cl' where "publish_state ws_publisher s cl = Some cl'" "ws_ok M cl'" "timers cl' = timers cl"
proof -
  obtain cl' where p: "publish_state ws_publisher s cl = Some cl'" "cl_broadcaster cl' = cl_broadcaster cl"
      "timers cl' = timers cl"
    using ws_pub.publish_state_ends by blast
  with assms have "ws_ok M cl'" by (blast intro: ws_ok_frame)
  with p that show ?thesis by blast
qed

lemma ws_connect_ok:
  assumes "subjects_ok cl" "cl_max_delay cl = M"
  shows "\<exists>cl'. ws_connect cl = Some cl' \<and> ws_ok M cl'"
proof -
  let ?cl = "(clearReconnectTimeout cl)\<lparr>cl_disconnecting := False\<rparr>"
  have "ws_ok M ?cl" using assms by (simp add: ws_ok_def subjects_ok_def timer_ok_def timers_def clearReconnectTimeout_def)
  then obtain cl1 where "publish_state ws_publisher CONNECTING ?cl = Some cl1" "ws_ok M cl1"
    by (rule ws_publish_state_ok)
  then show ?thesis
    by (auto simp: ws_connect_def Let_def startConnectionTimeout_def intro!: ws_ok_frame [of _ cl1])
      (simp add: timers_def)
qed

text \<open>Updates that touch neither the reconnection timer nor what it depends on.\<close>

lemma update_timers:
  "timers (cl\<lparr>ws_sockets := ss\<rparr>) = timers cl" "timers (cl\<lparr>ws_socket := so\<rparr>) = timers cl"
  "timers (cl\<lparr>ws_last := now\<rparr>) = timers cl" "timers (cl\<lparr>ws_pong := po\<rparr>) = timers cl"
  "timers (cl\<lparr>cl_attempts := n\<rparr>) = timers cl" "timers (cl\<lparr>cl_conn_timers := ts\<rparr>) = timers cl"
  "timers (cl\<lparr>cl_chans := cs\<rparr>) = timers cl" "timers (cl\<lparr>cl_names := ns\<rparr>) = timers cl"
  by (simp_all add: timers_def)

lemma frames:
  "cl_broadcaster (ws_close s cl) = cl_broadcaster cl" "timers (ws_close s cl) = timers cl"
  "cl_broadcaster (cl_error m cl) = cl_broadcaster cl" "timers (cl_error m cl) = timers cl"
  "cl_broadcaster (clearConnectionTimeout cl) = cl_broadcaster cl" "timers (clearConnectionTimeout cl) = timers cl"
  "cl_broadcaster (ws_clearPongTimeout cl) = cl_broadcaster cl" "timers (ws_clearPongTimeout cl) = timers cl"
  "cl_broadcaster (ws_schedulePongTimeout s cl) = cl_broadcaster cl" "timers (ws_schedulePongTimeout s cl) = timers cl"
  by (simp_all add: ws_close_def cl_error_def clearConnectionTimeout_def ws_clearPongTimeout_def
      ws_schedulePongTimeout_def timers_def split: option.split)

lemma max_delay_frame: "cl_max_delay (clearConnectionTimeout cl) = cl_max_delay cl"
  by (simp add: clearConnectionTimeout_def split: option.split)

lemma ws_onclose_ok:
  assumes "ws_ok M cl"
  shows "\<exists>cl'. ws_onclose s cl = Some cl' \<and> ws_ok M cl'"
proof -
  let ?cl = "ws_clearPongTimeout (clearConnectionTimeout (cl\<lparr>ws_sockets := (ws_sockets cl)[s := WS_CLOSED], ws_socket := None\<rparr>))"
  have "ws_ok M ?cl" using assms by (rule ws_ok_frame [rotated 2]) (simp_all add: frames update_timers)
  then obtain cl1 where cl1: "publish_state ws_publisher DISCONNECTED ?cl = Some cl1" "ws_ok M cl1"
    by (rule ws_publish_state_ok)
  have "ws_ok M (scheduleReconnect cl1)"
    using cl1(2) by (auto simp: scheduleReconnect_def ws_ok_def subjects_ok_def timer_ok_def timers_def)
  moreover have "ws_ok M (cl\<lparr>ws_sockets := (ws_sockets cl)[s := WS_CLOSED]\<rparr>)"
    using assms by (rule ws_ok_frame [rotated 2]) (simp_all add: timers_def)
  ultimately show ?thesis using cl1(1) by (simp add: ws_onclose_def Let_def)
qed

lemma ws_disconnect_ok:
  assumes "ws_ok M cl"
  shows "\<exists>cl'. ws_disconnect cl = Some cl' \<and> ws_ok M cl'"
proof -
  let ?cl = "(ws_clearPongTimeout (clearReconnectTimeout (clearConnectionTimeout cl)))\<lparr>cl_disconnecting := True\<rparr>"
  have "cl_broadcaster ?cl = cl_broadcaster cl"
    by (simp add: ws_clearPongTimeout_def clearReconnectTimeout_def frames)
  then have "ws_ok M ?cl"
    using assms subjects_frame [of ?cl cl]
    by (simp add: ws_ok_def timer_ok_def timers_def clearReconnectTimeout_def ws_clearPongTimeout_def
        max_delay_frame)
  then obtain cl1 where cl1: "publish_state ws_publisher DISCONNECTED ?cl = Some cl1" "ws_ok M cl1"
    by (rule ws_publish_state_ok)
  have "ws_ok M (case ws_socket cl1 of None \<Rightarrow> cl1 | Some s \<Rightarrow> ws_close s cl1)"
    using cl1(2) ws_ok_frame [OF frames(1,2)] by (simp split: option.split)
  then have "ws_ok M (clearChannels ws_publisher (case ws_socket cl1 of None \<Rightarrow> cl1 | Some s \<Rightarrow> ws_close s cl1))"
    by (simp add: ws_ok_def ws_pub.clear_subjects)
  then show ?thesis using cl1(1) by (simp add: ws_disconnect_def)
qed

lemma ws_exec_ok:
  assumes ok: "ws_ok M cl"
  shows "\<exists>cl'. ws_exec json_parse op cl = Some cl' \<and> ws_ok M cl'"
proof (cases op)
  case W_Connect
  then show ?thesis using ok ws_connect_ok [of cl M] by (simp add: ws_ok_def timer_ok_def timers_def)
next
  case (W_Connection_Timeout s)
  have "ws_ok M (ws_connection_timeout s cl)"
    using ok by (rule ws_ok_frame [rotated 2]) (simp_all add: ws_connection_timeout_def Let_def frames update_timers)
  then show ?thesis by (simp add: W_Connection_Timeout)
next
  case (W_Open now s)
  have "ws_ok M (ws_onopen now s cl)"
    using ok by (rule ws_ok_frame [rotated 2])
      (simp_all add: ws_onopen_def Let_def frames update_timers split: option.split)
  then show ?thesis by (simp add: W_Open)
next
  case (W_Message now data)
  let ?cl = "cl\<lparr>ws_last := now\<rparr>"
  have ok1: "ws_ok M ?cl" using ok by (rule ws_ok_frame [rotated 2]) (simp_all add: timers_def)
  show ?thesis
  proof (cases "parseMessages json_parse data")
    case (Inr evs)
    have "subjects_ok ?cl" using ok1 by (simp add: ws_ok_def)
    then obtain cl' where "broadcast_all ws_publisher evs ?cl = Some cl'" "subjects_ok cl'" "timers cl' = timers ?cl"
      using ws_pub.broadcast_all_ends by blast
    with Inr ok1 show ?thesis by (simp add: W_Message ws_onmessage_def Let_def ws_ok_def)
  qed (simp add: W_Message ws_onmessage_def Let_def ok1)
next
  case (W_Error s)
  have "ws_ok M (ws_onerror s cl)"
    using ok by (rule ws_ok_frame [rotated 2]) (simp_all add: ws_onerror_def frames)
  then show ?thesis by (simp add: W_Error)
next
  case (W_Close s)
  then show ?thesis using ws_onclose_ok [OF ok] by simp
next
  case (W_Pong_Timeout now)
  have "ws_ok M (ws_pong_timeout now cl)"
    using ok by (rule ws_ok_frame [rotated 2]) (simp_all add: ws_pong_timeout_def frames split: option.split)
  then show ?thesis by (simp add: W_Pong_Timeout)
next
  case W_Reconnect
  have "subjects_ok (cl\<lparr>cl_reconnect := None\<rparr>)" using ok by (simp add: ws_ok_def subjects_ok_def)
  moreover from this have "ws_ok M (cl\<lparr>cl_reconnect := None\<rparr>)"
    using ok by (simp add: ws_ok_def timer_ok_def timers_def)
  ultimately show ?thesis
    using ok ws_connect_ok [of "cl\<lparr>cl_reconnect := None\<rparr>" M]
    by (simp add: W_Reconnect reconnect_fires_def Let_def ws_ok_def timer_ok_def timers_def)
next
  case W_Disconnect
  then show ?thesis using ws_disconnect_ok [OF ok] by simp
next
  case (W_Create name params ms)
  have "ws_ok M (snd (cl_createChannel name params ms cl))"
    using ok by (rule ws_ok_frame [rotated 2]) (simp_all add: cl_createChannel_def Let_def update_timers split: option.split)
  then show ?thesis by (simp add: W_Create)
next
  case (W_Join i)
  then show ?thesis using ok by (simp add: ws_ok_def ws_pub.with_subjects)
next
  case (W_Channel i op)
  then show ?thesis using ok by (simp add: ws_ok_def ws_pub.with_subjects)
qed

lemma ws_run_ok: "ws_ok M cl \<Longrightarrow> \<exists>cl'. ws_run json_parse ops cl = Some cl' \<and> ws_ok M cl'"
proof (induction ops arbitrary: cl)
  case (Cons op ops)
  obtain cl1 where "ws_exec json_parse op cl = Some cl1" "ws_ok M cl1" using ws_exec_ok [OF Cons.prems] by blast
  then show ?case using Cons.IH by simp
qed simp

lemma new_ws_client_ok:
  "ws_ok (case_option DEFAULT_MAX_RECONNECT_DELAY id maxDelay) (new_ws_client joinTimeout maxDelay ping random)"
  by (simp add: ws_ok_def subjects_ok_def timer_ok_def timers_def new_ws_client_def new_client_def client.defs)

text \<open>
  C37. Every operation of a WebSocket client ends, in any order of connecting, losing the
  connection, receiving batches of events and using channels: although the observers of the
  broadcaster and of the connection state subscribe and unsubscribe while they are notified, no
  publication goes round for ever.
\<close>

theorem client_publications_end:
  "\<exists>cl. ws_run json_parse ops (new_ws_client joinTimeout maxReconnectDelay pingInterval random) = Some cl"
  using ws_run_ok [OF new_ws_client_ok] by blast

subsection \<open>Reconnecting\<close>

lemma reconnect_delay_bounds: "min 1000 M \<le> reconnect_delay n M" "reconnect_delay n M \<le> M"
proof -
  have "1 * 1000 \<le> (2 :: nat) ^ n * 1000" by (rule mult_le_mono1) simp
  then show "min 1000 M \<le> reconnect_delay n M" by (simp add: reconnect_delay_def min_le_iff_disj)
qed (simp add: reconnect_delay_def)

text \<open>
  C38. The timer that reconnects. Whatever happened to a WebSocket client, a timer that is running
  waits for one of the delays 1 s, 2 s, 4 s and so on, cut off at the configured maximum (30 s
  unless configured), so at least one second (or the maximum, when that is less) and never longer
  than the maximum; and it never runs for a client that was disconnected on purpose.
\<close>

theorem reconnect_delays_bounded:
  assumes "ws_run json_parse ops (new_ws_client joinTimeout maxReconnectDelay pingInterval random) = Some cl"
    and "cl_reconnect cl = Some d"
  shows "\<not> cl_disconnecting cl \<and> min 1000 (case_option 30000 id maxReconnectDelay) \<le> d
    \<and> d \<le> case_option 30000 id maxReconnectDelay
    \<and> (\<exists>n. d = min (1000 * 2 ^ n) (case_option 30000 id maxReconnectDelay))"
proof -
  let ?M = "case_option 30000 id maxReconnectDelay :: nat"
  have "ws_ok ?M cl"
    using ws_run_ok [OF new_ws_client_ok, of json_parse ops joinTimeout maxReconnectDelay pingInterval random] assms(1)
    by (cases maxReconnectDelay) (simp_all add: DEFAULT_MAX_RECONNECT_DELAY_def)
  then obtain n where "\<not> cl_disconnecting cl" "d = reconnect_delay n ?M"
    using assms(2) by (auto simp: ws_ok_def timer_ok_def timers_def)
  then show ?thesis using reconnect_delay_bounds [where M = ?M and n = n] unfolding reconnect_delay_def by blast
qed

text \<open>A socket lost, reconnected and lost again before it opened waits two seconds.\<close>

theorem reconnect_delays_bounded_witness:
  "\<exists>cl. ws_run (\<lambda>s. Inl (Plain_Error s)) [W_Connect, W_Close 0, W_Reconnect, W_Close 1]
      (new_ws_client None None None (\<lambda>i n. [])) = Some cl
    \<and> cl_reconnect cl = Some 2000 \<and> 2000 \<le> (30000 :: nat)"
proof -
  let ?run = "ws_run (\<lambda>s. Inl (Plain_Error s)) [W_Connect, W_Close 0, W_Reconnect, W_Close 1]
      (new_ws_client None None None (\<lambda>i n. []))"
  have run: "map_option cl_reconnect ?run = Some (Some 2000)"
    by (simp add: ws_connect_def ws_onclose_def reconnect_fires_def scheduleReconnect_def new_ws_client_def
        new_client_def client.defs clearReconnectTimeout_def clearConnectionTimeout_def startConnectionTimeout_def
        ws_clearPongTimeout_def bs_new_def sj_new_def reconnect_delay_def DEFAULT_MAX_RECONNECT_DELAY_def Let_def
        ws_pub.publish_state_unwatched)
  then obtain cl where cl: "?run = Some cl" "cl_reconnect cl = Some 2000" by (cases ?run) auto
  from reconnect_delays_bounded [OF cl] cl show ?thesis by auto
qed

subsection \<open>A connection attempt of server-sent events that times out\<close>

text \<open>What may still reach the client from event source \<open>s\<close> and from its timers.\<close>

inductive sse_hears :: "(string \<Rightarrow> json res) \<Rightarrow> sse_client \<Rightarrow> sse_client \<Rightarrow> bool" for json_parse where
  timeout: "sse_hears json_parse cl (sse_connection_timeout s cl)"
| onopen: "s < length (se_sources cl) \<Longrightarrow> sse_hears json_parse cl (sse_onopen s cl)"
| onmessage: "s < length (se_sources cl) \<Longrightarrow> sse_onmessage json_parse s data cl = Some cl' \<Longrightarrow> sse_hears json_parse cl cl'"
| onerror: "s < length (se_sources cl) \<Longrightarrow> sse_onerror s cl = Some cl' \<Longrightarrow> sse_hears json_parse cl cl'"
| reconnect: "reconnect_fires sse_connect cl = Some cl' \<Longrightarrow> sse_hears json_parse cl cl'"

text \<open>Nothing runs: every source is closed and no timer is left.\<close>

definition sse_idle :: "sse_client \<Rightarrow> bool" where
  "sse_idle cl \<longleftrightarrow> (\<forall>s < length (se_sources cl). se_sources cl ! s = WS_CLOSED)
     \<and> cl_conn_timers cl = [] \<and> cl_reconnect cl = None"

lemma idle_hears_nothing: "sse_hears json_parse cl cl' \<Longrightarrow> sse_idle cl \<Longrightarrow> cl' = cl"
  by (induction rule: sse_hears.induct)
    (simp_all add: sse_idle_def sse_connection_timeout_def sse_onopen_def sse_onmessage_def sse_onerror_def
      reconnect_fires_def)

lemma idle_stays: "(sse_hears json_parse)\<^sup>*\<^sup>* cl cl' \<Longrightarrow> sse_idle cl \<Longrightarrow> cl' = cl"
  by (induction rule: rtranclp_induct) (auto dest: idle_hears_nothing)

text \<open>
  C39. A connection attempt over server-sent events that times out is never made again: the timer
  reports the error and closes the source, a closed source calls nothing any more, and it is the
  error callback that would have told of the disconnection and planned to reconnect. So whatever
  the environment does after that, the client says it is connecting for ever.
\<close>

theorem sse_timeout_stuck:
  assumes "getState cl = CONNECTING" "cl_conn_timers cl = [s]" "cl_reconnect cl = None"
    and "s < length (se_sources cl)" "se_sources cl ! s = WS_CONNECTING"
    and "\<forall>s' < length (se_sources cl). s' \<noteq> s \<longrightarrow> se_sources cl ! s' = WS_CLOSED"
    and "(sse_hears json_parse)\<^sup>*\<^sup>* (sse_connection_timeout s cl) cl'"
  shows "getState cl' = CONNECTING \<and> cl_reconnect cl' = None \<and> cl_conn_timers cl' = []
    \<and> cl_errors cl' = cl_errors cl @ [''Connection timeout'']"
proof -
  have fired: "sse_connection_timeout s cl = sse_close s (cl_error ''Connection timeout'' (cl\<lparr>cl_conn_timers := []\<rparr>))"
    using assms by (simp add: sse_connection_timeout_def Let_def js_remove_def)
  have "sse_idle (sse_connection_timeout s cl)"
    using assms unfolding fired by (auto simp: sse_idle_def sse_close_def cl_error_def nth_list_update)
  with assms(7) have "cl' = sse_connection_timeout s cl" by (rule idle_stays)
  then show ?thesis using assms by (simp add: fired sse_close_def cl_error_def getState_def)
qed

theorem sse_timeout_stuck_witness:
  "\<exists>cl. sse_connect (new_sse_client None None (\<lambda>i n. [])) = Some cl
    \<and> getState (sse_connection_timeout 0 cl) = CONNECTING
    \<and> reconnect_fires sse_connect (sse_connection_timeout 0 cl) = Some (sse_connection_timeout 0 cl)"
proof -
  let ?connect = "sse_connect (new_sse_client None None (\<lambda>i n. []))"
  have "map_option (\<lambda>cl. (getState cl, cl_conn_timers cl, cl_reconnect cl, se_sources cl)) ?connect
    = Some (CONNECTING, [0], None, [WS_CONNECTING])"
    by (simp add: sse_connect_def new_sse_client_def new_client_def client.defs clearReconnectTimeout_def bs_new_def
        sj_new_def sse_pub.publish_state_unwatched startConnectionTimeout_def getState_def Let_def)
  then obtain cl where cl: "?connect = Some cl" "getState cl = CONNECTING" "cl_conn_timers cl = [0]"
      "cl_reconnect cl = None" "se_sources cl = [WS_CONNECTING]"
    by (cases ?connect) auto
  have "(sse_hears (\<lambda>s. Inl (Plain_Error s)))\<^sup>*\<^sup>* (sse_connection_timeout 0 cl) (sse_connection_timeout 0 cl)" by simp
  from sse_timeout_stuck [OF cl(2,3,4) _ _ _ this] cl(5)
  have "getState (sse_connection_timeout 0 cl) = CONNECTING \<and> cl_reconnect (sse_connection_timeout 0 cl) = None" by simp
  then show ?thesis using cl(1) by (simp add: reconnect_fires_def)
qed

end
