(* ===== verification/Client_Address.thy ===== *)
theory Client_Address
  imports Route
begin

text \<open>
  The address a client connects to (\<open>_resolveAddress\<close> of \<open>client/src/browser/client.ts\<close>,
  \<open>client/src/node/node.ts\<close> and \<open>client/src/browser/sseClient.ts\<close>), and what the server reads from
  it: the parameters given to a client are the query a connection handler sees.
\<close>

subsection \<open>URL objects\<close>

text \<open>
  A \<open>URL\<close> by its components; the port is none when it is the default of the scheme. Parsing a text
  and normalising a path are done by the platform and are parameters.
\<close>

record url =
  u_protocol :: string
  u_host :: string
  u_port :: "nat option"
  u_path :: string
  u_search :: string
  u_hash :: string

definition default_port :: "string \<Rightarrow> nat option" where
  "default_port scheme =
     (if scheme = ''http:'' \<or> scheme = ''ws:'' then Some 80
      else if scheme = ''https:'' \<or> scheme = ''wss:'' then Some 443
      else if scheme = ''ftp:'' then Some 21 else None)"

definition special_scheme :: "string \<Rightarrow> bool" where
  "special_scheme scheme \<longleftrightarrow> scheme \<in> set [''http:'', ''https:'', ''ws:'', ''wss:'', ''ftp:'', ''file:'']"

text \<open>
  The setters, as the URL standard has them: a scheme is only replaced by one of the same kind,
  a file without a host stays a file, and a port that is now the default disappears.
\<close>

definition set_protocol :: "string \<Rightarrow> url \<Rightarrow> url" where
  "set_protocol scheme u =
     (if special_scheme scheme \<noteq> special_scheme (u_protocol u) \<or> (u_protocol u = ''file:'' \<and> u_host u = []) then u
      else u\<lparr>u_protocol := scheme, u_port := (if u_port u = default_port scheme then None else u_port u)\<rparr>)"

definition set_search :: "string \<Rightarrow> url \<Rightarrow> url" where
  "set_search query u = u\<lparr>u_search := (if query = [] then [] else CHR ''?'' # query)\<rparr>"

text \<open>\<open>URLSearchParams\<close> of an object (its values as texts), and its \<open>toString\<close>.\<close>

definition form_plain :: "char \<Rightarrow> bool" where
  "form_plain c \<longleftrightarrow> is_alnum c \<or> c \<in> set ''*-._''"

definition form_encode :: "string \<Rightarrow> string" where
  "form_encode s = concat (map (\<lambda>c. if form_plain c then [c] else if c = CHR '' '' then ''+'' else escape c) s)"

definition form_entry :: "string \<times> string \<Rightarrow> string" where
  "form_entry p = form_encode (fst p) @ ''='' @ form_encode (snd p)"

definition params_string :: "string jmap \<Rightarrow> string" where
  "params_string params = js_join ''&'' (map form_entry params)"

subsection \<open>Resolving an address\<close>

text \<open>With the URL parser, the setter of \<open>pathname\<close> and \<open>window.location\<close>.\<close>

definition ws_protocol :: "url \<Rightarrow> url" where
  "ws_protocol address =
     (let protocol = (if u_protocol address = ''https:'' then ''wss:'' else ''ws:'') in
      if u_protocol address \<noteq> ''wss:'' \<and> u_protocol address \<noteq> ''ws:'' then set_protocol protocol address
      else address)"

definition browser_resolveAddress ::
    "(string \<Rightarrow> url option) \<Rightarrow> (string \<Rightarrow> url \<Rightarrow> url) \<Rightarrow> url \<Rightarrow> string \<Rightarrow> string jmap \<Rightarrow> url" where
  "browser_resolveAddress parse set_pathname location endpoint params =
     (let address = (case parse endpoint of Some u \<Rightarrow> u | None \<Rightarrow> (set_pathname endpoint location)\<lparr>u_hash := []\<rparr>)
      in ws_protocol (set_search (params_string params) address))"

definition node_resolveAddress :: "(string \<Rightarrow> url option) \<Rightarrow> string \<Rightarrow> string jmap \<Rightarrow> url res" where
  "node_resolveAddress parse endpoint params =
     (case parse endpoint of
        None \<Rightarrow> Inl (Plain_Error ''Invalid URL'')
      | Some address \<Rightarrow> Inr (ws_protocol (set_search (params_string params) address)))"

definition sse_resolveAddress ::
    "(string \<Rightarrow> url option) \<Rightarrow> (string \<Rightarrow> url \<Rightarrow> url) \<Rightarrow> url \<Rightarrow> string \<Rightarrow> string jmap \<Rightarrow> url" where
  "sse_resolveAddress parse set_pathname location endpoint params =
     (let address = (case parse endpoint of Some u \<Rightarrow> u | None \<Rightarrow> set_pathname endpoint location);
          address = set_search (params_string params) address
      in if u_protocol address \<noteq> ''https:'' \<and> u_protocol address \<noteq> ''http:''
         then set_protocol (u_protocol location) address else address)"

text \<open>What a request for the address asks the server for.\<close>

definition request_target :: "url \<Rightarrow> string" where
  "request_target u = u_path u @ u_search u"

subsection \<open>Decoding a form\<close>

lemma percent_plain: "c \<noteq> CHR ''%'' \<Longrightarrow> percent_decode (c # s) = c # percent_decode s"
  by (cases s rule: list.exhaust; cases "tl s") auto

lemma percent_escape: "percent_decode (escape c @ s) = c # percent_decode s"
proof -
  have "byte c div 16 < 16" using byte_less_256 [of c] by (simp add: less_mult_imp_div_less)
  then show ?thesis by (simp add: escape_def hex_val_upper)
qed

abbreviation plus_space :: "string \<Rightarrow> string" where
  "plus_space \<equiv> map (\<lambda>c. if c = CHR ''+'' then CHR '' '' else c)"

lemma plus_escape: "plus_space (escape c) = escape c"
proof -
  have "CHR ''+'' \<notin> set (escape c)" using escape_chars [of "CHR ''+''" c] by (auto simp: is_alnum_def)
  then show ?thesis by (intro map_idI) auto
qed

lemma form_plain_char: "form_plain c \<Longrightarrow> c \<notin> set ''%+&=? ''"
  by (auto simp: form_plain_def is_alnum_def)

lemma percent_form: "percent_decode (plus_space (form_encode s)) = s"
proof (induction s)
  case (Cons c s)
  then show ?case
    using form_plain_char [of c]
    by (auto simp: form_encode_def plus_escape percent_escape percent_plain)
qed (simp add: form_encode_def)

lemma utf8_lossy_id: "utf8 s \<Longrightarrow> utf8_lossy s = s"
proof (induction s rule: utf8_lossy.induct)
  case (1 s)
  show ?case
  proof (cases "s = []")
    case True
    then show ?thesis by (simp add: utf8_lossy.simps)
  next
    case False
    with "1.prems" obtain n where n: "cp_len s = Some n" "utf8 (drop n s)"
      by (subst (asm) utf8.simps) (auto split: option.splits)
    then show ?thesis using "1.IH" False by (subst utf8_lossy.simps) (simp add: False)
  qed
qed

lemma form_decode_encode: "utf8 s \<Longrightarrow> form_decode (form_encode s) = s"
  by (simp add: form_decode_def percent_form utf8_lossy_id)

lemma form_encode_chars: "c \<in> set (form_encode s) \<Longrightarrow> c \<notin> set ''&=?''"
  using form_plain_char escape_chars by (fastforce simp: form_encode_def is_alnum_def split: if_splits)

lemma form_entry_chars: "c \<in> set (form_entry p) \<Longrightarrow> c \<notin> set ''&?''"
  using form_encode_chars by (fastforce simp: form_entry_def)

lemma form_pair_entry: "utf8 (fst p) \<Longrightarrow> utf8 (snd p) \<Longrightarrow> form_pair (form_entry p) = p"
proof -
  assume ok: "utf8 (fst p)" "utf8 (snd p)"
  have no: "\<forall>c \<in> set (form_encode (fst p)). c \<noteq> CHR ''=''" using form_encode_chars by fastforce
  have "takeWhile (\<lambda>c. c \<noteq> CHR ''='') (form_entry p) = form_encode (fst p)"
      "dropWhile (\<lambda>c. c \<noteq> CHR ''='') (form_entry p) = ''='' @ form_encode (snd p)"
    using no by (simp_all add: form_entry_def takeWhile_append2 dropWhile_append2)
  with ok show ?thesis by (simp add: form_pair_def form_decode_encode)
qed

lemma params_parse:
  assumes "list_all (\<lambda>p. utf8 (fst p) \<and> utf8 (snd p)) params"
  shows "URLSearchParams (params_string params) = params"
proof (cases "params = []")
  case False
  have "js_split CHR ''&'' (params_string params) = map form_entry params"
    unfolding params_string_def using False form_entry_chars by (intro js_split_join) fastforce+
  moreover have "map (form_pair \<circ> form_entry) params = params"
    using assms by (auto simp: list_all_iff form_pair_entry intro!: map_idI)
  moreover have "filter (\<lambda>p. p \<noteq> []) (map form_entry params) = map form_entry params"
    by (simp add: filter_map comp_def form_entry_def)
  ultimately show ?thesis by (simp add: URLSearchParams_def)
qed (simp add: params_string_def)

lemma params_string_chars: "CHR ''?'' \<notin> set (params_string params)"
proof (induction params rule: induct_list012)
  case (3 p q ps)
  then show ?case using form_entry_chars [of "CHR ''?''" p] by (auto simp: params_string_def)
qed (use form_entry_chars [of "CHR ''?''"] in \<open>auto simp: params_string_def\<close>)

lemma map_of_entries: "distinct (map fst params) \<Longrightarrow> fold (\<lambda>(k, v) q. jm_set k v q) params [] = params"
proof (induction params rule: rev_induct)
  case (snoc p params)
  have "jm_set k v m = m @ [(k, v)]" if "k \<notin> fst ` set m" for k v and m :: "('a \<times> 'b) list"
    using that unfolding jm_set_def by (induction m) auto
  from this [of "fst p" params "snd p"] have "jm_set (fst p) (snd p) params = params @ [p]"
    using snoc.prems by auto
  with snoc show ?case by (simp add: case_prod_beta)
qed simp

subsection \<open>Parameters reach the server\<close>

text \<open>The addresses the three clients may resolve an endpoint to.\<close>

definition resolves :: "(string \<Rightarrow> url option) \<Rightarrow> (string \<Rightarrow> url \<Rightarrow> url) \<Rightarrow> url \<Rightarrow> string \<Rightarrow> string jmap \<Rightarrow> url \<Rightarrow> bool" where
  "resolves parse set_pathname location endpoint params u \<longleftrightarrow>
     u = browser_resolveAddress parse set_pathname location endpoint params
     \<or> node_resolveAddress parse endpoint params = Inr u
     \<or> u = sse_resolveAddress parse set_pathname location endpoint params"

lemma set_protocol_parts [simp]:
  "u_path (set_protocol p u) = u_path u" "u_search (set_protocol p u) = u_search u" "u_host (set_protocol p u) = u_host u"
  by (simp_all add: set_protocol_def)

lemma ws_protocol_parts [simp]:
  "u_path (ws_protocol u) = u_path u" "u_search (ws_protocol u) = u_search u" "u_host (ws_protocol u) = u_host u"
  by (simp_all add: ws_protocol_def Let_def)

lemma resolves_search:
  assumes "resolves parse set_pathname location endpoint params u"
  shows "u_search u = (if params = [] then [] else CHR ''?'' # params_string params)"
proof -
  have "params_string params = [] \<longleftrightarrow> params = []"
  proof (cases params)
    case (Cons p ps)
    then show ?thesis by (cases ps) (auto simp: params_string_def form_entry_def)
  qed (simp add: params_string_def)
  with assms show ?thesis
    by (auto simp: resolves_def browser_resolveAddress_def node_resolveAddress_def sse_resolveAddress_def set_search_def
        Let_def split: option.splits)
qed

text \<open>
  C15. Round trip between client and server: whatever parameters a client is given (well-formed
  texts), the request it makes for its address is matched by a route of the server exactly as the
  path alone, and the query the handler sees is those parameters, in their order. (So a query that
  was part of the endpoint is gone.)
\<close>

theorem connection_params_roundtrip:
  assumes "resolves parse set_pathname location endpoint params u"
    and "list_all (\<lambda>p. utf8 (fst p) \<and> utf8 (snd p)) params" "distinct (map fst params)"
    and path: "CHR ''?'' \<notin> set (u_path u)"
  shows "parsePondRoute route (request_target u)
     = (case parsePondRoute route (u_path u) of Inr (Some ep) \<Rightarrow> Inr (Some (ep\<lparr>ep_query := params\<rparr>)) | r \<Rightarrow> r)"
proof -
  have "js_split CHR ''?'' (request_target u) = (if params = [] then [u_path u] else [u_path u, params_string params])"
    using path params_string_chars [of params]
    by (simp add: request_target_def resolves_search [OF assms(1)] js_split_no_sep js_split_append)
  moreover have "fold (\<lambda>(k, v) q. jm_set k v q) (URLSearchParams (params_string params)) [] = params"
    using assms(2,3) by (simp add: params_parse map_of_entries)
  ultimately show ?thesis
    using path by (auto simp: parsePondRoute_def res_bind_def Let_def js_split_no_sep split: sum.splits option.splits)
qed

theorem connection_params_roundtrip_witness:
  "let page = \<lparr>u_protocol = ''https:'', u_host = ''a.b'', u_port = None, u_path = ''/x'', u_search = ''?y=z'', u_hash = ''#h''\<rparr>;
     u = browser_resolveAddress (\<lambda>_. None) (\<lambda>p a. a\<lparr>u_path := p\<rparr>) page ''/api/7'' [(''token'', ''a&b=c d''), (''v'', '''')]
   in u_protocol u = ''wss:'' \<and> parsePondRoute ''/api/:id'' (request_target u)
     = Inr (Some \<lparr>ep_params = [(''id'', ''7'')], ep_query = [(''token'', ''a&b=c d''), (''v'', '''')]\<rparr>)"
proof -
  define page where "page = \<lparr>u_protocol = ''https:'', u_host = ''a.b'', u_port = None, u_path = ''/x'', u_search = ''?y=z'', u_hash = ''#h''\<rparr>"
  let ?params = "[(''token'', ''a&b=c d''), (''v'', '''')]"
  define u where "u = browser_resolveAddress (\<lambda>_. None) (\<lambda>p a. a\<lparr>u_path := p\<rparr>) page ''/api/7'' ?params"
  have path: "u_path u = ''/api/7''" by (simp add: u_def browser_resolveAddress_def set_search_def)
  have "resolves (\<lambda>_. None) (\<lambda>p a. a\<lparr>u_path := p\<rparr>) page ''/api/7'' ?params u" by (simp add: resolves_def u_def)
  moreover have "list_all (\<lambda>p. utf8 (fst p) \<and> utf8 (snd p)) ?params" by (simp add: utf8_all_ascii)
  moreover have "parsePondRoute ''/api/:id'' ''/api/7'' = Inr (Some \<lparr>ep_params = [(''id'', ''7'')], ep_query = []\<rparr>)" by code_simp
  ultimately have "parsePondRoute ''/api/:id'' (request_target u) = Inr (Some \<lparr>ep_params = [(''id'', ''7'')], ep_query = ?params\<rparr>)"
    using connection_params_roundtrip [of "\<lambda>_. None" "\<lambda>p a. a\<lparr>u_path := p\<rparr>" page "''/api/7''" ?params u "''/api/:id''"]
    by (simp add: path)
  moreover have "u_protocol u = ''wss:''"
    by (simp add: u_def page_def browser_resolveAddress_def ws_protocol_def set_protocol_def set_search_def special_scheme_def)
  ultimately show ?thesis unfolding Let_def u_def page_def by blast
qed

text \<open>
  What a WebSocket client connects to: an endpoint with a scheme of the web leads to \<open>wss\<close> when it
  is secure and to \<open>ws\<close> otherwise, on the same host; a path (in a browser) leads to the host of the
  page, and is secure exactly when the page is. A client in Node refuses what is not a URL.
\<close>

theorem websocket_address:
  assumes "\<And>e. parse endpoint = Some e \<Longrightarrow> u_protocol e \<in> set [''http:'', ''https:'', ''ws:'', ''wss:'']"
    and page: "u_protocol location \<in> set [''http:'', ''https:'']" "u_host (set_pathname endpoint location) = u_host location"
      "u_protocol (set_pathname endpoint location) = u_protocol location"
  shows "case parse endpoint of
      Some e \<Rightarrow> node_resolveAddress parse endpoint params = Inr (browser_resolveAddress parse set_pathname location endpoint params)
        \<and> u_host (browser_resolveAddress parse set_pathname location endpoint params) = u_host e
        \<and> u_protocol (browser_resolveAddress parse set_pathname location endpoint params)
          = (if u_protocol e = ''https:'' \<or> u_protocol e = ''wss:'' then ''wss:'' else ''ws:'')
    | None \<Rightarrow> node_resolveAddress parse endpoint params = Inl (Plain_Error ''Invalid URL'')
        \<and> u_host (browser_resolveAddress parse set_pathname location endpoint params) = u_host location
        \<and> u_protocol (browser_resolveAddress parse set_pathname location endpoint params)
          = (if u_protocol location = ''https:'' then ''wss:'' else ''ws:'')"
proof -
  have ws: "u_protocol (ws_protocol u) = (if u_protocol u = ''https:'' \<or> u_protocol u = ''wss:'' then ''wss:'' else ''ws:'')"
    if "u_protocol u \<in> set [''http:'', ''https:'', ''ws:'', ''wss:'']" for u
    using that by (auto simp: ws_protocol_def set_protocol_def special_scheme_def)
  note defs = browser_resolveAddress_def node_resolveAddress_def Let_def
  show ?thesis
  proof (cases "parse endpoint")
    case None
    then show ?thesis using page by (auto simp: defs ws set_search_def)
  next
    case (Some e)
    then show ?thesis using assms(1) [OF Some] by (auto simp: defs ws set_search_def)
  qed
qed

theorem websocket_address_witness:
  "let page = \<lparr>u_protocol = ''http:'', u_host = ''a.b'', u_port = Some 8080, u_path = ''/x'', u_search = [], u_hash = []\<rparr>;
     u = browser_resolveAddress (\<lambda>_. None) (\<lambda>p a. a\<lparr>u_path := p\<rparr>) page ''/api'' []
   in u_protocol u = ''ws:'' \<and> u_host u = ''a.b''"
proof -
  define page where "page = \<lparr>u_protocol = ''http:'', u_host = ''a.b'', u_port = Some 8080, u_path = ''/x'', u_search = [], u_hash = []\<rparr>"
  have "u_protocol page = ''http:''" "u_host page = ''a.b''" by (simp_all add: page_def)
  then show ?thesis
    using websocket_address [of "\<lambda>_. None" "''/api''" page "\<lambda>p a. a\<lparr>u_path := p\<rparr>" "[]"]
    unfolding page_def [symmetric] by (simp add: Let_def)
qed

end
