(* ===== verification/Shutdown.thy ===== *)
theory Shutdown
  imports Pond_Server
begin

text \<open>
  How a server shuts down (\<open>#shutdown\<close>, \<open>closeAsync\<close> and \<open>close\<close> of \<open>core/src/server/server.ts\<close>):
  the promises it waits for, the timer that gives up on the sockets, and the callback of \<open>close\<close>.
  The libraries (WebSocket server, HTTP server, backend) settle their promises by events.
\<close>

subsection \<open>Promises\<close>

datatype promise = Pending | Fulfilled | Rejected exn

definition settled :: "promise \<Rightarrow> bool" where
  "settled p \<longleftrightarrow> p \<noteq> Pending"

text \<open>A promise is settled once.\<close>

definition settle :: "exn option \<Rightarrow> promise \<Rightarrow> promise" where
  "settle e p = (if p = Pending then (case e of None \<Rightarrow> Fulfilled | Some e \<Rightarrow> Rejected e) else p)"

text \<open>\<open>Promise.all\<close>, looked at after each event; \<open>p\<close> is what it was before.\<close>

fun first_rejection :: "promise list \<Rightarrow> exn option" where
  "first_rejection [] = None"
| "first_rejection (Rejected e # ps) = Some e"
| "first_rejection (_ # ps) = first_rejection ps"

definition all_of :: "promise list \<Rightarrow> promise \<Rightarrow> promise" where
  "all_of ps p =
     (if p \<noteq> Pending then p
      else case first_rejection ps of
          Some e \<Rightarrow> Rejected e
        | None \<Rightarrow> if list_all (\<lambda>q. q = Fulfilled) ps then Fulfilled else Pending)"

subsection \<open>Shutting down\<close>

text \<open>
  \<open>sd_starting\<close>: the backend's \<open>initialize\<close> has not settled yet. \<open>sd_cleaning\<close>: its \<open>cleanup\<close> was
  called. \<open>sd_result\<close> is the promise of the shutdown.
\<close>

record shutdown =
  sd_pond :: pond
  sd_timer :: bool
  sd_starting :: bool
  sd_cleaning :: bool
  sd_sockets :: promise
  sd_cleanup :: promise
  sd_http :: promise
  sd_result :: promise

definition sd_parts :: "shutdown \<Rightarrow> promise list" where
  "sd_parts s = [sd_sockets s, sd_cleanup s, sd_http s]"

definition sd_await :: "shutdown \<Rightarrow> shutdown" where
  "sd_await s = s\<lparr>sd_result := all_of (sd_parts s) (sd_result s)\<rparr>"

text \<open>
  What the shutdown finds: whether \<open>close\<close> of the WebSocket server throws (it is closed already),
  whether the backend is still starting, and whether the HTTP server is to be closed and listening.
\<close>

definition begin_shutdown :: "bool \<Rightarrow> bool \<Rightarrow> bool \<Rightarrow> pond \<Rightarrow> shutdown" where
  "begin_shutdown close_throws starting close_http pd =
     sd_await \<lparr>sd_pond = pd_closeAsync pd, sd_timer = (\<not> close_throws),
       sd_starting = (pd_backend pd \<noteq> None \<and> starting), sd_cleaning = (pd_backend pd \<noteq> None \<and> \<not> starting),
       sd_sockets = (if close_throws then Fulfilled else Pending),
       sd_cleanup = (if pd_backend pd = None then Fulfilled else Pending),
       sd_http = (if close_http then Pending else Fulfilled), sd_result = Pending\<rparr>"

text \<open>A second call gets the promise of the first.\<close>

definition sd_closeAsync :: "bool \<Rightarrow> bool \<Rightarrow> bool \<Rightarrow> pond \<Rightarrow> shutdown option \<Rightarrow> shutdown" where
  "sd_closeAsync close_throws starting close_http pd running =
     (case running of Some s \<Rightarrow> s | None \<Rightarrow> begin_shutdown close_throws starting close_http pd)"

datatype shutdown_event =
    Force_Timer
  | Sockets_Closed
  | Socket_Gone nat
  | Backend_Started
  | Cleanup_Settled "exn option"
  | Http_Closed "exn option"

text \<open>
  Whether \<open>initialize\<close> of the backend succeeds or fails, its \<open>cleanup\<close> is called then.
\<close>

fun sd_step :: "shutdown_event \<Rightarrow> shutdown \<Rightarrow> shutdown" where
  "sd_step Force_Timer s =
     (if sd_timer s
      then sd_await (s\<lparr>sd_pond := pd_force_close (sd_pond s), sd_timer := False, sd_sockets := settle None (sd_sockets s)\<rparr>)
      else s)"
| "sd_step Sockets_Closed s = sd_await (s\<lparr>sd_timer := False, sd_sockets := settle None (sd_sockets s)\<rparr>)"
| "sd_step (Socket_Gone ws) s = s\<lparr>sd_pond := pd_socket_gone ws (sd_pond s)\<rparr>"
| "sd_step Backend_Started s =
     (if sd_starting s then s\<lparr>sd_starting := False, sd_cleaning := True\<rparr> else s)"
| "sd_step (Cleanup_Settled e) s =
     (if sd_cleaning s then sd_await (s\<lparr>sd_cleaning := False, sd_cleanup := settle e (sd_cleanup s)\<rparr>) else s)"
| "sd_step (Http_Closed e) s = sd_await (s\<lparr>sd_http := settle e (sd_http s)\<rparr>)"

definition sd_run :: "shutdown_event list \<Rightarrow> shutdown \<Rightarrow> shutdown" where
  "sd_run events s = fold sd_step events s"

text \<open>
  \<open>close(callback)\<close>: the calls of the callback once the promise is settled (with no argument, or
  with the error). The callback itself may throw.
\<close>

definition close_calls :: "(exn option \<Rightarrow> exn option) \<Rightarrow> promise \<Rightarrow> exn option list" where
  "close_calls callback result =
     (case result of
        Pending \<Rightarrow> []
      | Rejected e \<Rightarrow> [Some e]
      | Fulfilled \<Rightarrow> None # (case callback None of None \<Rightarrow> [] | Some e \<Rightarrow> [Some e]))"

subsection \<open>Its outcome\<close>

text \<open>
  The promise is what its parts make it; a part that waits has something that can still settle it.
\<close>

definition outcome_ok :: "shutdown \<Rightarrow> bool" where
  "outcome_ok s \<longleftrightarrow>
     (case sd_result s of
        Fulfilled \<Rightarrow> list_all (\<lambda>p. p = Fulfilled) (sd_parts s)
      | Rejected e \<Rightarrow> Rejected e \<in> set (sd_parts s)
      | Pending \<Rightarrow> Pending \<in> set (sd_parts s) \<and> first_rejection (sd_parts s) = None)"

definition sources_ok :: "shutdown \<Rightarrow> bool" where
  "sources_ok s \<longleftrightarrow>
     (sd_sockets s = Pending \<longleftrightarrow> sd_timer s) \<and> (sd_cleanup s = Pending \<longleftrightarrow> sd_starting s \<or> sd_cleaning s)
     \<and> \<not> (sd_starting s \<and> sd_cleaning s)"

lemma first_rejection_mem: "first_rejection ps = Some e \<Longrightarrow> Rejected e \<in> set ps"
  by (induction ps rule: first_rejection.induct) auto

lemma first_rejection_none: "first_rejection ps = None \<Longrightarrow> q \<in> set ps \<Longrightarrow> q = Pending \<or> q = Fulfilled"
  by (induction ps rule: first_rejection.induct) auto

lemma fulfilled_none: "list_all (\<lambda>q. q = Fulfilled) ps \<Longrightarrow> first_rejection ps = None"
  by (induction ps rule: first_rejection.induct) auto

lemma settled_kept: "p \<noteq> Pending \<Longrightarrow> all_of ps p = p" "p \<noteq> Pending \<Longrightarrow> settle e p = p"
  by (simp_all add: all_of_def settle_def)

lemma settle_pending [simp]: "settle e p \<noteq> Pending"
  by (simp add: settle_def split: option.split)

text \<open>What was settled before an event is so after it.\<close>

definition kept :: "promise list \<Rightarrow> promise list \<Rightarrow> bool" where
  "kept ps qs \<longleftrightarrow> list_all2 (\<lambda>p q. p = Pending \<or> q = p) ps qs"

lemma kept_fulfilled: "kept ps qs \<Longrightarrow> list_all (\<lambda>q. q = Fulfilled) ps \<Longrightarrow> list_all (\<lambda>q. q = Fulfilled) qs"
  unfolding kept_def by (induction rule: list_all2_induct) auto

lemma kept_rejected: "kept ps qs \<Longrightarrow> Rejected e \<in> set ps \<Longrightarrow> Rejected e \<in> set qs"
  unfolding kept_def by (induction rule: list_all2_induct) auto

lemma await_outcome:
  assumes "outcome_ok s" "kept (sd_parts s) (sd_parts t)" "sd_result t = sd_result s"
  shows "outcome_ok (sd_await t)"
proof -
  have parts: "sd_parts (t\<lparr>sd_result := p\<rparr>) = sd_parts t" for p by (simp add: sd_parts_def)
  show ?thesis
  proof (cases "sd_result s")
    case Pending
    show ?thesis
    proof (cases "first_rejection (sd_parts t)")
      case None
      then show ?thesis using Pending assms(3) first_rejection_none [OF None]
        by (auto simp: outcome_ok_def parts sd_await_def all_of_def list_all_iff)
    next
      case (Some e)
      then show ?thesis using Pending assms(3) first_rejection_mem [OF Some]
        by (simp add: outcome_ok_def parts sd_await_def all_of_def)
    qed
  next
    case Fulfilled
    with assms kept_fulfilled show ?thesis by (auto simp: outcome_ok_def parts sd_await_def all_of_def)
  next
    case (Rejected e)
    with assms kept_rejected show ?thesis by (auto simp: outcome_ok_def parts sd_await_def all_of_def)
  qed
qed

lemma kept_settle: "kept ps ps" "kept [p, q, r] [settle e p, q, r]" "kept [p, q, r] [p, settle e q, r]" "kept [p, q, r] [p, q, settle e r]"
  by (auto simp: kept_def settle_def list_all2_refl)

lemma outcome_same: "sd_parts t = sd_parts s \<Longrightarrow> sd_result t = sd_result s \<Longrightarrow> outcome_ok s \<Longrightarrow> outcome_ok t"
  unfolding outcome_ok_def by (simp only:)

lemma step_outcome: "outcome_ok s \<Longrightarrow> outcome_ok (sd_step ev s)"
proof (cases ev)
  assume ok: "outcome_ok s"
  note steps = await_outcome [OF ok] outcome_same [OF _ _ ok]
  show ?thesis if "ev = Force_Timer" using that ok by (auto simp: sd_parts_def kept_settle intro!: steps(1))
  show ?thesis if "ev = Sockets_Closed" using that by (auto simp: sd_parts_def kept_settle intro!: steps(1))
  show ?thesis if "ev = Socket_Gone ws" for ws using that by (simp add: steps(2) sd_parts_def)
  show ?thesis if "ev = Backend_Started" using that ok by (simp add: steps(2) sd_parts_def)
  show ?thesis if "ev = Cleanup_Settled e" for e using that ok by (auto simp: sd_parts_def kept_settle intro!: steps(1))
  show ?thesis if "ev = Http_Closed e" for e using that by (auto simp: sd_parts_def kept_settle intro!: steps(1))
qed

lemma step_sources: "sources_ok s \<Longrightarrow> sources_ok (sd_step ev s)"
  by (cases ev) (auto simp: sources_ok_def sd_await_def)

lemma begin_ok: "outcome_ok (begin_shutdown close_throws starting close_http pd)" "sources_ok (begin_shutdown close_throws starting close_http pd)"
  by (auto simp: begin_shutdown_def outcome_ok_def sources_ok_def sd_await_def sd_parts_def all_of_def)

lemma run_ok: "outcome_ok s \<Longrightarrow> sources_ok s \<Longrightarrow> outcome_ok (sd_run events s) \<and> sources_ok (sd_run events s)"
  unfolding sd_run_def by (induction events arbitrary: s) (simp_all add: step_outcome step_sources)

lemma result_final: "sd_result s \<noteq> Pending \<Longrightarrow> sd_result (sd_step ev s) = sd_result s"
  by (cases ev) (simp_all add: sd_await_def settled_kept)

lemma result_final_run: "sd_result s \<noteq> Pending \<Longrightarrow> sd_result (sd_run events s) = sd_result s"
  unfolding sd_run_def by (induction events arbitrary: s) (simp_all add: result_final)

text \<open>
  C17. Whatever happens after a server began to shut down, the promise of \<open>closeAsync\<close> is fulfilled
  when the sockets, the backend and the HTTP server are all through without an error, rejected with
  the error of one of them, and pending when one is pending and none has failed; once settled it
  stays so. As long as it is pending, the timer of the sockets runs, or the backend or the HTTP
  server has not answered: the timeout bounds the waiting for the sockets only.
\<close>

theorem shutdown_outcome:
  "let s = sd_run events (begin_shutdown close_throws starting close_http pd) in
     (case sd_result s of
        Fulfilled \<Rightarrow> list_all (\<lambda>p. p = Fulfilled) (sd_parts s)
      | Rejected e \<Rightarrow> Rejected e \<in> set (sd_parts s)
      | Pending \<Rightarrow> first_rejection (sd_parts s) = None \<and> (sd_timer s \<or> sd_starting s \<or> sd_cleaning s \<or> sd_http s = Pending))
     \<and> sd_result (sd_run later s) = (if settled (sd_result s) then sd_result s else sd_result (sd_run (events @ later)
         (begin_shutdown close_throws starting close_http pd)))"
proof -
  define s where "s = sd_run events (begin_shutdown close_throws starting close_http pd)"
  have ok: "outcome_ok s" "sources_ok s" unfolding s_def using run_ok begin_ok by blast+
  then have "case sd_result s of
        Fulfilled \<Rightarrow> list_all (\<lambda>p. p = Fulfilled) (sd_parts s)
      | Rejected e \<Rightarrow> Rejected e \<in> set (sd_parts s)
      | Pending \<Rightarrow> first_rejection (sd_parts s) = None \<and> (sd_timer s \<or> sd_starting s \<or> sd_cleaning s \<or> sd_http s = Pending)"
    by (auto simp: outcome_ok_def sources_ok_def sd_parts_def split: promise.splits)
  moreover have "sd_result (sd_run later s) = (if settled (sd_result s) then sd_result s else sd_result (sd_run (events @ later)
         (begin_shutdown close_throws starting close_http pd)))"
    using result_final_run by (simp add: settled_def s_def sd_run_def)
  ultimately show ?thesis unfolding s_def Let_def by blast
qed

text \<open>A backend that is still starting holds the shutdown up.\<close>

definition held_up :: "shutdown \<Rightarrow> bool" where
  "held_up s \<longleftrightarrow> sd_starting s \<and> \<not> sd_cleaning s \<and> sd_cleanup s = Pending \<and> sd_sockets s \<in> {Pending, Fulfilled}
     \<and> sd_http s \<in> {Pending, Fulfilled} \<and> sd_result s = Pending"

lemma held_up_await:
  "sd_starting s \<Longrightarrow> \<not> sd_cleaning s \<Longrightarrow> sd_cleanup s = Pending \<Longrightarrow> sd_sockets s = Pending \<or> sd_sockets s = Fulfilled \<Longrightarrow>
     sd_http s = Pending \<or> sd_http s = Fulfilled \<Longrightarrow> sd_result s = Pending \<Longrightarrow> held_up (sd_await s)"
  by (auto simp: held_up_def sd_await_def sd_parts_def all_of_def)

lemma settle_None: "p \<in> {Pending, Fulfilled} \<Longrightarrow> settle None p = Fulfilled"
  by (auto simp: settle_def)

lemma held_up_step:
  assumes "held_up s" "ev \<noteq> Backend_Started" "\<And>e. ev \<noteq> Http_Closed (Some e)"
  shows "held_up (sd_step ev s)"
proof (cases ev)
  case (Http_Closed e)
  with assms(3) have "e = None" by (cases e) auto
  with Http_Closed assms(1) show ?thesis by (auto simp: held_up_def [of s] settle_None intro!: held_up_await)
next
  case (Socket_Gone ws)
  with assms(1) show ?thesis by (simp add: held_up_def)
qed (use assms(1,2) in \<open>auto simp: held_up_def [of s] settle_None intro!: held_up_await\<close>)

lemma held_up_run:
  assumes "Backend_Started \<notin> set events" "\<forall>e. Http_Closed (Some e) \<notin> set events"
  shows "held_up s \<Longrightarrow> held_up (sd_run events s)"
  using assms unfolding sd_run_def
proof (induction events arbitrary: s)
  case (Cons ev events)
  have "held_up (sd_step ev s)" using Cons.prems by (intro held_up_step) auto
  with Cons show ?case by simp
qed simp

text \<open>
  A server whose backend never gets through its \<open>initialize\<close> (one that keeps trying to connect,
  say) never ends its shutdown, whatever the timeout: the promise stays pending and the callback of
  \<open>close\<close> is not called, unless closing the HTTP server fails. (The sockets are terminated in time.)
\<close>

theorem shutdown_waits_for_backend:
  assumes "pd_backend pd \<noteq> None" "Backend_Started \<notin> set events" "\<forall>e. Http_Closed (Some e) \<notin> set events"
  shows "sd_result (sd_run events (begin_shutdown close_throws True close_http pd)) = Pending
    \<and> close_calls callback (sd_result (sd_run events (begin_shutdown close_throws True close_http pd))) = []"
proof -
  have "held_up (begin_shutdown close_throws True close_http pd)"
    unfolding begin_shutdown_def using assms(1) by (intro held_up_await) auto
  then have "sd_result (sd_run events (begin_shutdown close_throws True close_http pd)) = Pending"
    using held_up_run [OF assms(2,3)] by (auto simp: held_up_def)
  then show ?thesis by (simp add: close_calls_def)
qed

theorem shutdown_waits_for_backend_witness:
  "sd_result (sd_run [Http_Closed None, Force_Timer, Sockets_Closed]
     (begin_shutdown False True True (new_pond True (Some 1000) 100 (\<lambda>e i n. [])))) = Pending"
  using shutdown_waits_for_backend [of "new_pond True (Some 1000) 100 (\<lambda>e i n. [])" "[Http_Closed None, Force_Timer, Sockets_Closed]" False True]
  by (simp add: new_pond_def)

end
