(* ===== verification/Async.thy ===== *)
theory Async
  imports Middleware
begin

text \<open>
  Asynchronous functions. The NestJS package (\<open>nest/src\<close>) consists of \<open>async\<close> functions around
  code of the application: guards and handler methods. Such a function is the tree of what it
  does: return, throw, act on the state, or suspend at an \<open>await\<close>. It runs on its own between two
  suspensions; at a suspension other code may change the state, as far as a relation allows.

  The trees have a bind (going on with the result) and a catch (\<open>try\<close>/\<open>catch\<close>), and one that
  returns nothing is what a middleware function sees of a handler: its promise.
\<close>

subsection \<open>Functions\<close>

datatype (dead 'st, dead 'e, dead 'a) prog =
    Return 'a
  | Raise 'e
  | Step "'st \<Rightarrow> 'st \<times> ('st, 'e, 'a) prog"
  | Wait "('st, 'e, 'a) prog"

primrec bind_prog ::
    "('st, 'e, 'a) prog \<Rightarrow> ('a \<Rightarrow> ('st, 'e, 'b) prog) \<Rightarrow> ('st, 'e, 'b) prog" where
  "bind_prog (Return a) k = k a"
| "bind_prog (Raise e) k = Raise e"
| "bind_prog (Step f) k = Step (\<lambda>st. map_prod id (\<lambda>p. bind_prog p k) (f st))"
| "bind_prog (Wait p) k = Wait (bind_prog p k)"

primrec catch_prog ::
    "('st, 'e, 'a) prog \<Rightarrow> ('e \<Rightarrow> ('st, 'f, 'a) prog) \<Rightarrow> ('st, 'f, 'a) prog" where
  "catch_prog (Return a) h = Return a"
| "catch_prog (Raise e) h = h e"
| "catch_prog (Step f) h = Step (\<lambda>st. map_prod id (\<lambda>p. catch_prog p h) (f st))"
| "catch_prog (Wait p) h = Wait (catch_prog p h)"

text \<open>\<open>await\<close> of what a function returns or throws: there is a suspension before it goes on.\<close>

primrec awaiting :: "('st, 'e, 'a) prog \<Rightarrow> ('st, 'e, 'a) prog" where
  "awaiting (Return a) = Wait (Return a)"
| "awaiting (Raise e) = Wait (Raise e)"
| "awaiting (Step f) = Step (\<lambda>st. map_prod id awaiting (f st))"
| "awaiting (Wait p) = Wait (awaiting p)"

text \<open>A call that may throw, and a reading that may.\<close>

definition call :: "('st \<Rightarrow> 'st \<times> 'e option) \<Rightarrow> ('st, 'e, unit) prog" where
  "call f = Step (\<lambda>st. case f st of (st', e) \<Rightarrow> (st', case e of None \<Rightarrow> Return () | Some e \<Rightarrow> Raise e))"

definition ask :: "('st \<Rightarrow> 'e + 'a) \<Rightarrow> ('st, 'e, 'a) prog" where
  "ask f = Step (\<lambda>st. (st, case f st of Inl e \<Rightarrow> Raise e | Inr a \<Rightarrow> Return a))"

text \<open>An object of its own, which only the function can reach, beside the state.\<close>

primrec with_data :: "('st \<times> 'd, 'e, 'a) prog \<Rightarrow> 'd \<Rightarrow> ('st, 'e, 'a) prog" where
  "with_data (Return a) = (\<lambda>d. Return a)"
| "with_data (Raise e) = (\<lambda>d. Raise e)"
| "with_data (Step f) = (\<lambda>d. Step (\<lambda>st.
     case map_prod id with_data (f (st, d)) of ((st', d'), k) \<Rightarrow> (st', k d')))"
| "with_data (Wait p) = (\<lambda>d. Wait (with_data p d))"

text \<open>Running to the end when no other code interferes.\<close>

primrec run_alone :: "('st, 'e, 'a) prog \<Rightarrow> 'st \<Rightarrow> 'st \<times> ('e + 'a)" where
  "run_alone (Return a) = (\<lambda>st. (st, Inr a))"
| "run_alone (Raise e) = (\<lambda>st. (st, Inl e))"
| "run_alone (Step f) = (\<lambda>st. case map_prod id run_alone (f st) of (st', k) \<Rightarrow> k st')"
| "run_alone (Wait p) = run_alone p"

text \<open>
  The promise of a handler, as a middleware function meets it: whatever the handler throws
  rejects the promise. (It does not call \<open>next\<close>.)
\<close>

primrec promise_of :: "('e \<Rightarrow> exn) \<Rightarrow> ('st, 'e, 'a) prog \<Rightarrow> 'st mw_prog" where
  "promise_of x (Return a) = Done"
| "promise_of x (Raise e) = Reject (x e)"
| "promise_of x (Step f) = Act (\<lambda>st. map_prod id (promise_of x) (f st))"
| "promise_of x (Wait p) = Await (promise_of x p)"

subsection \<open>How a function ends\<close>

text \<open>
  \<open>ends env p st st' r\<close>: started in \<open>st\<close>, with other code acting by \<open>env\<close> at the suspensions,
  the function can end in \<open>st'\<close> with the exception or value \<open>r\<close>.
\<close>

inductive ends :: "('st \<Rightarrow> 'st \<Rightarrow> bool) \<Rightarrow> ('st, 'e, 'a) prog \<Rightarrow> 'st \<Rightarrow> 'st \<Rightarrow> 'e + 'a \<Rightarrow> bool"
  for env :: "'st \<Rightarrow> 'st \<Rightarrow> bool"
  where
  ends_return: "ends env (Return a) st st (Inr a)"
| ends_raise: "ends env (Raise e) st st (Inl e)"
| ends_step: "ends env (snd (f st)) (fst (f st)) st' r \<Longrightarrow> ends env (Step f) st st' r"
| ends_wait: "env\<^sup>*\<^sup>* st st1 \<Longrightarrow> ends env p st1 st' r \<Longrightarrow> ends env (Wait p) st st' r"

inductive_simps ends_simps [simp]:
  "ends env (Return a) st st' r"
  "ends env (Raise e) st st' r"
  "ends env (Step f) st st' r"

inductive_simps ends_Wait: "ends env (Wait p) st st' r"

lemma prog_tree_induct [case_names Return Raise Step Wait]:
  assumes "\<And>a. P (Return a)" "\<And>e. P (Raise e)"
    and step: "\<And>f. (\<And>st. P (snd (f st))) \<Longrightarrow> P (Step f)"
    and wait: "\<And>p. P p \<Longrightarrow> P (Wait p)"
  shows "P p"
proof (induction p)
  case (Step f)
  have "P (snd (f st))" for st
    using Step.IH [of "f st" "snd (f st)"] by (metis prod.collapse rangeI snds.intros)
  then show ?case by (rule step)
qed (use assms in auto)

lemma ends_bind:
  "ends env (bind_prog p k) st st' r \<longleftrightarrow>
     (\<exists>e. r = Inl e \<and> ends env p st st' (Inl e))
     \<or> (\<exists>a st1. ends env p st st1 (Inr a) \<and> ends env (k a) st1 st' r)"
proof (induction p arbitrary: st rule: prog_tree_induct)
  case (Wait p)
  then show ?case by (auto simp: ends_Wait; blast)
qed auto

lemma ends_catch:
  "ends env (catch_prog p h) st st' r \<longleftrightarrow>
     (\<exists>a. r = Inr a \<and> ends env p st st' (Inr a))
     \<or> (\<exists>e st1. ends env p st st1 (Inl e) \<and> ends env (h e) st1 st' r)"
proof (induction p arbitrary: st rule: prog_tree_induct)
  case (Wait p)
  then show ?case by (auto simp: ends_Wait; blast)
qed auto

lemma ends_awaiting:
  "ends env (awaiting p) st st' r \<longleftrightarrow> (\<exists>st1. ends env p st st1 r \<and> env\<^sup>*\<^sup>* st1 st')"
proof (induction p arbitrary: st rule: prog_tree_induct)
  case (Wait p)
  then show ?case by (auto simp: ends_Wait; blast)
qed (auto simp: ends_Wait)

lemma ends_call:
  "ends env (call f) st st' r \<longleftrightarrow> f st = (st', None) \<and> r = Inr () \<or> (\<exists>e. f st = (st', Some e) \<and> r = Inl e)"
  by (cases "f st"; cases "snd (f st)") (auto simp: call_def)

lemma ends_ask: "ends env (ask f) st st' r \<longleftrightarrow> st' = st \<and> r = f st"
  by (auto simp: ask_def split: sum.splits)

lemma ends_alone: "ends (\<lambda>_ _. False) p st st' r \<longleftrightarrow> run_alone p st = (st', r)"
proof (induction p arbitrary: st rule: prog_tree_induct)
  case (Wait p)
  have "(\<lambda>_ _. False)\<^sup>*\<^sup>* s t \<longleftrightarrow> s = t" for s t :: 'a
    by (auto elim: rtranclp.cases)
  with Wait show ?case by (simp add: ends_Wait)
qed (auto simp: case_prod_beta)

lemma run_alone_bind:
  "run_alone (bind_prog p k) st = (case run_alone p st of (st', Inl e) \<Rightarrow> (st', Inl e) | (st', Inr a) \<Rightarrow> run_alone (k a) st')"
  by (induction p arbitrary: st rule: prog_tree_induct) (simp_all add: case_prod_beta)

lemma run_alone_catch:
  "run_alone (catch_prog p h) st = (case run_alone p st of (st', Inl e) \<Rightarrow> run_alone (h e) st' | (st', Inr a) \<Rightarrow> (st', Inr a))"
  by (induction p arbitrary: st rule: prog_tree_induct) (simp_all add: case_prod_beta)

lemma run_alone_awaiting: "run_alone (awaiting p) st = run_alone p st"
  by (induction p arbitrary: st rule: prog_tree_induct) (simp_all add: case_prod_beta)

lemma run_alone_call:
  "run_alone (call f) st = (fst (f st), case snd (f st) of None \<Rightarrow> Inr () | Some e \<Rightarrow> Inl e)"
  by (simp add: call_def case_prod_beta split: option.split)

lemma run_alone_ask: "run_alone (ask f) st = (st, f st)"
  by (simp add: ask_def split: sum.split)

lemma run_alone_with_data:
  "run_alone (with_data p d) st = (case run_alone p (st, d) of ((st', _), r) \<Rightarrow> (st', r))"
proof (induction p arbitrary: st d rule: prog_tree_induct)
  case (Step f)
  obtain st1 d1 q where f: "f (st, d) = ((st1, d1), q)" by (metis prod.collapse)
  show ?case using Step.IH [of "(st, d)" d1 st1] by (simp add: f)
qed simp_all

lemmas run_alone_rules = run_alone_bind run_alone_catch run_alone_awaiting run_alone_call run_alone_ask run_alone_with_data

text \<open>Data beside the state is changed by the function only.\<close>

definition beside :: "('st \<Rightarrow> 'st \<Rightarrow> bool) \<Rightarrow> 'st \<times> 'd \<Rightarrow> 'st \<times> 'd \<Rightarrow> bool" where
  "beside R x y \<longleftrightarrow> R (fst x) (fst y) \<and> snd x = snd y"

lemma beside_rtranclp: "(beside R)\<^sup>*\<^sup>* = beside R\<^sup>*\<^sup>*"
proof (intro ext iffI)
  fix x y
  show "beside R\<^sup>*\<^sup>* x y" if "(beside R)\<^sup>*\<^sup>* x y"
    using that by (induction) (auto simp: beside_def intro: rtranclp.rtrancl_into_rtrancl)
  assume "beside R\<^sup>*\<^sup>* x y"
  then obtain d where xy: "x = (fst x, d)" "y = (fst y, d)" "R\<^sup>*\<^sup>* (fst x) (fst y)"
    by (cases x; cases y) (auto simp: beside_def)
  have "(beside R)\<^sup>*\<^sup>* (fst x, d) (fst y, d)"
    using xy(3) by induction (auto simp: beside_def intro: rtranclp.rtrancl_into_rtrancl)
  with xy show "(beside R)\<^sup>*\<^sup>* x y" by simp
qed

lemma ends_with_data:
  "ends env (with_data p d) st st' r \<longleftrightarrow> (\<exists>d'. ends (beside env) p (st, d) (st', d') r)"
proof (induction p arbitrary: st d rule: prog_tree_induct)
  case (Step f)
  obtain st1 d1 q where f: "f (st, d) = ((st1, d1), q)" by (metis prod.collapse)
  show ?case using Step.IH [of "(st, d)" d1 st1] by (simp add: f)
next
  case (Wait p)
  have "beside R (st, d) x \<longleftrightarrow> (\<exists>st1. R st st1 \<and> x = (st1, d))" for R x
    by (cases x) (auto simp: beside_def)
  with Wait show ?case by (auto simp: ends_Wait beside_rtranclp; blast)
qed auto

subsection \<open>What the steps of a function respect\<close>

primrec steps_in :: "('st \<Rightarrow> 'st \<Rightarrow> bool) \<Rightarrow> ('st, 'e, 'a) prog \<Rightarrow> bool" where
  "steps_in R (Return a) = True"
| "steps_in R (Raise e) = True"
| "steps_in R (Step f) = (\<forall>st. R st (fst (f st)) \<and> snd (map_prod id (steps_in R) (f st)))"
| "steps_in R (Wait p) = steps_in R p"

lemma steps_in_bind:
  "steps_in R p \<Longrightarrow> (\<And>a. steps_in R (k a)) \<Longrightarrow> steps_in R (bind_prog p k)"
  by (induction p rule: prog_tree_induct) auto

lemma steps_in_catch:
  "steps_in R p \<Longrightarrow> (\<And>e. steps_in R (h e)) \<Longrightarrow> steps_in R (catch_prog p h)"
  by (induction p rule: prog_tree_induct) auto

lemma steps_in_awaiting: "steps_in R (awaiting p) \<longleftrightarrow> steps_in R p"
  by (induction p rule: prog_tree_induct) auto

lemma steps_in_call: "steps_in R (call f) \<longleftrightarrow> (\<forall>st. R st (fst (f st)))"
  by (auto simp: call_def case_prod_beta split: option.split)

lemma steps_in_ask: "reflp R \<Longrightarrow> steps_in R (ask f)"
  by (auto simp: ask_def reflpD split: sum.split)

lemma steps_in_ends:
  assumes R: "reflp R" "transp R" and env: "env \<le> R"
  shows "steps_in R p \<Longrightarrow> ends env p st st' r \<Longrightarrow> R st st'"
proof (induction p arbitrary: st rule: prog_tree_induct)
  case (Step f)
  then have "R st (fst (f st))" "R (fst (f st)) st'" by (auto simp: snd_map_prod)
  with R(2) show ?case by (blast elim: transpE)
next
  case (Wait p)
  then obtain st1 where st1: "env\<^sup>*\<^sup>* st st1" "ends env p st1 st' r" by (auto simp: ends_Wait)
  have "R st st1"
    using st1(1) by induction (use env R in \<open>auto intro: reflpD elim: transpE\<close>)
  moreover have "R st1 st'" using Wait st1(2) by simp
  ultimately show ?case using R(2) by (blast elim: transpE)
qed (use R in \<open>auto intro: reflpD\<close>)

lemmas ends_rules = ends_bind ends_catch ends_awaiting ends_call ends_ask

end
