(* ===== verification/Nest_Context.thy ===== *)
theory Nest_Context
  imports Async Wrappers Outgoing Pond_Server
begin

text \<open>
  The \<open>Context\<close> of the NestJS package (\<open>nest/src/context/context.ts\<close>): one object for the five
  kinds of handler, in front of the context object of the core it was made from. Its methods
  pick the object they need and throw when the handler has none.

  The core's objects are given by their operations over a state \<open>'st\<close>, so that one definition of
  \<open>Context\<close> serves handlers over an endpoint and over the whole server. The second part of the
  theory builds these objects from the operations of the core.
\<close>

subsection \<open>The objects of the core\<close>

text \<open>
  What several contexts have in common: a request that can be accepted or declined, an addressee
  that can be replied to and given assigns, a channel that can be sent to.
\<close>

type_synonym 'st action = "'st \<Rightarrow> 'st \<times> exn option"

record 'st request_ops =
  rq_accept :: "obj option \<Rightarrow> 'st action"
  rq_decline :: "string option \<Rightarrow> nat option \<Rightarrow> 'st action"
  rq_responded :: "'st \<Rightarrow> bool"

record 'st reply_ops =
  rp_assign :: "obj \<Rightarrow> 'st action"
  rp_reply :: "string \<Rightarrow> obj \<Rightarrow> 'st action"

record 'st channel_ops =
  bo_broadcast :: "string \<Rightarrow> obj \<Rightarrow> 'st action"
  bo_broadcastFrom :: "string \<Rightarrow> obj \<Rightarrow> 'st action"
  bo_broadcastTo :: "string \<Rightarrow> obj \<Rightarrow> string + string list \<Rightarrow> 'st action"
  bo_trackPresence :: "obj \<Rightarrow> 'st action"

record 'st channel_object =
  ho_engine :: nat
  ho_upsertPresence :: "string \<Rightarrow> obj \<Rightarrow> 'st action"

record 'st connection_object =
  xo_request :: "'st request_ops"
  xo_reply :: "'st reply_ops"
  xo_client :: "'st \<Rightarrow> string"
  xo_params :: "'st \<Rightarrow> event_params"

record 'st join_object =
  jo_request :: "'st request_ops"
  jo_reply :: "'st reply_ops"
  jo_ops :: "'st channel_ops"
  jo_channel :: "'st channel_object"
  jo_user :: "'st \<Rightarrow> user_data"
  jo_event :: "'st \<Rightarrow> context_event"
  jo_joinParams :: "'st \<Rightarrow> obj"

record 'st event_object =
  eo_reply :: "'st reply_ops"
  eo_ops :: "'st channel_ops"
  eo_updatePresence :: "obj \<Rightarrow> 'st action"
  eo_removePresence :: "string option \<Rightarrow> 'st action"
  eo_evictUser :: "string \<Rightarrow> string option \<Rightarrow> 'st action"
  eo_channel :: "'st channel_object"
  eo_user :: "'st \<Rightarrow> user_data res"
  eo_event :: context_event

record 'st outgoing_object =
  oo_transform :: "obj \<Rightarrow> 'st action"
  oo_block :: "'st action"
  oo_channel :: "'st channel_object"
  oo_user :: "'st \<Rightarrow> user_data res"
  oo_event :: "'st \<Rightarrow> context_event res"
  oo_payload :: "'st \<Rightarrow> obj"
  oo_action :: "'st \<Rightarrow> server_action"

record 'st leave_object =
  lo_user :: user_data
  lo_channel :: "'st channel_object"

text \<open>\<open>NestContext\<close>: at most one of the objects is there.\<close>

record 'st nest_context =
  nc_connection :: "'st connection_object option"
  nc_join :: "'st join_object option"
  nc_event :: "'st event_object option"
  nc_outgoing :: "'st outgoing_object option"
  nc_leave :: "'st leave_object option"

text \<open>
  The argument of a handler together with its lifecycle, and the switch of \<open>getNestContext\<close>.
\<close>

datatype (dead 'st) handler_input =
    Connection_Input "'st connection_object"
  | Join_Input "'st join_object"
  | Event_Input "'st event_object"
  | Outgoing_Input "'st outgoing_object"
  | Leave_Input "'st leave_object"

definition no_context :: "'st nest_context" where
  "no_context = \<lparr>nc_connection = None, nc_join = None, nc_event = None, nc_outgoing = None, nc_leave = None\<rparr>"

fun getNestContext :: "'st handler_input \<Rightarrow> 'st nest_context" where
  "getNestContext (Connection_Input o') = no_context\<lparr>nc_connection := Some o'\<rparr>"
| "getNestContext (Join_Input o') = no_context\<lparr>nc_join := Some o'\<rparr>"
| "getNestContext (Event_Input o') = no_context\<lparr>nc_event := Some o'\<rparr>"
| "getNestContext (Outgoing_Input o') = no_context\<lparr>nc_outgoing := Some o'\<rparr>"
| "getNestContext (Leave_Input o') = no_context\<lparr>nc_leave := Some o'\<rparr>"

subsection \<open>Reading\<close>

text \<open>\<open>a ?? b\<close> of two objects.\<close>

definition or_else :: "'a option \<Rightarrow> 'a option \<Rightarrow> 'a option" where
  "or_else a b = (case a of Some x \<Rightarrow> Some x | None \<Rightarrow> b)"

lemma or_else_simps [simp]: "or_else (Some x) b = Some x" "or_else None b = b"
  by (simp_all add: or_else_def)

definition nx_payload :: "'st nest_context \<Rightarrow> 'st \<Rightarrow> obj option" where
  "nx_payload x st =
     or_else (map_option (\<lambda>e. xe_payload (eo_event e)) (nc_event x)) (map_option (\<lambda>g. oo_payload g st) (nc_outgoing x))"

definition nx_action :: "'st nest_context \<Rightarrow> 'st \<Rightarrow> server_action option" where
  "nx_action x st = map_option (\<lambda>g. oo_action g st) (nc_outgoing x)"

definition nx_joinParams :: "'st nest_context \<Rightarrow> 'st \<Rightarrow> obj option" where
  "nx_joinParams x st = map_option (\<lambda>j. jo_joinParams j st) (nc_join x)"

definition nx_user :: "'st nest_context \<Rightarrow> 'st \<Rightarrow> user_data res" where
  "nx_user x st =
     (case nc_connection x of
        Some c \<Rightarrow> Inr \<lparr>ud_id = xo_client c st, ud_assigns = [], ud_presence = []\<rparr>
      | None \<Rightarrow>
          (case nc_leave x of
             Some l \<Rightarrow> Inr (lo_user l)
           | None \<Rightarrow>
               (case or_else (map_option (\<lambda>j. Inr (jo_user j st)) (nc_join x))
                    (or_else (map_option (\<lambda>e. eo_user e st) (nc_event x))
                      (map_option (\<lambda>g. oo_user g st) (nc_outgoing x))) of
                  Some user \<Rightarrow> user
                | None \<Rightarrow> Inl (Plain_Error ''PondSocket context does not contain a user''))))"

definition nx_presence :: "'st nest_context \<Rightarrow> 'st \<Rightarrow> obj res" where
  "nx_presence x st = res_bind (nx_user x st) (\<lambda>u. Inr (ud_presence u))"

definition nx_assigns :: "'st nest_context \<Rightarrow> 'st \<Rightarrow> obj res" where
  "nx_assigns x st = res_bind (nx_user x st) (\<lambda>u. Inr (ud_assigns u))"

definition nx_channel :: "'st nest_context \<Rightarrow> 'st channel_object option" where
  "nx_channel x =
     or_else (map_option jo_channel (nc_join x)) (or_else (map_option eo_channel (nc_event x))
       (or_else (map_option oo_channel (nc_outgoing x)) (map_option lo_channel (nc_leave x))))"

definition nx_event :: "'st nest_context \<Rightarrow> 'st \<Rightarrow> context_event option res" where
  "nx_event x st =
     (case nc_connection x of
        Some c \<Rightarrow> Inr (Some \<lparr>xe_event = ''CONNECTION'', xe_query = ep_query (xo_params c st),
          xe_params = ep_params (xo_params c st), xe_payload = []\<rparr>)
      | None \<Rightarrow>
          (case or_else (map_option (\<lambda>j. Inr (jo_event j st)) (nc_join x))
               (or_else (map_option (\<lambda>e. Inr (eo_event e)) (nc_event x))
                 (map_option (\<lambda>g. oo_event g st) (nc_outgoing x))) of
             Some event \<Rightarrow> res_bind event (\<lambda>e. Inr (Some e))
           | None \<Rightarrow> Inr None))"

definition nx_params :: "'st nest_context \<Rightarrow> 'st \<Rightarrow> string jmap res" where
  "nx_params x st = res_bind (nx_event x st) (\<lambda>e. Inr (case_option [] xe_params e))"

definition nx_query :: "'st nest_context \<Rightarrow> 'st \<Rightarrow> string jmap res" where
  "nx_query x st = res_bind (nx_event x st) (\<lambda>e. Inr (case_option [] xe_query e))"

subsection \<open>Acting\<close>

text \<open>A method that needs one of several objects, and what it throws without them.\<close>

definition using_object :: "string \<Rightarrow> 'o option \<Rightarrow> ('o \<Rightarrow> 'st action) \<Rightarrow> 'st action" where
  "using_object message obj f st =
     (case obj of None \<Rightarrow> (st, Some (Plain_Error message)) | Some ob \<Rightarrow> f ob st)"

definition pending_request :: "'st nest_context \<Rightarrow> 'st request_ops option" where
  "pending_request x = or_else (map_option jo_request (nc_join x)) (map_option xo_request (nc_connection x))"

definition addressee :: "'st nest_context \<Rightarrow> 'st reply_ops option" where
  "addressee x = or_else (map_option jo_reply (nc_join x))
     (or_else (map_option eo_reply (nc_event x)) (map_option xo_reply (nc_connection x)))"

definition getChannelContext :: "'st nest_context \<Rightarrow> 'st channel_ops option" where
  "getChannelContext x = or_else (map_option jo_ops (nc_join x)) (map_option eo_ops (nc_event x))"

definition nx_accept :: "'st nest_context \<Rightarrow> obj option \<Rightarrow> 'st action" where
  "nx_accept x assigns =
     using_object ''accept() is only available for connection and join handlers'' (pending_request x)
       (\<lambda>c. rq_accept c assigns)"

definition nx_decline :: "'st nest_context \<Rightarrow> string option \<Rightarrow> nat option \<Rightarrow> 'st action" where
  "nx_decline x message status =
     using_object ''decline() is only available for connection and join handlers'' (pending_request x)
       (\<lambda>c. rq_decline c message status)"

definition nx_assign :: "'st nest_context \<Rightarrow> obj \<Rightarrow> 'st action" where
  "nx_assign x assigns =
     using_object ''assign() is not available for this handler'' (addressee x) (\<lambda>c. rp_assign c assigns)"

text \<open>\<open>reply(payload)\<close> or \<open>reply(event, payload)\<close>.\<close>

definition nx_reply :: "'st nest_context \<Rightarrow> obj + string \<times> obj option \<Rightarrow> 'st action" where
  "nx_reply x eventOrPayload =
     using_object ''reply() is not available for this handler'' (addressee x) (\<lambda>c.
     case eventOrPayload of
       Inl payload \<Rightarrow> using_object ''reply(payload) is only available for event handlers'' (nc_event x)
         (\<lambda>e. rp_reply (eo_reply e) (xe_event (eo_event e)) payload)
     | Inr (event, payload) \<Rightarrow> rp_reply c event (case_option [] id payload))"

definition nx_broadcast :: "'st nest_context \<Rightarrow> string \<Rightarrow> obj \<Rightarrow> 'st action" where
  "nx_broadcast x event payload =
     using_object ''broadcast() is only available for join and event handlers'' (getChannelContext x)
       (\<lambda>c. bo_broadcast c event payload)"

definition nx_broadcastFrom :: "'st nest_context \<Rightarrow> string \<Rightarrow> obj \<Rightarrow> 'st action" where
  "nx_broadcastFrom x event payload =
     using_object ''broadcastFrom() is only available for join and event handlers'' (getChannelContext x)
       (\<lambda>c. bo_broadcastFrom c event payload)"

definition nx_broadcastTo :: "'st nest_context \<Rightarrow> string \<Rightarrow> obj \<Rightarrow> string + string list \<Rightarrow> 'st action" where
  "nx_broadcastTo x event payload users =
     using_object ''broadcastTo() is only available for join and event handlers'' (getChannelContext x)
       (\<lambda>c. bo_broadcastTo c event payload users)"

definition nx_trackPresence :: "'st nest_context \<Rightarrow> obj \<Rightarrow> 'st action" where
  "nx_trackPresence x presence =
     using_object ''trackPresence() is only available for join and event handlers'' (getChannelContext x)
       (\<lambda>c. bo_trackPresence c presence)"

definition nx_updatePresence :: "'st nest_context \<Rightarrow> obj \<Rightarrow> 'st action" where
  "nx_updatePresence x presence =
     using_object ''updatePresence() is only available for event handlers'' (nc_event x)
       (\<lambda>e. eo_updatePresence e presence)"

definition nx_evictUser :: "'st nest_context \<Rightarrow> string \<Rightarrow> string option \<Rightarrow> 'st action" where
  "nx_evictUser x reason userId =
     using_object ''evictUser() is only available for event handlers'' (nc_event x)
       (\<lambda>e. eo_evictUser e reason userId)"

definition nx_removePresence :: "'st nest_context \<Rightarrow> string option \<Rightarrow> 'st action" where
  "nx_removePresence x userId =
     using_object ''removePresence() is only available for event handlers'' (nc_event x)
       (\<lambda>e. eo_removePresence e userId)"

definition nx_transform :: "'st nest_context \<Rightarrow> obj \<Rightarrow> 'st action" where
  "nx_transform x payload =
     using_object ''transform() is only available for outgoing handlers'' (nc_outgoing x)
       (\<lambda>g. oo_transform g payload)"

definition nx_block :: "'st nest_context \<Rightarrow> 'st action" where
  "nx_block x = using_object ''block() is only available for outgoing handlers'' (nc_outgoing x) oo_block"

text \<open>The values guards and handlers leave for each other in the \<open>Context\<close>.\<close>

definition nx_addData :: "string \<Rightarrow> json \<Rightarrow> obj \<Rightarrow> obj" where
  "nx_addData key value data = jm_set key value data"

definition nx_getData :: "string \<Rightarrow> obj \<Rightarrow> json option" where
  "nx_getData key data = nullish (jm_get data key) None"

subsection \<open>The objects over the core's operations\<close>

definition channel_of :: "nat \<Rightarrow> server channel_object" where
  "channel_of i = \<lparr>ho_engine = i, ho_upsertPresence = wrap_upsertPresence i\<rparr>"

definition join_request_ops :: "nat \<Rightarrow> server request_ops" where
  "join_request_ops j =
     \<lparr>rq_accept = jc_accept j, rq_decline = jc_decline j, rq_responded = jc_hasResponded j\<rparr>"

definition join_object :: "nat \<Rightarrow> nat \<Rightarrow> server join_object" where
  "join_object j i =
     \<lparr>jo_request = join_request_ops j,
      jo_reply = \<lparr>rp_assign = jc_assign j, rp_reply = jc_reply j\<rparr>,
      jo_ops = \<lparr>bo_broadcast = jc_sendTo j ALL_USERS, bo_broadcastFrom = jc_sendTo j ALL_EXCEPT_SENDER,
        bo_broadcastTo = (\<lambda>event payload users. jc_sendTo j (Users (case users of Inl u \<Rightarrow> [u] | Inr us \<Rightarrow> us)) event payload),
        bo_trackPresence = jc_trackPresence j\<rparr>,
      jo_channel = channel_of i, jo_user = jc_user j,
      jo_event = (\<lambda>sv. \<lparr>xe_event = ch_name (engine_of i sv), xe_query = ep_query (jc_params (jc_get j sv)),
        xe_params = ep_params (jc_params (jc_get j sv)), xe_payload = jc_join_params (jc_get j sv)\<rparr>),
      jo_joinParams = (\<lambda>sv. jc_join_params (jc_get j sv))\<rparr>"

definition event_object :: "event_context \<Rightarrow> server event_object" where
  "event_object x =
     \<lparr>eo_reply = \<lparr>rp_assign = ec_assign x, rp_reply = ec_reply x\<rparr>,
      eo_ops = \<lparr>bo_broadcast = ec_broadcast x, bo_broadcastFrom = ec_broadcastFrom x,
        bo_broadcastTo = ec_broadcastTo x, bo_trackPresence = (\<lambda>presence. ec_trackPresence x presence None)\<rparr>,
      eo_updatePresence = (\<lambda>presence. ec_updatePresence x presence None),
      eo_removePresence = ec_removePresence x, eo_evictUser = ec_evictUser x,
      eo_channel = channel_of (ec_engine x), eo_user = bc_user x, eo_event = bc_event x\<rparr>"

definition connection_request_ops :: "nat \<Rightarrow> pond request_ops" where
  "connection_request_ops c =
     \<lparr>rq_accept = cx_accept c, rq_decline = cx_decline c, rq_responded = cx_hasResponded c\<rparr>"

definition connection_object :: "nat \<Rightarrow> pond connection_object" where
  "connection_object c =
     \<lparr>xo_request = connection_request_ops c,
      xo_reply = \<lparr>rp_assign = cx_assign c, rp_reply = cx_reply c\<rparr>,
      xo_client = (\<lambda>pd. cx_client (pd_contexts pd ! c)), xo_params = (\<lambda>pd. cx_event (pd_contexts pd ! c))\<rparr>"

text \<open>
  An outgoing handler has a context of its own, beside the state of the endpoint; what its chain
  needs is the list of the calls it made on it.
\<close>

type_synonym out_state = "server \<times> out_ctx \<times> out_call list"

definition out_act :: "out_call \<Rightarrow> out_state action" where
  "out_act c st = (case st of (sv, x, calls) \<Rightarrow> ((sv, oc_call c x, calls @ [c]), None))"

definition beside_context :: "server action \<Rightarrow> out_state action" where
  "beside_context f st = (case f (fst st) of (sv, e) \<Rightarrow> ((sv, snd st), e))"

definition outgoing_object :: "nat \<Rightarrow> string \<Rightarrow> out_state outgoing_object" where
  "outgoing_object i sender =
     \<lparr>oo_transform = (\<lambda>payload. out_act (Transform payload)), oo_block = out_act Block,
      oo_channel = \<lparr>ho_engine = i,
        ho_upsertPresence = (\<lambda>userId presence. beside_context (wrap_upsertPresence i userId presence))\<rparr>,
      oo_user = (\<lambda>(sv, _). getUserData sender (engine_of i sv)),
      oo_event = (\<lambda>(_, x, _). res_bind (oc_get_event x) (\<lambda>(name, params, _, payload).
        Inr \<lparr>xe_event = name, xe_query = ep_query params, xe_params = ep_params params, xe_payload = payload\<rparr>)),
      oo_payload = (\<lambda>(_, x, _). oc_payload x), oo_action = (\<lambda>(_, x, _). oc_action x)\<rparr>"

definition leave_object :: "nat \<Rightarrow> user_data \<Rightarrow> server leave_object" where
  "leave_object i user = \<lparr>lo_user = user, lo_channel = channel_of i\<rparr>"

end
