(* ===== verification/Nest_Handler.thy ===== *)
theory Nest_Handler
  imports Nest_Context
begin

text \<open>
  Running a handler of a NestJS application: the guards, the parameters, the method, and what is
  done with the value it returns or the exception it throws (\<open>nest/src/performers\<close>,
  \<open>nest/src/helpers\<close> and the handler decorators of \<open>nest/src/decorators\<close>).

  The guards, pipes, parameter callbacks and methods are code of the application. NestJS itself is
  outside: its \<open>ModuleRef\<close> is a parameter, and of its \<open>HttpException\<close> there is what the source
  reads from it.
\<close>

subsection \<open>Exceptions\<close>

datatype nest_exn = Thrown exn | Http_Exception string nat "json option"

text \<open>As the core sees it: a NestJS \<open>HttpException\<close> is an \<open>Error\<close> but not an \<open>HttpError\<close>.\<close>

fun core_exn :: "nest_exn \<Rightarrow> exn" where
  "core_exn (Thrown e) = e"
| "core_exn (Http_Exception message status data) = Plain_Error message"

definition nest_error :: "string \<Rightarrow> nest_exn" where
  "nest_error message = Thrown (Plain_Error message)"

type_synonym 'a nest_res = "nest_exn + 'a"

definition nest_bind :: "'a nest_res \<Rightarrow> ('a \<Rightarrow> 'b nest_res) \<Rightarrow> 'b nest_res" where
  "nest_bind r f = (case r of Inl e \<Rightarrow> Inl e | Inr x \<Rightarrow> f x)"

lemma nest_bind_simps [simp]: "nest_bind (Inl e) f = Inl e" "nest_bind (Inr x) f = f x"
  by (simp_all add: nest_bind_def)

definition from_core :: "'a res \<Rightarrow> 'a nest_res" where
  "from_core r = (case r of Inl e \<Rightarrow> Inl (Thrown e) | Inr x \<Rightarrow> Inr x)"

subsection \<open>Several promises\<close>

text \<open>
  \<open>Promise.all\<close>: all values, or the exception of the promise that is rejected first. Which one
  that is among the rejected ones depends on their timing: \<open>first\<close> picks it.
\<close>

definition rejected :: "'a nest_res list \<Rightarrow> nest_exn list" where
  "rejected rs = concat (map (case_sum (\<lambda>e. [e]) (\<lambda>_. [])) rs)"

definition promise_all :: "(nat \<Rightarrow> nat) \<Rightarrow> 'a nest_res list \<Rightarrow> 'a list nest_res" where
  "promise_all first rs =
     (let es = rejected rs in
      if es = [] then Inr (map projr rs) else Inl (es ! (first (length es) mod length es)))"

lemma rejected_set: "set (rejected rs) = {e. Inl e \<in> set rs}"
  by (induction rs) (auto simp: rejected_def split: sum.splits)

lemma promise_all_Inl: "promise_all first rs = Inl e \<Longrightarrow> Inl e \<in> set rs"
proof -
  assume "promise_all first rs = Inl e"
  then have ne: "rejected rs \<noteq> []" and e: "e = rejected rs ! (first (length (rejected rs)) mod length (rejected rs))"
    by (auto simp: promise_all_def Let_def split: if_splits)
  from ne have "e \<in> set (rejected rs)" unfolding e by (intro nth_mem mod_less_divisor) simp
  then show ?thesis by (simp add: rejected_set)
qed

lemma promise_all_Inr: "promise_all first rs = Inr xs \<longleftrightarrow> rs = map Inr xs"
proof -
  have "rejected rs = [] \<longleftrightarrow> (\<forall>r \<in> set rs. \<exists>x. r = Inr x)"
    by (induction rs) (auto simp: rejected_def split: sum.splits)
  moreover have "\<forall>r \<in> set rs. \<exists>x. r = Inr x \<Longrightarrow> rs = map Inr (map projr rs)"
    by (induction rs) auto
  ultimately show ?thesis by (auto simp: promise_all_def Let_def comp_def)
qed

subsection \<open>Instances\<close>

text \<open>
  What \<open>retrieveInstance\<close> asks of the \<open>ModuleRef\<close>: an instance at once (\<open>get\<close> may throw), or
  after an \<open>await\<close> (\<open>resolve\<close> may reject). A class is given by its name.
\<close>

record 'i module_ref =
  mr_get :: "string \<Rightarrow> 'i option"
  mr_resolve :: "string \<Rightarrow> 'i option"

definition retrieveInstance :: "'i module_ref \<Rightarrow> string \<Rightarrow> 'i nest_res" where
  "retrieveInstance m c =
     (case mr_get m c of
        Some i \<Rightarrow> Inr i
      | None \<Rightarrow>
          (case mr_resolve m c of
             Some i \<Rightarrow> Inr i
           | None \<Rightarrow> Inl (nest_error (''Unable to resolve '' @ c
               @ ''. Register it in the PondSocketModule providers array.''))))"

subsection \<open>Guards\<close>

text \<open>The code of an application acts on the state and on the data of its \<open>Context\<close>.\<close>

type_synonym ('st, 'a) code = "('st \<times> obj, nest_exn, 'a) prog"

type_synonym 'st guard = "'st nest_context \<Rightarrow> ('st, bool) code"

definition of_result :: "'a nest_res \<Rightarrow> ('st, nest_exn, 'a) prog" where
  "of_result r = (case r of Inl e \<Rightarrow> Raise e | Inr a \<Rightarrow> Return a)"

fun run_guards :: "'st nest_context \<Rightarrow> 'st guard list \<Rightarrow> ('st, bool) code" where
  "run_guards x [] = Return True"
| "run_guards x (guard # rest) =
     bind_prog (awaiting (guard x)) (\<lambda>ok. if ok then run_guards x rest else Return False)"

definition performGuards ::
    "(nat \<Rightarrow> nat) \<Rightarrow> 'st guard module_ref \<Rightarrow> string list \<Rightarrow> string list \<Rightarrow> string list \<Rightarrow> 'st nest_context \<Rightarrow>
     ('st, bool) code" where
  "performGuards first m globalGuards classGuards methodGuards x =
     bind_prog (Wait (of_result (promise_all first
         (map (retrieveInstance m) (globalGuards @ classGuards @ methodGuards)))))
       (run_guards x)"

definition unauthorized_payload :: obj where
  "unauthorized_payload = [(''code'', JStr (error_type_str UNAUTHORIZED_BROADCAST)),
     (''message'', JStr ''Unauthorized''), (''status'', JNum 403)]"

fun rejectGuard :: "'st handler_input \<Rightarrow> 'st action" where
  "rejectGuard (Join_Input j) = rq_decline (jo_request j) (Some ''Unauthorized'') (Some 403)"
| "rejectGuard (Connection_Input c) = rq_decline (xo_request c) (Some ''Unauthorized'') (Some 403)"
| "rejectGuard (Event_Input e) =
     rp_reply (eo_reply e) (error_type_str UNAUTHORIZED_BROADCAST) unauthorized_payload"
| "rejectGuard (Outgoing_Input g) = oo_block g"
| "rejectGuard (Leave_Input l) = (\<lambda>st. (st, None))"

subsection \<open>Parameters\<close>

text \<open>The arguments the package's decorators give a method.\<close>

datatype (dead 'st) arg =
    Arg_Context
  | Arg_Channel "'st channel_object"
  | Arg_Connection "'st connection_object"
  | Arg_Join "'st join_object"
  | Arg_Event "'st event_object"
  | Arg_Leave "'st leave_object"
  | Arg_User user_data
  | Arg_Obj obj
  | Arg_Texts "string jmap"
  | Arg_Json json

type_synonym 'st param_callback = "'st nest_context \<Rightarrow> 'st \<times> obj \<Rightarrow> 'st arg nest_res"

type_synonym 'st pipe = "string option \<Rightarrow> 'st arg \<Rightarrow> 'st arg nest_res"

definition createContextParamDecorator ::
    "string \<Rightarrow> ('st nest_context \<Rightarrow> 'st \<Rightarrow> 'k option res) \<Rightarrow> ('k \<Rightarrow> 'st arg) \<Rightarrow> 'st param_callback" where
  "createContextParamDecorator decoratorName key transform x st =
     nest_bind (from_core (key x (fst st))) (\<lambda>v.
       case v of None \<Rightarrow> Inl (nest_error (''Invalid decorator usage: '' @ decoratorName))
       | Some v \<Rightarrow> Inr (transform v))"

definition GetContext :: "'st param_callback" where
  "GetContext x st = Inr Arg_Context"

definition GetChannel :: "'st param_callback" where
  "GetChannel = createContextParamDecorator ''GetChannel'' (\<lambda>x st. Inr (nx_channel x)) Arg_Channel"

definition GetConnectionContext :: "'st param_callback" where
  "GetConnectionContext =
     createContextParamDecorator ''GetConnectionContext'' (\<lambda>x st. Inr (nc_connection x)) Arg_Connection"

definition GetJoinContext :: "'st param_callback" where
  "GetJoinContext = createContextParamDecorator ''GetJoinContext'' (\<lambda>x st. Inr (nc_join x)) Arg_Join"

definition GetEventContext :: "'st param_callback" where
  "GetEventContext = createContextParamDecorator ''GetEventContext'' (\<lambda>x st. Inr (nc_event x)) Arg_Event"

definition GetLeaveEvent :: "'st param_callback" where
  "GetLeaveEvent = createContextParamDecorator ''GetLeaveEvent'' (\<lambda>x st. Inr (nc_leave x)) Arg_Leave"

definition GetEventParams :: "'st param_callback" where
  "GetEventParams = createContextParamDecorator ''GetEventParams'' nx_event (\<lambda>e. Arg_Texts (xe_params e))"

definition GetEventQuery :: "'st param_callback" where
  "GetEventQuery = createContextParamDecorator ''GetEventQuery'' nx_event (\<lambda>e. Arg_Texts (xe_query e))"

definition GetEventPayload :: "'st param_callback" where
  "GetEventPayload = createContextParamDecorator ''GetEventPayload'' nx_event (\<lambda>e. Arg_Obj (xe_payload e))"

definition GetJoinParams :: "'st param_callback" where
  "GetJoinParams x st = createContextParamDecorator ''GetJoinParams'' (\<lambda>x st. Inr (nc_join x))
     (\<lambda>j. Arg_Obj (jo_joinParams j (fst st))) x st"

definition GetUserAssigns :: "'st param_callback" where
  "GetUserAssigns = createContextParamDecorator ''GetUserAssigns''
     (\<lambda>x st. res_bind (nx_assigns x st) (\<lambda>a. Inr (Some a))) Arg_Obj"

definition GetUserPresence :: "'st param_callback" where
  "GetUserPresence = createContextParamDecorator ''GetUserPresences''
     (\<lambda>x st. res_bind (nx_presence x st) (\<lambda>p. Inr (Some p))) Arg_Obj"

definition GetUserData :: "'st param_callback" where
  "GetUserData = createContextParamDecorator ''GetUserData''
     (\<lambda>x st. res_bind (nx_user x st) (\<lambda>u. Inr (Some u))) Arg_User"

text \<open>
  \<open>wrapTransform\<close>: the value goes through the global pipes, those of the class and those of the
  method, each of which is told the declared type of the parameter. (A callback reads the state;
  it and the pipes do not change it.)
\<close>

fun pipe_all :: "string option \<Rightarrow> 'st pipe list \<Rightarrow> 'st arg \<Rightarrow> 'st arg nest_res" where
  "pipe_all metatype [] v = Inr v"
| "pipe_all metatype (p # ps) v = nest_bind (p metatype v) (pipe_all metatype ps)"

definition wrapTransform ::
    "(nat \<Rightarrow> nat) \<Rightarrow> 'st pipe module_ref \<Rightarrow> string list \<Rightarrow> string option \<Rightarrow> 'st param_callback \<Rightarrow>
     'st param_callback" where
  "wrapTransform first m pipes metatype handler x st =
     nest_bind (handler x st) (\<lambda>v.
     nest_bind (promise_all first (map (retrieveInstance m) pipes)) (\<lambda>ps. pipe_all metatype ps v))"

subsection \<open>Methods\<close>

text \<open>
  \<open>PondResponse\<close>. \<^term>\<open>None\<close> is a field that is not there or undefined; \<open>pr_undefined\<close> tells
  whether some field is there and undefined; \<open>pr_rest\<close> has the fields the type does not name.
\<close>

record pond_response =
  pr_event :: "string option"
  pr_eventParams :: "obj option"
  pr_broadcast :: "string option"
  pr_broadcastFrom :: "string option"
  pr_broadcastTo :: "(string \<times> string list) option"
  pr_assigns :: "obj option"
  pr_presence :: "obj option"
  pr_decline :: "(string + string option \<times> nat option) option"
  pr_payload :: "obj option"
  pr_undefined :: bool
  pr_rest :: obj

definition empty_response :: pond_response where
  "empty_response = \<lparr>pr_event = None, pr_eventParams = None, pr_broadcast = None, pr_broadcastFrom = None,
     pr_broadcastTo = None, pr_assigns = None, pr_presence = None, pr_decline = None, pr_payload = None,
     pr_undefined = False, pr_rest = []\<rparr>"

text \<open>
  A method with its metadata: its class and name, the guards and pipes of both, the callbacks of
  its decorated parameters, the parameters bound to a definition, and how many parameters the
  reflected types and the function itself announce.
\<close>

record 'st handler_method =
  hm_class :: string
  hm_key :: string
  hm_classGuards :: "string list"
  hm_methodGuards :: "string list"
  hm_classPipes :: "string list"
  hm_methodPipes :: "string list"
  hm_managed :: "(nat \<times> string option \<times> 'st param_callback) list"
  hm_bound :: "(nat \<times> nat) list"
  hm_reflected :: "nat option"
  hm_length :: nat
  hm_run :: "'st nest_context \<Rightarrow> 'st arg list \<Rightarrow> ('st, pond_response option) code"

text \<open>The module: NestJS's \<open>ModuleRef\<close>, the timing of promises, and the global guards and pipes.\<close>

record 'st nest_module =
  nm_guards :: "'st guard module_ref"
  nm_pipes :: "'st pipe module_ref"
  nm_first :: "nat \<Rightarrow> nat"
  nm_globalGuards :: "string list"
  nm_globalPipes :: "string list"

subsection \<open>The arguments of a method\<close>

text \<open>
  The checks of \<open>retrieveParameters\<close>: a context parameter belongs to the definition the handler
  was registered for (\<open>hm_bound\<close> has the definition and the index), no parameter is decorated
  twice, and none is left out. The result is how many parameters there are.
\<close>

definition hm_name :: "'st handler_method \<Rightarrow> string" where
  "hm_name h = hm_class h @ ''.'' @ hm_key h"

definition parameter_indices :: "'st handler_method \<Rightarrow> nat list" where
  "parameter_indices h = map fst (hm_managed h) @ map snd (hm_bound h)"

definition parameter_count :: "'st handler_method \<Rightarrow> nat" where
  "parameter_count h = Max (set ([case_option 0 id (hm_reflected h), hm_length h] @ map Suc (parameter_indices h)))"

definition check_parameters :: "nat option \<Rightarrow> 'st handler_method \<Rightarrow> nat nest_res" where
  "check_parameters active h =
     (if \<exists>b \<in> set (hm_bound h). Some (fst b) \<noteq> active then
        Inl (nest_error (hm_name h @ '' uses GetContext() from a different PondSocket definition''))
      else if \<not> distinct (parameter_indices h) then
        Inl (nest_error (hm_name h @ '' has multiple PondSocket decorators on the same parameter''))
      else (case filter (\<lambda>i. i \<notin> set (parameter_indices h)) [0..<parameter_count h] of
          i # _ \<Rightarrow> Inl (nest_error (hm_name h @ '' parameter at index '' @ nat_text i
            @ '' must use a PondSocket parameter decorator''))
        | [] \<Rightarrow> Inr (parameter_count h)))"

definition parameter_values ::
    "'st nest_module \<Rightarrow> 'st handler_method \<Rightarrow> 'st nest_context \<Rightarrow> 'st \<times> obj \<Rightarrow> (nat \<times> 'st arg) nest_res list" where
  "parameter_values nm h x st =
     map (\<lambda>(i, metatype, callback). nest_bind
         (wrapTransform (nm_first nm) (nm_pipes nm) (nm_globalPipes nm @ hm_classPipes h @ hm_methodPipes h)
           metatype callback x st) (\<lambda>v. Inr (i, v))) (hm_managed h)
     @ map (\<lambda>(_, i). Inr (i, Arg_Context)) (hm_bound h)"

definition place_values :: "nat \<Rightarrow> (nat \<times> 'v) list \<Rightarrow> 'v list" where
  "place_values n ivs = map (\<lambda>i. the (map_of (rev ivs) i)) [0..<n]"

definition retrieveParameters ::
    "'st nest_module \<Rightarrow> nat option \<Rightarrow> 'st handler_method \<Rightarrow> 'st nest_context \<Rightarrow> ('st, 'st arg list) code" where
  "retrieveParameters nm active h x =
     bind_prog (of_result (check_parameters active h)) (\<lambda>n.
     bind_prog (awaiting (ask (\<lambda>st. promise_all (nm_first nm) (parameter_values nm h x st)))) (\<lambda>ivs.
     Return (place_values n ivs)))"

subsection \<open>What is done with the value a method returns\<close>

definition action_then :: "'st \<times> exn option \<Rightarrow> 'st action \<Rightarrow> 'st \<times> exn option" where
  "action_then r f = (case r of (st, None) \<Rightarrow> f st | (st, Some e) \<Rightarrow> (st, Some e))"

lemma action_then_simps [simp]:
  "action_then (st, None) f = f st" "action_then (st, Some e) f = (st, Some e)"
  by (simp_all add: action_then_def)

definition isNotEmpty :: "pond_response option \<Rightarrow> bool" where
  "isNotEmpty data =
     (case data of None \<Rightarrow> False
      | Some d \<Rightarrow> d \<noteq> empty_response)"

fun declined :: "pond_response \<Rightarrow> (string option \<times> nat option) option" where
  "declined d =
     (case pr_decline d of
        None \<Rightarrow> None
      | Some (Inl message) \<Rightarrow> if message = [] then None else Some (Some message, None)
      | Some (Inr options) \<Rightarrow> Some options)"

definition response_payload :: "pond_response \<Rightarrow> obj" where
  "response_payload d = (case pr_payload d of Some p \<Rightarrow> p | None \<Rightarrow> pr_rest d)"

text \<open>\<open>if (event) ...\<close> with the name built from the parameters, when there are any.\<close>

definition send_named ::
    "(string \<Rightarrow> 'st action) \<Rightarrow> pond_response \<Rightarrow> string option \<Rightarrow> 'st action" where
  "send_named send d event st =
     (case event of
        None \<Rightarrow> (st, None)
      | Some name \<Rightarrow>
          if name = [] then (st, None)
          else (case (case pr_eventParams d of None \<Rightarrow> Inr name | Some params \<Rightarrow> buildPondRoute name params) of
              Inl e \<Rightarrow> (st, Some e)
            | Inr route \<Rightarrow> send route st))"

definition send_to :: "'st channel_ops \<Rightarrow> pond_response \<Rightarrow> 'st action" where
  "send_to c d st =
     (case pr_broadcastTo d of
        None \<Rightarrow> (st, None)
      | Some (event, users) \<Rightarrow>
          (case (case pr_eventParams d of None \<Rightarrow> Inr event | Some params \<Rightarrow> buildPondRoute event params) of
             Inl e \<Rightarrow> (st, Some e)
           | Inr route \<Rightarrow> bo_broadcastTo c route (response_payload d) (Inr users) st))"

definition assign_reply ::
    "'st reply_ops \<Rightarrow> 'st action \<Rightarrow> pond_response \<Rightarrow> 'st action" where
  "assign_reply ops accept d st =
     action_then (case pr_assigns d of None \<Rightarrow> (st, None) | Some a \<Rightarrow> rp_assign ops a st) (\<lambda>st.
     action_then (accept st)
       (send_named (\<lambda>route. rp_reply ops route (response_payload d)) d (pr_event d)))"

definition broadcasts :: "'st channel_ops \<Rightarrow> pond_response \<Rightarrow> 'st action" where
  "broadcasts c d st =
     action_then (send_named (\<lambda>route. bo_broadcast c route (response_payload d)) d (pr_broadcast d) st) (\<lambda>st.
     action_then (send_named (\<lambda>route. bo_broadcastFrom c route (response_payload d)) d (pr_broadcastFrom d) st)
       (send_to c d))"

definition set_presence :: "string \<Rightarrow> 'st channel_object option \<Rightarrow> pond_response \<Rightarrow> 'st action" where
  "set_presence socketId channel d st =
     (case (channel, pr_presence d) of
        (Some ch, Some presence) \<Rightarrow> ho_upsertPresence ch socketId presence st
      | _ \<Rightarrow> (st, None))"

definition respond_pending ::
    "'st request_ops \<Rightarrow> 'st reply_ops \<Rightarrow> 'st action \<Rightarrow> pond_response \<Rightarrow> 'st action" where
  "respond_pending rq rp further d st =
     (if rq_responded rq st then (st, None)
      else case declined d of
          Some (message, status) \<Rightarrow> rq_decline rq message status st
        | None \<Rightarrow> action_then (assign_reply rp (rq_accept rq None) d st) further)"

definition performResponse ::
    "string \<Rightarrow> 'st channel_object option \<Rightarrow> pond_response option \<Rightarrow> 'st handler_input \<Rightarrow> 'st action" where
  "performResponse socketId channel data input st =
     (case data of
        None \<Rightarrow> (st, None)
      | Some d \<Rightarrow>
          if \<not> isNotEmpty data then (st, None)
          else (case input of
              Leave_Input _ \<Rightarrow> (st, None)
            | Outgoing_Input _ \<Rightarrow> (st, None)
            | Connection_Input c \<Rightarrow> respond_pending (xo_request c) (xo_reply c) (set_presence socketId channel d) d st
            | Join_Input j \<Rightarrow> respond_pending (jo_request j) (jo_reply j)
                (\<lambda>st. action_then (broadcasts (jo_ops j) d st) (set_presence socketId channel d)) d st
            | Event_Input e \<Rightarrow>
                action_then (assign_reply (eo_reply e) (\<lambda>st. (st, None)) d st) (\<lambda>st.
                action_then (broadcasts (eo_ops e) d st) (set_presence socketId channel d))))"

subsection \<open>What is done with an exception\<close>

fun error_report :: "nest_exn \<Rightarrow> string \<times> nat \<times> json option" where
  "error_report (Http_Exception message status data) = (message, status, data)"
| "error_report (Thrown (Http_Error code message)) = (message, 500, None)"
| "error_report (Thrown (Plain_Error message)) = (message, 500, None)"
| "error_report (Thrown Not_An_Error) = (''An unknown error occurred'', 500, None)"

definition error_reply :: "nest_exn \<Rightarrow> obj" where
  "error_reply e =
     (case error_report e of (message, status, data) \<Rightarrow>
        [(''code'', JStr (error_type_str INTERNAL_SERVER_ERROR)), (''message'', JStr message)]
        @ case_option [] (\<lambda>v. [(''data'', v)]) data @ [(''status'', JNum (int status))])"

definition decline_error :: "'st request_ops \<Rightarrow> nest_exn \<Rightarrow> 'st action" where
  "decline_error rq e st =
     (if rq_responded rq st then (st, None)
      else case error_report e of (message, status, _) \<Rightarrow> rq_decline rq (Some message) (Some status) st)"

text \<open>
  The \<open>catch\<close> of a handler: \<open>performErrors\<close> for a connection, join or event handler; the
  others log, and an outgoing event is blocked.
\<close>

fun performErrors :: "nest_exn \<Rightarrow> 'st handler_input \<Rightarrow> 'st action" where
  "performErrors e (Event_Input x) = rp_reply (eo_reply x) (error_type_str INTERNAL_SERVER_ERROR) (error_reply e)"
| "performErrors e (Join_Input j) = decline_error (jo_request j) e"
| "performErrors e (Connection_Input c) = decline_error (xo_request c) e"
| "performErrors e (Outgoing_Input g) = oo_block g"
| "performErrors e (Leave_Input l) = (\<lambda>st. (st, None))"

subsection \<open>The whole handler\<close>

definition perform :: "'st action \<Rightarrow> ('st, nest_exn, unit) prog" where
  "perform f = call (\<lambda>st. map_prod id (map_option Thrown) (f st))"

definition perform_beside :: "'st action \<Rightarrow> ('st, unit) code" where
  "perform_beside f = call (\<lambda>st. case f (fst st) of (st', e) \<Rightarrow> ((st', snd st), map_option Thrown e))"

fun is_outgoing :: "'st handler_input \<Rightarrow> bool" where
  "is_outgoing (Outgoing_Input _) = True"
| "is_outgoing _ = False"

definition handle_request ::
    "'st nest_module \<Rightarrow> nat option \<Rightarrow> 'st handler_method \<Rightarrow> 'st handler_input \<Rightarrow> ('st, unit) code" where
  "handle_request nm active h input =
     (let x = getNestContext input in
      bind_prog (awaiting (retrieveParameters nm active h x)) (\<lambda>args.
      bind_prog (awaiting (hm_run h x args)) (\<lambda>data.
      if is_outgoing input then Return ()
      else bind_prog (ask (\<lambda>st. from_core (nx_user x (fst st)))) (\<lambda>user.
        perform_beside (performResponse (ud_id user) (nx_channel x) data input)))))"

definition performAction ::
    "'st nest_module \<Rightarrow> nat option \<Rightarrow> 'st handler_method \<Rightarrow> 'st handler_input \<Rightarrow> ('st, nest_exn, unit) prog" where
  "performAction nm active h input =
     with_data (bind_prog (awaiting (performGuards (nm_first nm) (nm_guards nm) (nm_globalGuards nm)
         (hm_classGuards h) (hm_methodGuards h) (getNestContext input))) (\<lambda>canProceed.
       if canProceed then handle_request nm active h input
       else perform_beside (rejectGuard input))) []"

text \<open>
  What the decorators register, with or without a definition: the action, whose exception is
  dealt with; what that throws rejects the handler's promise.
\<close>

definition nest_handler ::
    "'st nest_module \<Rightarrow> nat option \<Rightarrow> 'st handler_method \<Rightarrow> 'st handler_input \<Rightarrow> ('st, nest_exn, unit) prog" where
  "nest_handler nm active h input =
     catch_prog (awaiting (performAction nm active h input)) (\<lambda>e. perform (performErrors e input))"

end
