(* ===== verification/Nest_Service.thy ===== *)
theory Nest_Service
  imports Nest_Handler
begin

text \<open>
  Setting up a NestJS application: the metadata its decorators write
  (\<open>comnon/src/misc/definitions.ts\<close>, \<open>nest/src/managers\<close>, \<open>nest/src/decorators\<close>), and the service
  that reads them from the providers NestJS discovers, groups the channels by endpoint and
  registers the handlers with the core (\<open>nest/src/services/pondSocket.ts\<close>). Classes are named by
  numbers; NestJS's list of providers is a parameter.
\<close>

subsection \<open>Definitions\<close>

datatype definition_kind = Endpoint_Definition | Channel_Definition

datatype lifecycle = On_Connection | On_Join | On_Event | On_Leave | On_Outgoing

text \<open>A definition is an object: it has an identity.\<close>

record pond_definition =
  df_id :: nat
  df_kind :: definition_kind
  df_path :: string

record handler_definition =
  hd_definition :: nat
  hd_event :: "string option"
  hd_lifecycle :: lifecycle
  hd_property :: string

definition definePondEndpoint :: "nat \<Rightarrow> string \<Rightarrow> pond_definition res" where
  "definePondEndpoint i path =
     res_bind (compilePondRoute path) (\<lambda>_. Inr \<lparr>df_id = i, df_kind = Endpoint_Definition, df_path = path\<rparr>)"

definition definePondChannel :: "nat \<Rightarrow> string option \<Rightarrow> pond_definition res" where
  "definePondChannel i path =
     (let resolvedPath = case_option ''*'' id path in
      res_bind (compilePondRoute resolvedPath) (\<lambda>_.
        Inr \<lparr>df_id = i, df_kind = Channel_Definition, df_path = resolvedPath\<rparr>))"

definition df_build :: "pond_definition \<Rightarrow> obj \<Rightarrow> string res" where
  "df_build d params = buildPondRoute (df_path d) params"

definition isPondEndpointDefinition :: "pond_definition \<Rightarrow> bool" where
  "isPondEndpointDefinition d \<longleftrightarrow> df_kind d = Endpoint_Definition"

definition isPondChannelDefinition :: "pond_definition \<Rightarrow> bool" where
  "isPondChannelDefinition d \<longleftrightarrow> df_kind d = Channel_Definition"

definition addHandlerDefinition ::
    "handler_definition \<Rightarrow> handler_definition list \<Rightarrow> handler_definition list" where
  "addHandlerDefinition h inherited = inherited @ [h]"

text \<open>
  The method decorators of a definition: \<open>OnConnection\<close>, \<open>OnJoin\<close> and \<open>OnLeave\<close>, and those with an
  event, whose pattern has to compile.
\<close>

definition df_on ::
    "pond_definition \<Rightarrow> lifecycle \<Rightarrow> string \<Rightarrow> handler_definition list \<Rightarrow> handler_definition list" where
  "df_on d life propertyKey =
     addHandlerDefinition \<lparr>hd_definition = df_id d, hd_event = None, hd_lifecycle = life, hd_property = propertyKey\<rparr>"

definition df_on_event ::
    "pond_definition \<Rightarrow> lifecycle \<Rightarrow> string \<Rightarrow> string \<Rightarrow> handler_definition list \<Rightarrow> handler_definition list res" where
  "df_on_event d life event propertyKey hs =
     res_bind (compilePondRoute event) (\<lambda>_. Inr (addHandlerDefinition
       \<lparr>hd_definition = df_id d, hd_event = Some event, hd_lifecycle = life, hd_property = propertyKey\<rparr> hs))"

text \<open>\<open>GetContext()\<close> of a definition on a parameter of a method (none: of a constructor).\<close>

definition getContextDecorator ::
    "pond_definition \<Rightarrow> string option \<Rightarrow> nat \<Rightarrow> (nat \<times> string \<times> nat) list \<Rightarrow> (nat \<times> string \<times> nat) list res" where
  "getContextDecorator d propertyKey index inherited =
     (case propertyKey of
        None \<Rightarrow> Inl (Plain_Error ''PondSocket context decorators can only be used on methods'')
      | Some key \<Rightarrow> Inr (inherited @ [(df_id d, key, index)]))"

definition bound_parameters :: "(nat \<times> string \<times> nat) list \<Rightarrow> string \<Rightarrow> (nat \<times> nat) list" where
  "bound_parameters ps key = map (\<lambda>(d, _, i). (d, i)) (filter (\<lambda>(_, k, _). k = key) ps)"

subsection \<open>Managers\<close>

definition manage_handler :: "string \<Rightarrow> 'h \<Rightarrow> (string \<times> 'h) list \<Rightarrow> (string \<times> 'h) list" where
  "manage_handler path value handlers = handlers @ [(path, value)]"

definition manage_parameter :: "nat \<Rightarrow> 'c \<Rightarrow> (nat \<times> 'c) list \<Rightarrow> (nat \<times> 'c) list" where
  "manage_parameter index callback handlers = handlers @ [(index, callback)]"

subsection \<open>Providers\<close>

type_synonym registration = "string + pond_definition"

fun reg_path :: "registration \<Rightarrow> string" where
  "reg_path (Inl path) = path"
| "reg_path (Inr d) = df_path d"

text \<open>
  The \<open>endpoint\<close> option of a channel: a class, or a function that answers a class
  (or throws). A class cannot be called as a function.
\<close>

datatype endpoint_ref = Ref_Class nat | Ref_Lazy "(nat \<times> string) option"

type_synonym 'st handler_value = "'st handler_input \<Rightarrow> ('st, nest_exn, unit) prog"

text \<open>A \<open>HandlerFunction\<close> is given the module by the service; the instance is its provider's.\<close>

type_synonym 'st handler_function = "'st nest_module \<Rightarrow> 'st handler_value"

record provider =
  pv_host :: "nat option"
  pv_type :: nat
  pv_class :: string
  pv_name :: string
  pv_endpoint_definition :: "pond_definition option"
  pv_endpoint_path :: "string option"
  pv_channel_definition :: "(pond_definition \<times> endpoint_ref option) option"
  pv_channel_path :: "string option"
  pv_connection :: "(string \<times> pond handler_function) list"
  pv_join :: "(string \<times> server handler_function) list"
  pv_event :: "(string \<times> server handler_function) list"
  pv_outgoing :: "(string \<times> out_state handler_function) list"
  pv_leave :: "(string \<times> server handler_function) list"
  pv_handlers :: "handler_definition list"
  pv_connection_methods :: "string \<Rightarrow> pond handler_method option"
  pv_methods :: "string \<Rightarrow> server handler_method option"
  pv_outgoing_methods :: "string \<Rightarrow> out_state handler_method option"

text \<open>The registrations; an empty path counts as none where their truth is tested.\<close>

definition getEndpointRegistration :: "provider \<Rightarrow> registration option" where
  "getEndpointRegistration p =
     (case pv_endpoint_definition p of Some d \<Rightarrow> Some (Inr d) | None \<Rightarrow> map_option Inl (pv_endpoint_path p))"

definition getChannelRegistration :: "provider \<Rightarrow> registration option" where
  "getChannelRegistration p =
     (case pv_channel_definition p of Some (d, _) \<Rightarrow> Some (Inr d) | None \<Rightarrow> map_option Inl (pv_channel_path p))"

definition truthy :: "registration option \<Rightarrow> bool" where
  "truthy r \<longleftrightarrow> r \<noteq> None \<and> r \<noteq> Some (Inl [])"

text \<open>What NestJS discovers: an entry without an instance or a class is skipped; one provider per class.\<close>

definition getProviders :: "provider option list \<Rightarrow> provider list" where
  "getProviders wrappers =
     jm_values (fold (\<lambda>w m. case w of None \<Rightarrow> m | Some p \<Rightarrow> jm_set (pv_type p) p m) wrappers [])"

subsection \<open>Channels and their endpoints\<close>

fun first_duplicate :: "'k list \<Rightarrow> 'k list \<Rightarrow> 'k option" where
  "first_duplicate seen [] = None"
| "first_duplicate seen (p # ps) = (if p \<in> set seen then Some p else first_duplicate (p # seen) ps)"

definition endpoint_path :: "provider \<Rightarrow> string" where
  "endpoint_path p = (case getEndpointRegistration p of Some r \<Rightarrow> reg_path r | None \<Rightarrow> [])"

definition find_endpoint :: "provider list \<Rightarrow> nat \<Rightarrow> provider option" where
  "find_endpoint endpoints t = find (\<lambda>p. pv_type p = t) endpoints"

definition referenced :: "provider list \<Rightarrow> string \<Rightarrow> endpoint_ref \<Rightarrow> provider res" where
  "referenced endpoints channelName ref =
     (case ref of
        Ref_Class t \<Rightarrow>
          (case find_endpoint endpoints t of
             Some e \<Rightarrow> Inr e
           | None \<Rightarrow> Inl (Plain_Error (channelName @ '' references an invalid PondSocket endpoint'')))
      | Ref_Lazy None \<Rightarrow> Inl (Plain_Error (channelName @ '' references an invalid PondSocket endpoint''))
      | Ref_Lazy (Some (t, typeName)) \<Rightarrow>
          (case find_endpoint endpoints t of
             Some e \<Rightarrow> Inr e
           | None \<Rightarrow> Inl (Plain_Error (channelName @ '' references endpoint '' @ typeName
               @ '', but it is not registered as a Nest provider''))))"

definition unassociated :: "string \<Rightarrow> exn" where
  "unassociated channelName = Plain_Error (channelName
     @ '' cannot be associated with an endpoint. Pass { endpoint: EndpointClass } to Channel().'')"

definition endpoint_for :: "provider list \<Rightarrow> provider \<Rightarrow> provider res" where
  "endpoint_for endpoints channel =
     (case Option.bind (pv_channel_definition channel) snd of
        Some ref \<Rightarrow> referenced endpoints (pv_name channel) ref
      | None \<Rightarrow>
          (case endpoints of
             [e] \<Rightarrow> Inr e
           | _ \<Rightarrow> (case filter (\<lambda>candidate. pv_host candidate = pv_host channel) endpoints of
                 [e] \<Rightarrow> Inr e
               | _ \<Rightarrow> Inl (unassociated (pv_name channel)))))"

text \<open>The groups: a map from the classes of the endpoints to their channels.\<close>

fun group_channels ::
    "provider list \<Rightarrow> provider list \<Rightarrow> (nat \<times> provider list) list \<Rightarrow> (nat \<times> provider list) list res" where
  "group_channels endpoints [] grouped = Inr grouped"
| "group_channels endpoints (ch # chs) grouped =
     res_bind (endpoint_for endpoints ch) (\<lambda>e.
       group_channels endpoints chs
         (jm_set (pv_type e) (case_option [] id (jm_get grouped (pv_type e)) @ [ch]) grouped))"

definition is_endpoint :: "provider \<Rightarrow> bool" where
  "is_endpoint p = truthy (getEndpointRegistration p)"

definition is_channel :: "provider \<Rightarrow> bool" where
  "is_channel p = truthy (getChannelRegistration p)"

definition getGroupedInstances :: "provider option list \<Rightarrow> (provider \<times> provider list) list res" where
  "getGroupedInstances wrappers =
     (let providers = getProviders wrappers;
          endpoints = filter is_endpoint providers;
          channels = filter is_channel providers
      in if channels \<noteq> [] \<and> endpoints = [] then
           Inl (Plain_Error ''PondSocket channels were discovered, but no endpoint is registered'')
         else (case first_duplicate [] (map endpoint_path endpoints) of
             Some path \<Rightarrow> Inl (Plain_Error (''Multiple PondSocket endpoints declare the path \"'' @ path @ ''\"''))
           | None \<Rightarrow>
               res_bind (group_channels endpoints channels (map (\<lambda>e. (pv_type e, [])) endpoints)) (\<lambda>grouped.
                 Inr (map (\<lambda>e. (e, case_option [] id (jm_get grouped (pv_type e)))) endpoints))))"

subsection \<open>Handlers of a provider\<close>

text \<open>The method of a definition's handler is looked up when the handler runs.\<close>

definition definition_handler ::
    "'st nest_module \<Rightarrow> string \<Rightarrow> handler_definition \<Rightarrow> 'st handler_method option \<Rightarrow> 'st handler_value" where
  "definition_handler nm className df method input =
     (case method of
        None \<Rightarrow> Raise (nest_error (className @ ''.'' @ hd_property df @ '' is not a method''))
      | Some h \<Rightarrow> nest_handler nm (Some (hd_definition df)) h input)"

definition getDefinitionHandlers ::
    "'st nest_module \<Rightarrow> (string \<Rightarrow> 'st handler_method option) \<Rightarrow> provider \<Rightarrow> registration \<Rightarrow> lifecycle \<Rightarrow>
     (string \<times> 'st handler_value) list" where
  "getDefinitionHandlers nm methods p registration life =
     (case registration of
        Inl _ \<Rightarrow> []
      | Inr d \<Rightarrow> map (\<lambda>df. (case_option [] id (hd_event df),
            definition_handler nm (pv_class p) df (methods (hd_property df))))
          (filter (\<lambda>df. hd_definition df = df_id d \<and> hd_lifecycle df = life) (pv_handlers p)))"

definition all_handlers ::
    "'st nest_module \<Rightarrow> (string \<times> 'st handler_function) list \<Rightarrow> (string \<Rightarrow> 'st handler_method option) \<Rightarrow> provider \<Rightarrow>
     registration \<Rightarrow> lifecycle \<Rightarrow> (string \<times> 'st handler_value) list" where
  "all_handlers nm own methods p registration life =
     map (\<lambda>(path, value). (path, value nm)) own @ getDefinitionHandlers nm methods p registration life"

definition getSingleHandler :: "(string \<times> 'h) list \<Rightarrow> string \<Rightarrow> string \<Rightarrow> 'h option res" where
  "getSingleHandler handlers life providerName =
     (case handlers of
        [] \<Rightarrow> Inr None
      | [h] \<Rightarrow> Inr (Some (snd h))
      | _ \<Rightarrow> Inl (Plain_Error (providerName @ '' declares multiple '' @ life @ '' handlers; exactly one is allowed'')))"

definition assertUniquePaths :: "(string \<times> 'h) list \<Rightarrow> string \<Rightarrow> string \<Rightarrow> unit res" where
  "assertUniquePaths handlers life providerName =
     (case first_duplicate [] (map fst handlers) of
        None \<Rightarrow> Inr ()
      | Some path \<Rightarrow> Inl (Plain_Error (providerName @ '' declares duplicate '' @ life @ '' handler \"'' @ path @ ''\"'')))"

subsection \<open>Registering a channel\<close>

text \<open>
  The code beside the state of one endpoint, by lobby: join handlers, event handlers, outgoing
  handlers and the leave handlers.
\<close>

record endpoint_code =
  ek_auths :: "auth_handler list"
  ek_events :: "event_handler list list"
  ek_outgoing :: "(string \<times> out_state handler_value) list list"
  ek_leaves :: "(server handler_value) option list"

record nest_modules =
  ns_pond :: "pond nest_module"
  ns_server :: "server nest_module"
  ns_out :: "out_state nest_module"

definition join_code :: "server handler_value option \<Rightarrow> nat \<Rightarrow> server mw_prog" where
  "join_code handler j =
     promise_of core_exn (case handler of
         None \<Rightarrow> perform (jc_accept j None)
       | Some h \<Rightarrow> bind_prog (ask (\<lambda>sv. Inr (jc_engine (jc_get j sv)))) (\<lambda>i. awaiting (h (Join_Input (join_object j i)))))"

definition event_code :: "server handler_value \<Rightarrow> event_context \<Rightarrow> server mw_prog" where
  "event_code h x = promise_of core_exn (awaiting (h (Event_Input (event_object x))))"

definition connection_code :: "pond handler_value option \<Rightarrow> nat \<Rightarrow> pond mw_prog" where
  "connection_code handler c =
     promise_of core_exn (case handler of
         None \<Rightarrow> perform (cx_accept c None)
       | Some h \<Rightarrow> awaiting (h (Connection_Input (connection_object c))))"

definition outgoing_code :: "server \<Rightarrow> out_state handler_value \<Rightarrow> out_code" where
  "outgoing_code sv h x =
     (case run_alone (h (Outgoing_Input (outgoing_object (oc_engine x) (oc_sender x)))) (sv, x, []) of
        ((_, _, calls), r) \<Rightarrow> Some (calls, case r of Inl e \<Rightarrow> Some (core_exn e) | Inr _ \<Rightarrow> None))"

definition outgoing_chain_of :: "server \<Rightarrow> (string \<times> out_state handler_value) list \<Rightarrow> out_handler list" where
  "outgoing_chain_of sv hs = map (\<lambda>(path, h). (Pattern path, outgoing_code sv h)) hs"

definition leave_code :: "server handler_value \<Rightarrow> nat \<Rightarrow> user_data \<Rightarrow> (server, nest_exn, unit) prog" where
  "leave_code h i user = h (Leave_Input (leave_object i user))"

fun register_events :: "(string \<times> server handler_value) list \<Rightarrow> event_handler list \<Rightarrow> event_handler list res" where
  "register_events [] handlers = Inr handlers"
| "register_events ((path, h) # hs) handlers =
     res_bind (lobby_onEvent (Pattern path) (event_code h) handlers) (register_events hs)"

fun register_outgoing ::
    "(string \<times> 'h) list \<Rightarrow> (string \<times> 'h) list \<Rightarrow> (string \<times> 'h) list res" where
  "register_outgoing [] handlers = Inr handlers"
| "register_outgoing ((path, h) # hs) handlers =
     res_bind (compilePondRoute path) (\<lambda>_. register_outgoing hs (handlers @ [(path, h)]))"

text \<open>
  \<open>manageChannel\<close>. An error ends the start of the whole module; what had been registered until
  then is not described.
\<close>

definition channel_handlers ::
    "nest_modules \<Rightarrow> provider \<Rightarrow> registration \<Rightarrow>
     (event_handler list \<times> (string \<times> out_state handler_value) list \<times> server handler_value option) res" where
  "channel_handlers ms p registration =
     (let events = all_handlers (ns_server ms) (pv_event p) (pv_methods p) p registration On_Event;
          outgoing = all_handlers (ns_out ms) (pv_outgoing p) (pv_outgoing_methods p) p registration On_Outgoing;
          leaves = all_handlers (ns_server ms) (pv_leave p) (pv_methods p) p registration On_Leave
      in res_bind (assertUniquePaths events ''event'' (pv_name p)) (\<lambda>_.
         res_bind (register_events events []) (\<lambda>es.
         res_bind (assertUniquePaths outgoing ''outgoing event'' (pv_name p)) (\<lambda>_.
         res_bind (register_outgoing outgoing []) (\<lambda>gs.
         res_bind (getSingleHandler leaves ''leave'' (pv_name p)) (\<lambda>leave. Inr (es, gs, leave)))))))"

definition manageChannel ::
    "nest_modules \<Rightarrow> provider \<Rightarrow> server \<times> endpoint_code \<Rightarrow> (server \<times> endpoint_code) res" where
  "manageChannel ms p s =
     (case (getChannelRegistration p, s) of
        (None, _) \<Rightarrow> Inr s
      | (Some registration, (sv, code)) \<Rightarrow>
          if \<not> truthy (Some registration) then Inr s
          else
            res_bind (getSingleHandler (all_handlers (ns_server ms) (pv_join p) (pv_methods p) p registration On_Join)
              ''join'' (pv_name p)) (\<lambda>joinHandler.
            res_bind (ep_createChannel (Pattern (reg_path registration)) sv) (\<lambda>(l, sv1).
            res_bind (channel_handlers ms p registration) (\<lambda>(es, gs, leave).
              Inr (if Option.is_none leave then sv1 else lobby_onLeave l sv1,
                \<lparr>ek_auths = ek_auths code @ [(Pattern (reg_path registration), join_code joinHandler)],
                 ek_events = ek_events code @ [es], ek_outgoing = ek_outgoing code @ [gs],
                 ek_leaves = ek_leaves code @ [leave]\<rparr>)))))"

subsection \<open>Registering an endpoint, and the life of the service\<close>

record nest_app =
  na_pond :: pond
  na_connections :: "conn_handler list"
  na_code :: "endpoint_code list"

fun manage_channels ::
    "nest_modules \<Rightarrow> provider list \<Rightarrow> server \<times> endpoint_code \<Rightarrow> (server \<times> endpoint_code) res" where
  "manage_channels ms [] s = Inr s"
| "manage_channels ms (p # ps) s = res_bind (manageChannel ms p s) (manage_channels ms ps)"

definition no_code :: endpoint_code where
  "no_code = \<lparr>ek_auths = [], ek_events = [], ek_outgoing = [], ek_leaves = []\<rparr>"

definition manageEndpoint ::
    "nest_modules \<Rightarrow> provider \<Rightarrow> provider list \<Rightarrow> nest_app \<Rightarrow> nest_app res" where
  "manageEndpoint ms p channels app =
     (case getEndpointRegistration p of
        None \<Rightarrow> Inr app
      | Some registration \<Rightarrow>
          if \<not> truthy (Some registration) then Inr app
          else
            res_bind (getSingleHandler (all_handlers (ns_pond ms) (pv_connection p) (pv_connection_methods p) p
                registration On_Connection) ''connection'' (pv_name p)) (\<lambda>handler.
            res_bind (pd_createEndpoint (Pattern (reg_path registration)) (connection_code handler)
                (na_connections app) (na_pond app)) (\<lambda>(handlers, pd).
            res_bind (manage_channels ms channels (last (pd_endpoints pd), no_code)) (\<lambda>(sv, code).
              Inr \<lparr>na_pond = pd\<lparr>pd_endpoints := butlast (pd_endpoints pd) @ [sv]\<rparr>, na_connections = handlers,
                na_code = na_code app @ [code]\<rparr>))))"

fun manage_endpoints ::
    "nest_modules \<Rightarrow> (provider \<times> provider list) list \<Rightarrow> nest_app \<Rightarrow> nest_app res" where
  "manage_endpoints ms [] app = Inr app"
| "manage_endpoints ms ((p, channels) # groups) app =
     res_bind (manageEndpoint ms p channels app) (manage_endpoints ms groups)"

text \<open>
  \<open>onModuleInit\<close>: what the start of the module ends in. The new server listens, and its backend
  has to be ready (\<open>start\<close> is the server when the \<open>await\<close> of \<open>ready\<close> is over).
\<close>

definition onModuleInit :: "nest_modules \<Rightarrow> provider option list \<Rightarrow> pond \<Rightarrow> nest_app res" where
  "onModuleInit ms wrappers start =
     res_bind (getGroupedInstances wrappers) (\<lambda>instances.
     res_bind (pd_ready start) (\<lambda>_.
     manage_endpoints ms instances \<lparr>na_pond = start, na_connections = [], na_code = []\<rparr>))"

definition ns_isHealthy :: "nest_app option \<Rightarrow> bool" where
  "ns_isHealthy socket = (case socket of Some app \<Rightarrow> pd_isHealthy (na_pond app) | None \<Rightarrow> False)"

text \<open>\<open>onModuleDestroy\<close>: the service forgets its server and closes it.\<close>

definition onModuleDestroy :: "nest_app option \<Rightarrow> nest_app option \<times> pond option" where
  "onModuleDestroy socket = (None, map_option (\<lambda>app. pd_closeAsync (na_pond app)) socket)"

end
