(* ===== verification/Nest_Module.thy ===== *)
theory Nest_Module
  imports Nest_Service
begin

text \<open>
  What a NestJS application writes: the decorators that register handlers, parameters, guards and
  pipes (\<open>nest/src/decorators\<close>, \<open>nest/src/managers\<close>, \<open>nest/src/helpers/createParamDecorator.ts\<close>),
  and the module that provides the service (\<open>nest/src/modules/pondSocket.ts\<close>); beside it, the
  Express package (\<open>express/src/index.ts\<close>).
\<close>

subsection \<open>Decorators of classes and methods\<close>

text \<open>Without a definition: the path of a class, by default \<open>*\<close>, and the five kinds of handler.\<close>

definition endpoint_decorator :: "string option \<Rightarrow> provider \<Rightarrow> provider" where
  "endpoint_decorator path p = p\<lparr>pv_endpoint_path := Some (case_option ''*'' id path)\<rparr>"

definition channel_decorator :: "string option \<Rightarrow> provider \<Rightarrow> provider" where
  "channel_decorator path p = p\<lparr>pv_channel_path := Some (case_option ''*'' id path)\<rparr>"

definition OnConnectionRequest :: "pond handler_method \<Rightarrow> provider \<Rightarrow> provider" where
  "OnConnectionRequest h p =
     p\<lparr>pv_connection := manage_handler [] (\<lambda>nm. nest_handler nm None h) (pv_connection p)\<rparr>"

definition OnJoinRequest :: "server handler_method \<Rightarrow> provider \<Rightarrow> provider" where
  "OnJoinRequest h p = p\<lparr>pv_join := manage_handler [] (\<lambda>nm. nest_handler nm None h) (pv_join p)\<rparr>"

definition OnEvent :: "string option \<Rightarrow> server handler_method \<Rightarrow> provider \<Rightarrow> provider" where
  "OnEvent event h p =
     p\<lparr>pv_event := manage_handler (case_option ''*'' id event) (\<lambda>nm. nest_handler nm None h) (pv_event p)\<rparr>"

definition OnOutgoingEvent :: "string option \<Rightarrow> out_state handler_method \<Rightarrow> provider \<Rightarrow> provider" where
  "OnOutgoingEvent event h p =
     p\<lparr>pv_outgoing := manage_handler (case_option ''*'' id event) (\<lambda>nm. nest_handler nm None h) (pv_outgoing p)\<rparr>"

definition OnLeave :: "server handler_method \<Rightarrow> provider \<Rightarrow> provider" where
  "OnLeave h p = p\<lparr>pv_leave := manage_handler [] (\<lambda>nm. nest_handler nm None h) (pv_leave p)\<rparr>"

text \<open>Those of a definition.\<close>

definition df_Endpoint :: "pond_definition \<Rightarrow> provider \<Rightarrow> provider" where
  "df_Endpoint d p = p\<lparr>pv_endpoint_definition := Some d\<rparr>"

definition df_Channel :: "pond_definition \<Rightarrow> endpoint_ref option \<Rightarrow> provider \<Rightarrow> provider" where
  "df_Channel d endpoint p = p\<lparr>pv_channel_definition := Some (d, endpoint)\<rparr>"

text \<open>
  A decorator of a parameter. The declared types of the method's parameters are what TypeScript
  emitted for it, if anything.
\<close>

definition createParamDecorator ::
    "'st param_callback \<Rightarrow> string option list option \<Rightarrow> nat \<Rightarrow> 'st handler_method \<Rightarrow> 'st handler_method" where
  "createParamDecorator callback parameterTypes index h =
     h\<lparr>hm_managed := manage_parameter index
        (case parameterTypes of None \<Rightarrow> None | Some types \<Rightarrow> if index < length types then types ! index else None, callback)
        (hm_managed h)\<rparr>"

subsection \<open>Properties with the core's objects\<close>

text \<open>
  A property of a provider that reads the object the service set: the lobby of its channel, or
  with a name the channel of that name. Before the start there is no object. Assigning to the
  property throws.
\<close>

definition property_get :: "('o \<Rightarrow> 'v res) option \<Rightarrow> 'o option \<Rightarrow> ('o option + 'v) res" where
  "property_get callback value =
     (case (callback, value) of
        (None, _) \<Rightarrow> Inr (Inl value)
      | (Some f, Some v) \<Rightarrow> res_bind (f v) (\<lambda>r. Inr (Inr r))
      | (Some f, None) \<Rightarrow> Inl (Plain_Error ''Cannot read properties of undefined''))"

definition property_set :: "string \<Rightarrow> exn" where
  "property_set propertyKey = Plain_Error (propertyKey @ '' is readonly'')"

definition EndpointInstance :: "nat option \<Rightarrow> (nat option + nat) res" where
  "EndpointInstance value = property_get None value"

definition ChannelInstance :: "string option \<Rightarrow> server \<Rightarrow> nat option \<Rightarrow> (nat option + nat option) res" where
  "ChannelInstance channel sv value =
     (if channel = None \<or> channel = Some [] then property_get None value
      else property_get (Some (\<lambda>l. Inr (pc_getChannel l (the channel) sv))) value)"

subsection \<open>Guards and pipes\<close>

text \<open>
  \<open>createMetadataManager\<close>: the items of a class (no key) or method, and all items ever given.
  \<open>Reflect.getMetadata\<close> looks in the objects a target inherits from (\<open>protos\<close>) as well.
\<close>

type_synonym target = "nat \<times> string option"

record metadata_manager =
  mm_items :: "(target \<times> string list) list"
  mm_local :: "string list"

definition empty_manager :: metadata_manager where
  "empty_manager = \<lparr>mm_items = [], mm_local = []\<rparr>"

definition reflect_get :: "(target \<Rightarrow> target list) \<Rightarrow> (target \<times> 'v) list \<Rightarrow> target \<Rightarrow> 'v option" where
  "reflect_get protos items t =
     (case filter (jm_has items) (t # protos t) of [] \<Rightarrow> None | u # _ \<Rightarrow> jm_get items u)"

fun target_of :: "nat \<Rightarrow> string option \<Rightarrow> target" where
  "target_of c (Some []) = (c, None)"
| "target_of c key = (c, key)"

definition manage_get :: "(target \<Rightarrow> target list) \<Rightarrow> target \<Rightarrow> metadata_manager \<Rightarrow> string list" where
  "manage_get protos t m = case_option [] id (reflect_get protos (mm_items m) t)"

definition manage_set :: "(target \<Rightarrow> target list) \<Rightarrow> target \<Rightarrow> string list \<Rightarrow> metadata_manager \<Rightarrow> metadata_manager" where
  "manage_set protos t value m =
     \<lparr>mm_items = jm_set t (value @ manage_get protos t m) (mm_items m), mm_local = fold js_add value (mm_local m)\<rparr>"

definition UseGuards :: "(target \<Rightarrow> target list) \<Rightarrow> string list \<Rightarrow> nat \<Rightarrow> string option \<Rightarrow> metadata_manager \<Rightarrow> metadata_manager" where
  "UseGuards protos guards c key = manage_set protos (target_of c key) guards"

definition UsePipes :: "(target \<Rightarrow> target list) \<Rightarrow> string list \<Rightarrow> nat \<Rightarrow> string option \<Rightarrow> metadata_manager \<Rightarrow> metadata_manager" where
  "UsePipes protos validators c key = manage_set protos (target_of c key) validators"

subsection \<open>The module\<close>

record nest_metadata =
  md_guards :: "string list option"
  md_pipes :: "string list option"
  md_providers :: "string list option"
  md_imports :: "string list option"
  md_exports :: "string list option"
  md_exclusive :: "bool option"
  md_backend :: "nat option"
  md_maxMessageSize :: "nat option"
  md_heartbeat :: "nat option"
  md_global :: "bool option"

text \<open>What the constructor of the service is given, and the module NestJS is given.\<close>

record service_options =
  so_guards :: "string list"
  so_pipes :: "string list"
  so_exclusive :: bool
  so_backend :: "nat option"
  so_maxMessageSize :: "nat option"
  so_heartbeat :: "nat option"

record dynamic_module =
  dm_exports :: "string list"
  dm_global :: bool
  dm_imports :: "string list"
  dm_providers :: "string list"

definition or_empty :: "'a list option \<Rightarrow> 'a list" where
  "or_empty xs = case_option [] id xs"

definition js_unique :: "'a list \<Rightarrow> 'a list" where
  "js_unique xs = fold js_add xs []"

definition buildModule :: "metadata_manager \<Rightarrow> metadata_manager \<Rightarrow> nest_metadata \<Rightarrow> dynamic_module" where
  "buildModule guardManager pipeManager md =
     (let pipes = js_unique (mm_local pipeManager @ or_empty (md_pipes md));
          guards = js_unique (mm_local guardManager @ or_empty (md_guards md))
      in \<lparr>dm_exports = ''PondSocketService'' # or_empty (md_exports md),
          dm_global = case_option False id (md_global md),
          dm_imports = or_empty (md_imports md) @ [''DiscoveryModule''],
          dm_providers = ''PondSocketService'' # or_empty (md_providers md) @ guards @ pipes\<rparr>)"

definition forRoot :: "nest_metadata \<Rightarrow> service_options" where
  "forRoot md = \<lparr>so_guards = or_empty (md_guards md), so_pipes = or_empty (md_pipes md),
     so_exclusive = case_option False id (md_exclusive md), so_backend = md_backend md,
     so_maxMessageSize = md_maxMessageSize md, so_heartbeat = md_heartbeat md\<rparr>"

text \<open>The factory of the application gives the backend and the sizes, or fails.\<close>

definition forRootAsync ::
    "nest_metadata \<Rightarrow> nest_exn + nat option \<times> nat option \<times> nat option \<Rightarrow> service_options nest_res" where
  "forRootAsync md resolvedMetadata =
     nest_bind resolvedMetadata (\<lambda>(backend, maxMessageSize, heartbeat). Inr \<lparr>so_guards = or_empty (md_guards md),
       so_pipes = or_empty (md_pipes md), so_exclusive = case_option False id (md_exclusive md),
       so_backend = backend, so_maxMessageSize = maxMessageSize, so_heartbeat = heartbeat\<rparr>)"

text \<open>The server the service makes of its options.\<close>

definition service_pond :: "service_options \<Rightarrow> (nat \<Rightarrow> nat \<Rightarrow> nat \<Rightarrow> string) \<Rightarrow> pond" where
  "service_pond o' random =
     new_pond (so_exclusive o') (so_backend o') (case_option (1024 * 1024) id (so_maxMessageSize o')) random"

subsection \<open>Express\<close>

text \<open>
  An Express application with a server of its own around it. It is exclusive unless the options
  say otherwise, and what it offers are the operations of its server.
\<close>

definition createPondSocket ::
    "bool option \<Rightarrow> nat option \<Rightarrow> nat option \<Rightarrow> (nat \<Rightarrow> nat \<Rightarrow> nat \<Rightarrow> string) \<Rightarrow> pond" where
  "createPondSocket exclusive backend maxMessageSize random =
     new_pond (case_option True id exclusive) backend (case_option (1024 * 1024) id maxMessageSize) random"

subsection \<open>Every declared guard can be found\<close>

lemma set_fold_js_add [simp]: "set (fold js_add xs ys) = set xs \<union> set ys"
  by (induction xs arbitrary: ys) auto

lemma distinct_fold_js_add [simp]: "distinct ys \<Longrightarrow> distinct (fold js_add xs ys)"
  by (induction xs arbitrary: ys) auto

lemma js_unique_set [simp]: "set (js_unique xs) = set xs" "distinct (js_unique xs)"
  by (simp_all add: js_unique_def)

definition items_local :: "metadata_manager \<Rightarrow> bool" where
  "items_local m \<longleftrightarrow> (\<forall>t items. jm_get (mm_items m) t = Some items \<longrightarrow> set items \<subseteq> set (mm_local m))"

lemma manage_get_local:
  assumes "items_local m"
  shows "set (manage_get protos t m) \<subseteq> set (mm_local m)"
proof (cases "reflect_get protos (mm_items m) t")
  case (Some items)
  then obtain u where "jm_get (mm_items m) u = Some items" by (auto simp: reflect_get_def split: list.splits)
  then have "set items \<subseteq> set (mm_local m)" using assms unfolding items_local_def by blast
  with Some show ?thesis by (simp add: manage_get_def)
qed (simp add: manage_get_def)

lemma items_local_set: "items_local m \<Longrightarrow> items_local (manage_set protos t value m)"
  using manage_get_local [of m protos t] by (auto simp: items_local_def manage_set_def jm.get_put split: if_splits)

text \<open>A sequence of uses of \<open>@UseGuards\<close>, in the order JavaScript evaluates them.\<close>

definition used :: "(target \<Rightarrow> target list) \<Rightarrow> (string list \<times> nat \<times> string option) list \<Rightarrow> metadata_manager" where
  "used protos uses = fold (\<lambda>(guards, c, key). UseGuards protos guards c key) uses empty_manager"

lemma used_snoc: "used protos (uses @ [(guards, c, key)]) = manage_set protos (target_of c key) guards (used protos uses)"
  by (simp add: used_def UseGuards_def)

lemma used_local: "items_local (used protos uses)"
proof (induction uses rule: rev_induct)
  case Nil
  show ?case by (simp add: used_def empty_manager_def items_local_def jm_get_def)
next
  case (snoc u uses)
  then show ?case by (cases u) (simp add: used_snoc items_local_set)
qed

lemma used_get:
  assumes "protos t = []"
  shows "manage_get protos t (used protos uses) = concat (rev (map fst (filter (\<lambda>(_, c, key). target_of c key = t) uses)))"
proof (induction uses rule: rev_induct)
  case Nil
  show ?case by (simp add: used_def empty_manager_def manage_get_def reflect_get_def jm_has_get jm_get_def)
next
  case (snoc u uses)
  obtain guards c key where u: "u = (guards, c, key)" by (cases u)
  have "manage_get protos t (manage_set protos (target_of c key) guards m)
      = (if target_of c key = t then guards @ manage_get protos t m else manage_get protos t m)" for m
    using assms by (auto simp: manage_get_def [of _ t] manage_set_def reflect_get_def jm_has_get jm.get_put)
  with snoc show ?case by (simp add: u used_snoc)
qed

text \<open>
  C10. Whatever guards classes and methods are given with \<open>@UseGuards\<close>, in whatever order and with
  whatever inheritance, the module provides them all, next to the global ones. So with a NestJS
  that finds the providers of the module (at once or by resolving them), the check of the guards
  of any method never fails to find one: after one suspension the guards run, one per declaration.
  A method that inherits nothing has its guards in the order of the decorators above it.
\<close>

theorem declared_guards_found:
  assumes "\<And>c. c \<in> set (dm_providers (buildModule (used protos uses) pipes md)) \<Longrightarrow> mr_get m c \<noteq> None \<or> mr_resolve m c \<noteq> None"
  shows "(\<exists>found. performGuards first m (so_guards (forRoot md)) (manage_get protos cls (used protos uses))
         (manage_get protos meth (used protos uses)) x = Wait (run_guards x found)
       \<and> list_all2 (\<lambda>c g. retrieveInstance m c = Inr g) (so_guards (forRoot md) @ manage_get protos cls (used protos uses)
           @ manage_get protos meth (used protos uses)) found)
     \<and> (protos meth = [] \<longrightarrow> manage_get protos meth (used protos uses)
         = concat (rev (map fst (filter (\<lambda>(_, c, key). target_of c key = meth) uses))))"
proof -
  let ?gs = "so_guards (forRoot md) @ manage_get protos cls (used protos uses) @ manage_get protos meth (used protos uses)"
  have "set ?gs \<subseteq> set (dm_providers (buildModule (used protos uses) pipes md))"
    using manage_get_local [OF used_local, of protos cls protos uses] manage_get_local [OF used_local, of protos meth protos uses]
    by (auto simp: forRoot_def buildModule_def Let_def)
  then have "\<exists>g. retrieveInstance m c = Inr g" if "c \<in> set ?gs" for c
    using assms [of c] that by (fastforce simp: retrieveInstance_def split: option.split)
  then obtain f where f: "\<forall>c \<in> set ?gs. retrieveInstance m c = Inr (f c)" by metis
  then have "map (retrieveInstance m) ?gs = map Inr (map f ?gs)" by simp
  then have "promise_all first (map (retrieveInstance m) ?gs) = Inr (map f ?gs)" unfolding promise_all_Inr .
  then have "performGuards first m (so_guards (forRoot md)) (manage_get protos cls (used protos uses))
         (manage_get protos meth (used protos uses)) x = Wait (run_guards x (map f ?gs))"
    by (simp add: performGuards_def of_result_def del: map_append)
  moreover have "list_all2 (\<lambda>c g. retrieveInstance m c = Inr g) ?gs (map f ?gs)"
    using f by (simp add: list.rel_map list.rel_refl_strong del: map_append append.simps set_append)
  ultimately show ?thesis using used_get by blast
qed

text \<open>Two guards on a method, the lower decorator evaluated first, and a global one.\<close>

theorem declared_guards_found_witness:
  "let md = \<lparr>md_guards = Some [''Auth''], md_pipes = None, md_providers = None, md_imports = None, md_exports = None,
       md_exclusive = None, md_backend = None, md_maxMessageSize = None, md_heartbeat = None, md_global = None\<rparr>;
     m = \<lparr>mr_get = (\<lambda>c. if c = ''Owner'' then None else Some (\<lambda>x. Return True)),
          mr_resolve = (\<lambda>c. Some (\<lambda>x. Return (c = ''Owner'')))\<rparr> :: server guard module_ref;
     guards = used (\<lambda>_. []) [([''Owner''], 1, Some ''join''), ([''Member''], 1, Some ''join'')]
   in manage_get (\<lambda>_. []) (1, Some ''join'') guards = [''Member'', ''Owner'']
     \<and> (\<forall>x. \<exists>found. performGuards (\<lambda>_. 0) m [''Auth''] [] [''Member'', ''Owner''] x = Wait (run_guards x found) \<and> length found = 3)"
proof -
  define md where "md = \<lparr>md_guards = Some [''Auth''], md_pipes = None, md_providers = None, md_imports = None, md_exports = None,
     md_exclusive = None, md_backend = None, md_maxMessageSize = None, md_heartbeat = None, md_global = None\<rparr>"
  define m where "m = (\<lparr>mr_get = (\<lambda>c. if c = ''Owner'' then None else Some (\<lambda>x. Return True)),
     mr_resolve = (\<lambda>c. Some (\<lambda>x. Return (c = ''Owner'')))\<rparr> :: server guard module_ref)"
  let ?uses = "[([''Owner''], 1, Some ''join''), ([''Member''], 1, Some ''join'')] :: (string list \<times> nat \<times> string option) list"
  let ?g = "used (\<lambda>_. []) ?uses"
  have "manage_get (\<lambda>_. []) (1, Some ''join'') ?g = [''Member'', ''Owner'']" "manage_get (\<lambda>_. []) (1, None) ?g = []"
    by code_simp+
  moreover have "so_guards (forRoot md) = [''Auth'']" by (simp add: md_def forRoot_def or_empty_def)
  moreover have "mr_get m c \<noteq> None \<or> mr_resolve m c \<noteq> None" for c by (simp add: m_def)
  note declared_guards_found [of "\<lambda>_. []" ?uses empty_manager md m, OF this, of "\<lambda>_. 0" "(1, None)" "(1, Some ''join'')"]
  ultimately show ?thesis
    unfolding Let_def md_def [symmetric] m_def [symmetric] by (fastforce dest: list_all2_lengthD)
qed

end
