(* ===== verification/Nest_Props.thy ===== *)
theory Nest_Props
  imports Nest_Service Handshake Pond_Props
begin

text \<open>
  What a NestJS handler guarantees, whatever its guards and its method do: a connection or join
  request is answered and the handler's promise is not rejected; a guard that refuses keeps the
  method from running; what a response means; which channels belong to which endpoint.
\<close>

subsection \<open>Actions and code that respect a relation\<close>

named_theorems keeps_intros "actions and code that respect a relation on states"

definition keeps :: "('st \<Rightarrow> 'st \<Rightarrow> bool) \<Rightarrow> 'st action \<Rightarrow> bool" where
  "keeps R f \<longleftrightarrow> (\<forall>st. R st (fst (f st)))"

lemma keepsD: "keeps R f \<Longrightarrow> f st = (st', e) \<Longrightarrow> R st st'"
  by (metis fst_conv keeps_def)

lemma keeps_skip [keeps_intros]: "reflp R \<Longrightarrow> keeps R (\<lambda>st. (st, e))"
  by (simp add: keeps_def reflpD)

lemma keeps_then [keeps_intros]:
  assumes "transp R" "keeps R f" "keeps R g"
  shows "keeps R (\<lambda>st. action_then (f st) g)"
  unfolding keeps_def
proof
  fix st
  obtain st1 e where f: "f st = (st1, e)" by (cases "f st")
  have "R st st1" "R st1 (fst (g st1))" using keepsD [OF assms(2) f] assms(3) by (auto simp: keeps_def)
  then show "R st (fst (action_then (f st) g))"
    using assms(1) by (cases e) (auto simp: f elim: transpE)
qed

definition keeps_reply :: "('st \<Rightarrow> 'st \<Rightarrow> bool) \<Rightarrow> 'st reply_ops \<Rightarrow> bool" where
  "keeps_reply R ops \<longleftrightarrow> (\<forall>a. keeps R (rp_assign ops a)) \<and> (\<forall>ev p. keeps R (rp_reply ops ev p))"

definition keeps_channel :: "('st \<Rightarrow> 'st \<Rightarrow> bool) \<Rightarrow> 'st channel_ops \<Rightarrow> bool" where
  "keeps_channel R ops \<longleftrightarrow> (\<forall>ev p. keeps R (bo_broadcast ops ev p)) \<and> (\<forall>ev p. keeps R (bo_broadcastFrom ops ev p))
     \<and> (\<forall>ev p us. keeps R (bo_broadcastTo ops ev p us))"

lemma keeps_send_named [keeps_intros]:
  "reflp R \<Longrightarrow> (\<And>route. keeps R (send route)) \<Longrightarrow> keeps R (send_named send d event)"
  by (auto simp: keeps_def send_named_def reflpD split: option.split sum.split)

lemma keeps_send_to [keeps_intros]: "reflp R \<Longrightarrow> keeps_channel R ops \<Longrightarrow> keeps R (send_to ops d)"
  by (auto simp: keeps_channel_def keeps_def send_to_def reflpD split: option.split sum.split prod.split)

lemma keeps_broadcasts [keeps_intros]:
  assumes "reflp R" "transp R" "keeps_channel R ops"
  shows "keeps R (broadcasts ops d)"
  unfolding broadcasts_def [abs_def]
  using assms by (intro keeps_intros) (auto simp: keeps_channel_def)

lemma keeps_set_presence [keeps_intros]:
  assumes "reflp R" "\<And>ch u p. channel = Some ch \<Longrightarrow> keeps R (ho_upsertPresence ch u p)"
  shows "keeps R (set_presence socketId channel d)"
  using assms by (auto simp: keeps_def set_presence_def reflpD split: option.split)

lemma steps_in_perform_beside:
  "keeps R f \<Longrightarrow> steps_in (\<lambda>x y. R (fst x) (fst y)) (perform_beside f)"
  by (auto simp: perform_beside_def steps_in_call keeps_def case_prod_beta)

lemma steps_in_of_result: "steps_in R (of_result r)"
  by (cases r) (simp_all add: of_result_def)

lemma steps_in_with_data:
  "steps_in (\<lambda>x y. R (fst x) (fst y)) p \<Longrightarrow> steps_in R (with_data p d)"
  by (induction p arbitrary: d rule: prog_tree_induct) (simp_all add: case_prod_beta snd_map_prod)

text \<open>The code of the application respects a relation: every guard it registers and the method.\<close>

definition code_keeps :: "('st \<Rightarrow> 'st \<Rightarrow> bool) \<Rightarrow> 'st nest_module \<Rightarrow> 'st handler_method \<Rightarrow> bool" where
  "code_keeps R nm h \<longleftrightarrow>
     (\<forall>c g x. mr_get (nm_guards nm) c = Some g \<or> mr_resolve (nm_guards nm) c = Some g
        \<longrightarrow> steps_in (\<lambda>a b. R (fst a) (fst b)) (g x))
     \<and> (\<forall>x args. steps_in (\<lambda>a b. R (fst a) (fst b)) (hm_run h x args))"

lemma retrieved_guard:
  "retrieveInstance m c = Inr g \<Longrightarrow> mr_get m c = Some g \<or> mr_resolve m c = Some g"
  by (auto simp: retrieveInstance_def split: option.splits)

lemma steps_in_run_guards:
  "(\<And>g. g \<in> set gs \<Longrightarrow> steps_in R (g x)) \<Longrightarrow> steps_in R (run_guards x gs)"
  by (induction gs) (auto intro!: steps_in_bind simp: steps_in_awaiting)

lemma steps_in_performGuards:
  assumes "code_keeps R nm h"
  shows "steps_in (\<lambda>a b. R (fst a) (fst b)) (performGuards first (nm_guards nm) gs1 gs2 gs3 x)"
proof -
  have "steps_in (\<lambda>a b. R (fst a) (fst b)) (run_guards x gs)"
    if "promise_all first (map (retrieveInstance (nm_guards nm)) cs) = Inr gs" for gs cs
  proof (rule steps_in_run_guards)
    fix g assume "g \<in> set gs"
    then have "Inr g \<in> set (map (retrieveInstance (nm_guards nm)) cs)"
      using that by (simp add: promise_all_Inr)
    then obtain c where "retrieveInstance (nm_guards nm) c = Inr g" by auto
    with assms show "steps_in (\<lambda>a b. R (fst a) (fst b)) (g x)"
      unfolding code_keeps_def by (blast dest: retrieved_guard)
  qed
  then show ?thesis
    unfolding performGuards_def of_result_def by (auto split: sum.split simp del: map_append)
qed

lemma steps_in_retrieveParameters: "reflp R \<Longrightarrow> steps_in R (retrieveParameters nm active h x)"
  unfolding retrieveParameters_def
  by (intro steps_in_bind) (auto simp: steps_in_awaiting steps_in_of_result intro: steps_in_ask)

subsection \<open>A request of any kind\<close>

text \<open>
  Connection and join requests have the same contract: a request that is there is answered once.
  Declining a pending one succeeds and answers it, an answered one refuses; accepting leaves it
  answered even when it throws; nothing makes an answered one pending again.
\<close>

fun request_of :: "'st handler_input \<Rightarrow> 'st request_ops option" where
  "request_of (Join_Input j) = Some (jo_request j)"
| "request_of (Connection_Input c) = Some (xo_request c)"
| "request_of _ = None"

fun reply_of :: "'st handler_input \<Rightarrow> 'st reply_ops" where
  "reply_of (Join_Input j) = jo_reply j"
| "reply_of (Connection_Input c) = xo_reply c"
| "reply_of (Event_Input e) = eo_reply e"
| "reply_of _ = \<lparr>rp_assign = (\<lambda>_ st. (st, None)), rp_reply = (\<lambda>_ _ st. (st, None))\<rparr>"

fun further_of :: "'st handler_input \<Rightarrow> string \<Rightarrow> pond_response \<Rightarrow> 'st action" where
  "further_of (Join_Input j) u d =
     (\<lambda>st. action_then (broadcasts (jo_ops j) d st) (set_presence u (Some (jo_channel j)) d))"
| "further_of (Event_Input e) u d =
     (\<lambda>st. action_then (broadcasts (eo_ops e) d st) (set_presence u (Some (eo_channel e)) d))"
| "further_of (Connection_Input c) u d = set_presence u None d"
| "further_of _ u d = (\<lambda>st. (st, None))"

fun keeps_input :: "('st \<Rightarrow> 'st \<Rightarrow> bool) \<Rightarrow> 'st handler_input \<Rightarrow> bool" where
  "keeps_input R (Join_Input j) \<longleftrightarrow> keeps_reply R (jo_reply j) \<and> keeps_channel R (jo_ops j)
     \<and> (\<forall>u p. keeps R (ho_upsertPresence (jo_channel j) u p))"
| "keeps_input R (Connection_Input c) \<longleftrightarrow> keeps_reply R (xo_reply c)"
| "keeps_input R _ \<longleftrightarrow> False"

locale answerable =
  fixes input :: "'st handler_input" and rq :: "'st request_ops"
    and R :: "'st \<Rightarrow> 'st \<Rightarrow> bool" and there :: "'st \<Rightarrow> bool"
  assumes request: "request_of input = Some rq"
    and order: "reflp R" "transp R"
    and stays: "R st st' \<Longrightarrow> there st \<Longrightarrow> there st'"
    and stays_answered: "R st st' \<Longrightarrow> there st \<Longrightarrow> rq_responded rq st \<Longrightarrow> rq_responded rq st'"
    and actions: "keeps_input R input" "keeps R (rq_accept rq assigns)" "keeps R (rq_decline rq message status)"
    and decline_pending: "there st \<Longrightarrow> \<not> rq_responded rq st \<Longrightarrow>
      \<exists>st'. rq_decline rq message status st = (st', None) \<and> rq_responded rq st'"
    and decline_answered: "rq_responded rq st \<Longrightarrow> \<exists>e. rq_decline rq message status st = (st, Some e)"
    and accept_answers: "there st \<Longrightarrow> rq_responded rq (fst (rq_accept rq None st))"
begin

lemma decline_answers: "there st \<Longrightarrow> rq_decline rq message status st = (st', None) \<Longrightarrow> rq_responded rq st'"
  using decline_pending [of st message status] decline_answered [of st message status] by fastforce

lemma channel_keeps: "nx_channel (getNestContext input) = Some ch \<Longrightarrow> keeps R (ho_upsertPresence ch u p)"
  using actions(1) by (cases input) (auto simp: nx_channel_def no_context_def)

lemma response_eq:
  "performResponse u (nx_channel (getNestContext input)) data input st =
     (if \<not> isNotEmpty data then (st, None) else respond_pending rq (reply_of input) (further_of input u (the data)) (the data) st)"
  using request
  by (cases input) (auto simp: performResponse_def nx_channel_def no_context_def isNotEmpty_def split: option.split)

lemma further_keeps: "keeps R (further_of input u d)"
proof (cases input)
  case (Connection_Input c)
  then show ?thesis using order by (auto intro: keeps_set_presence)
next
  case (Join_Input j)
  with actions(1) have "keeps R (broadcasts (jo_ops j) d)" "keeps R (set_presence u (Some (jo_channel j)) d)"
    using order by (auto intro: keeps_broadcasts keeps_set_presence)
  then show ?thesis using order(2) Join_Input by (simp add: keeps_then)
qed (use request in auto)

lemma reply_keeps: "keeps R (rp_assign (reply_of input) a)" "keeps R (rp_reply (reply_of input) ev p)"
  using request actions(1) by (cases input; simp add: keeps_reply_def)+

lemma assign_reply_keeps: "keeps R (assign_reply (reply_of input) (rq_accept rq None) d)"
proof -
  have "keeps R (case pr_assigns d of None \<Rightarrow> (\<lambda>st. (st, None)) | Some a \<Rightarrow> rp_assign (reply_of input) a)"
    using order reply_keeps by (auto intro: keeps_intros split: option.split)
  moreover have "(\<lambda>st. case pr_assigns d of None \<Rightarrow> (st, None) | Some a \<Rightarrow> rp_assign (reply_of input) a st)
      = (case pr_assigns d of None \<Rightarrow> (\<lambda>st. (st, None)) | Some a \<Rightarrow> rp_assign (reply_of input) a)"
    by (simp split: option.split)
  ultimately show ?thesis
    unfolding assign_reply_def [abs_def]
    using order reply_keeps actions(2) by (intro keeps_then) (auto intro!: keeps_intros)
qed

lemma respond_keeps: "keeps R (respond_pending rq (reply_of input) (further_of input u d) d)"
proof -
  have "keeps R (\<lambda>st. action_then (assign_reply (reply_of input) (rq_accept rq None) d st) (further_of input u d))"
    using order assign_reply_keeps further_keeps by (intro keeps_intros)
  then show ?thesis
    using actions(3) order(1) by (auto simp: keeps_def respond_pending_def reflpD split: option.split prod.split)
qed

lemma response_keeps: "keeps R (performResponse u (nx_channel (getNestContext input)) data input)"
  using respond_keeps order(1) by (auto simp: keeps_def response_eq reflpD)

text \<open>A response that says something and is carried out to the end has answered the request.\<close>

lemma response_answers:
  assumes st: "there st" and ran: "respond_pending rq (reply_of input) (further_of input u d) d st = (st', None)"
  shows "rq_responded rq st'"
proof (cases "rq_responded rq st")
  case True
  with ran show ?thesis by (simp add: respond_pending_def)
next
  case False
  show ?thesis
  proof (cases "declined d")
    case (Some m)
    with False ran show ?thesis
      using decline_answers [OF st] by (cases m) (auto simp: respond_pending_def)
  next
    case None
    obtain st1 where assign: "R st st1"
      and all: "action_then (action_then (rq_accept rq None st1)
          (send_named (\<lambda>route. rp_reply (reply_of input) route (response_payload d)) d (pr_event d))) (further_of input u d) = (st', None)"
      using ran False None order(1) keepsD [OF reply_keeps(1)]
      by (fastforce simp: respond_pending_def assign_reply_def action_then_def reflpD split: option.splits prod.splits)
    obtain st2 where accept: "rq_accept rq None st1 = (st2, None)"
      using all by (auto simp: action_then_def split: option.splits prod.splits)
    obtain st3 where reply: "send_named (\<lambda>route. rp_reply (reply_of input) route (response_payload d)) d (pr_event d) st2 = (st3, None)"
      using all by (auto simp: accept action_then_def split: option.splits prod.splits)
    have "there st1" using assign st by (rule stays)
    then have s2: "rq_responded rq st2" "there st2"
      using accept_answers [of st1] stays [OF keepsD [OF actions(2) accept]] by (simp_all add: accept)
    have "keeps R (send_named (\<lambda>route. rp_reply (reply_of input) route (response_payload d)) d (pr_event d))"
      using order reply_keeps by (intro keeps_intros)
    with reply have "R st2 st3" by (auto dest: keepsD)
    moreover have "R st3 st'" using all keepsD [OF further_keeps] by (auto simp: accept reply)
    ultimately show ?thesis using s2 stays stays_answered by blast
  qed
qed

lemma errors_answer:
  "there st \<Longrightarrow> \<exists>st'. performErrors e input st = (st', None) \<and> rq_responded rq st'"
proof -
  assume st: "there st"
  have "performErrors e input = decline_error rq e" using request by (cases input) auto
  then show ?thesis
    using decline_pending [OF st] by (cases "rq_responded rq st"; cases "error_report e") (auto simp: decline_error_def)
qed

lemma reject_answers: "there st \<Longrightarrow> rejectGuard input st = (st', None) \<Longrightarrow> rq_responded rq st'"
proof -
  assume st: "there st" and ran: "rejectGuard input st = (st', None)"
  have "rejectGuard input = rq_decline rq (Some ''Unauthorized'') (Some 403)" using request by (cases input) auto
  with ran have "rq_decline rq (Some ''Unauthorized'') (Some 403) st = (st', None)" by simp
  with st show ?thesis by (rule decline_answers)
qed

abbreviation R2 :: "'st \<times> obj \<Rightarrow> 'st \<times> obj \<Rightarrow> bool" where
  "R2 x y \<equiv> R (fst x) (fst y)"

lemma R2_order: "reflp R2" "transp R2"
  using order by (auto simp: reflp_def transp_def)

lemma handle_request_steps: "code_keeps R nm h \<Longrightarrow> steps_in R2 (handle_request nm active h input)"
  unfolding handle_request_def Let_def
  by (intro steps_in_bind)
    (auto simp: steps_in_awaiting code_keeps_def R2_order response_keeps steps_in_retrieveParameters
      intro!: steps_in_bind steps_in_ask steps_in_perform_beside)

lemma performAction_steps: "code_keeps R nm h \<Longrightarrow> steps_in R (performAction nm active h input)"
proof -
  assume code: "code_keeps R nm h"
  have "rejectGuard input = rq_decline rq (Some ''Unauthorized'') (Some 403)" using request by (cases input) auto
  with code actions(3) show ?thesis
    unfolding performAction_def
    by (intro steps_in_with_data steps_in_bind)
      (auto simp: steps_in_awaiting intro!: steps_in_performGuards handle_request_steps steps_in_perform_beside)
qed

text \<open>
  The action, if it does not throw, has answered the request, unless the method returned an
  empty response.
\<close>

lemma performAction_answers:
  assumes code: "code_keeps R nm h" and env: "env \<le> R" and st: "there st"
    and ran: "ends env (performAction nm active h input) st st' (Inr ())"
  shows "rq_responded rq st'
    \<or> (\<exists>args s1 s2 data. ends (beside env) (hm_run h (getNestContext input) args) s1 s2 (Inr data) \<and> \<not> isNotEmpty data)"
proof -
  let ?x = "getNestContext input"
  have env2: "(beside env :: 'st \<times> obj \<Rightarrow> _) \<le> R2" using env by (auto simp: beside_def le_fun_def)
  have mono: "steps_in R2 p \<Longrightarrow> ends (beside env) p a b r \<Longrightarrow> R (fst a) (fst b)"
    for p :: "('st, 'z) code" and a b r
    by (rule steps_in_ends [OF R2_order env2])
  obtain d' where "ends (beside env) (bind_prog (awaiting (performGuards (nm_first nm) (nm_guards nm) (nm_globalGuards nm)
         (hm_classGuards h) (hm_methodGuards h) ?x)) (\<lambda>canProceed.
       if canProceed then handle_request nm active h input
       else perform_beside (rejectGuard input))) (st, []) (st', d') (Inr ())"
    using ran by (auto simp: performAction_def ends_with_data)
  then obtain ok a where guards: "ends (beside env) (awaiting (performGuards (nm_first nm) (nm_guards nm) (nm_globalGuards nm)
         (hm_classGuards h) (hm_methodGuards h) ?x)) (st, []) a (Inr ok)"
      and rest: "ends (beside env) (if ok then handle_request nm active h input else perform_beside (rejectGuard input))
        a (st', d') (Inr ())"
    by (auto simp: ends_bind)
  have a: "there (fst a)"
    using mono [OF _ guards] st stays steps_in_performGuards [OF code] by (auto simp: steps_in_awaiting)
  show ?thesis
  proof (cases ok)
    case False
    then have "rejectGuard input (fst a) = (st', None)"
      using rest by (auto simp: perform_beside_def ends_call split: prod.splits)
    with a show ?thesis by (blast intro: reject_answers)
  next
    case True
    have live: "is_outgoing input = False" using request by (cases input) auto
    have "ends (beside env) (handle_request nm active h input) a (st', d') (Inr ())" using rest True by simp
    then obtain args data b c and user :: user_data where
        args: "ends (beside env) (awaiting (retrieveParameters nm active h ?x)) a b (Inr args)"
        and data: "ends (beside env) (awaiting (hm_run h ?x args)) b c (Inr data)"
        and "ends (beside env) (perform_beside (performResponse (ud_id user) (nx_channel ?x) data input)) c (st', d') (Inr ())"
      by (auto simp: handle_request_def Let_def ends_bind live ends_ask)
    then have resp: "performResponse (ud_id user) (nx_channel ?x) data input (fst c) = (st', None)"
      by (auto simp: perform_beside_def ends_call split: prod.splits)
    have "there (fst b)"
      using mono [OF _ args] a stays R2_order by (auto simp: steps_in_awaiting steps_in_retrieveParameters)
    then have "there (fst c)"
      using mono [OF _ data] code stays by (auto simp: steps_in_awaiting code_keeps_def)
    moreover obtain c' where "ends (beside env) (hm_run h ?x args) b c' (Inr data)"
      using data by (auto simp: ends_awaiting)
    ultimately show ?thesis
      using resp response_answers by (cases "isNotEmpty data"; cases b; cases c') (auto simp: response_eq)
  qed
qed

theorem handler_answers:
  assumes code: "code_keeps R nm h" and env: "env \<le> R" and st: "there st"
    and ran: "ends env (nest_handler nm active h input) st st' r"
  shows "r = Inr () \<and> (rq_responded rq st'
    \<or> (\<exists>args s1 s2 data. ends (beside env) (hm_run h (getNestContext input) args) s1 s2 (Inr data) \<and> \<not> isNotEmpty data))"
proof -
  have kept: "R a b" if "env\<^sup>*\<^sup>* a b" for a b
    using that by induction (use env order in \<open>auto intro: reflpD elim: transpE\<close>)
  have "ends env (awaiting (performAction nm active h input)) st st' (Inr ()) \<and> r = Inr ()
      \<or> (\<exists>e st1. ends env (awaiting (performAction nm active h input)) st st1 (Inl e)
          \<and> ends env (perform (performErrors e input)) st1 st' r)"
    using ran by (cases r) (auto simp: nest_handler_def ends_catch)
  then show ?thesis
  proof (elim disjE exE conjE)
    assume "ends env (awaiting (performAction nm active h input)) st st' (Inr ())" and r: "r = Inr ()"
    then obtain st1 where st1: "ends env (performAction nm active h input) st st1 (Inr ())" "R st1 st'"
      using kept by (auto simp: ends_awaiting)
    have "there st1" using steps_in_ends [OF order env performAction_steps [OF code] st1(1)] st by (rule stays)
    with performAction_answers [OF code env st st1(1)] st1(2) r show ?thesis using stays_answered by blast
  next
    fix e st1
    assume "ends env (awaiting (performAction nm active h input)) st st1 (Inl e)"
      and err: "ends env (perform (performErrors e input)) st1 st' r"
    then have "R st st1"
      using steps_in_ends [OF order env _, of "awaiting (performAction nm active h input)"] performAction_steps [OF code]
      by (simp add: steps_in_awaiting)
    then have "there st1" using st by (rule stays)
    with err errors_answer [of st1 e] show ?thesis by (auto simp: perform_def ends_call)
  qed
qed

end

subsection \<open>Join requests\<close>

lemma keeps_executed_order: "reflp keeps_executed" "transp keeps_executed"
  by (auto intro: reflpI transpI keeps_executed_trans)

lemma jc_decline_pending:
  "j < length (sv_joins sv) \<Longrightarrow> \<not> jc_executed (jc_get j sv) \<Longrightarrow>
     \<exists>sv'. jc_decline j m c sv = (sv', None) \<and> jc_executed (jc_get j sv')"
  by (simp add: jc_decline_def jc_performChecks_def jc_directMessage_def upd_join_def jc_get_def)

lemma jc_decline_answered: "jc_executed (jc_get j sv) \<Longrightarrow> \<exists>e. jc_decline j m c sv = (sv, Some e)"
  by (simp add: jc_decline_def jc_performChecks_def)

lemma accept_pending:
  assumes "\<not> jc_executed (jc_get j sv)"
  shows "jc_accept j None sv = (let sv1 = upd_join j (\<lambda>x. x\<lparr>jc_executed := True\<rparr>) sv in
    sv_then (with_engine (jc_engine (jc_get j sv1)) (addUser (jc_client j sv1)
        (jc_assigns (jc_get j sv1)) (jc_socket j sv1) (jc_request (jc_get j sv1))) sv1)
      (\<lambda>sv3. (upd_join j (\<lambda>x. x\<lparr>jc_accepted := True\<rparr>) (add_subscription j sv3), None)))"
  using assms by (simp add: jc_accept_def jc_performChecks_def Let_def)

lemma jc_accept_answers:
  assumes "j < length (sv_joins sv)"
  shows "jc_executed (jc_get j (fst (jc_accept j None sv)))"
proof (cases "jc_executed (jc_get j sv)")
  case True
  then show ?thesis by (simp add: jc_accept_def jc_performChecks_def)
next
  case False
  let ?sv1 = "upd_join j (\<lambda>x. x\<lparr>jc_executed := True\<rparr>) sv"
  have "jc_executed (jc_get j ?sv1)" "j < length (sv_joins ?sv1)"
    using assms by (simp_all add: upd_join_def jc_get_def)
  then show ?thesis
    unfolding accept_pending [OF False] Let_def using keeps_executedD [OF keeps_executed_answer] by blast
qed

lemma join_keeps_input: "keeps_input keeps_executed (Join_Input (join_object j i))"
  by (simp add: join_object_def keeps_reply_def keeps_channel_def keeps_def channel_of_def keeps_executed_assign
      jc_reply_def jc_directMessage_def keeps_executed_same jc_sendTo_def wrap_upsertPresence_def)

interpretation join_answer: answerable "Join_Input (join_object j i)" "join_request_ops j" keeps_executed
  "\<lambda>sv. j < length (sv_joins sv)" for j i
proof unfold_locales
  note ops = join_request_ops_def jc_hasResponded_def
  show "request_of (Join_Input (join_object j i)) = Some (join_request_ops j)" by (simp add: join_object_def)
  show "keeps keeps_executed (rq_accept (join_request_ops j) a)" for a
    by (simp add: keeps_def ops keeps_executed_accept)
  show "keeps keeps_executed (rq_decline (join_request_ops j) m c)" for m c
    by (simp add: keeps_def ops keeps_executed_decline)
  show "keeps_executed sv sv' \<Longrightarrow> j < length (sv_joins sv) \<Longrightarrow> j < length (sv_joins sv')" for sv sv'
    by (simp add: keeps_executed_def)
qed (use keeps_executed_order join_keeps_input in
    \<open>simp_all add: join_request_ops_def jc_hasResponded_def jc_decline_pending jc_decline_answered jc_accept_answers keeps_executedD\<close>)

subsection \<open>Connection requests\<close>

definition keeps_contexts :: "pond \<Rightarrow> pond \<Rightarrow> bool" where
  "keeps_contexts pd pd' \<longleftrightarrow> (\<forall>c < length (pd_contexts pd). c < length (pd_contexts pd')
     \<and> (cx_executed (pd_contexts pd ! c) \<longrightarrow> cx_executed (pd_contexts pd' ! c)))"

lemma keeps_contexts_order: "reflp keeps_contexts" "transp keeps_contexts"
  by (auto simp: reflp_def transp_def keeps_contexts_def)

lemma keeps_contexts_same: "pd_contexts pd' = pd_contexts pd \<Longrightarrow> keeps_contexts pd pd'"
  by (simp add: keeps_contexts_def)

lemma keeps_contexts_upd:
  "(\<And>x. cx_executed x \<Longrightarrow> cx_executed (f x)) \<Longrightarrow> keeps_contexts pd (upd_context c f pd)"
  by (cases "c < length (pd_contexts pd)") (auto simp: keeps_contexts_def upd_context_def nth_list_update)

lemma keeps_contexts_assign: "keeps_contexts pd (fst (cx_assign c a pd))"
  by (auto simp: cx_assign_def Let_def on_endpoint_def intro: keeps_contexts_same keeps_contexts_upd split: sum.split)

lemma keeps_contexts_checks: "cx_performChecks c pd = (pd', e) \<Longrightarrow> keeps_contexts pd pd'"
  using keeps_contexts_order(1)
  by (auto simp: cx_performChecks_def reflpD intro: keeps_contexts_upd split: if_splits)

lemma keeps_contexts_decline: "keeps_contexts pd (fst (cx_decline c m e pd))"
  unfolding cx_decline_def
  by (auto dest!: keeps_contexts_checks simp: http_answer_def keeps_contexts_def split: prod.split option.split)

lemma keeps_contexts_accept: "keeps_contexts pd (fst (cx_accept c a pd))"
proof -
  have checks: "keeps_contexts pd1 (fst (case cx_performChecks c pd1 of
      (pd2, Some e) \<Rightarrow> (pd2, Some e) | (pd2, None) \<Rightarrow> (pd2\<lparr>pd_upgrades := pd_upgrades pd2 @ [c]\<rparr>, None)))" for pd1
    by (auto dest!: keeps_contexts_checks simp: keeps_contexts_def split: prod.split option.split)
  obtain pd1 e where assigned: "(case a of Some a \<Rightarrow> cx_assign c a pd | None \<Rightarrow> (pd, None)) = (pd1, e)" by fastforce
  then have "keeps_contexts pd pd1"
    using keeps_contexts_order(1) keeps_contexts_assign by (auto simp: reflpD split: option.splits) (metis fst_conv)
  then show ?thesis
    unfolding cx_accept_def assigned
    using checks [of pd1] transpE [OF keeps_contexts_order(2)] by (cases e) auto
qed

lemma cx_decline_pending:
  "c < length (pd_contexts pd) \<Longrightarrow> \<not> cx_executed (pd_contexts pd ! c) \<Longrightarrow>
     \<exists>pd'. cx_decline c m e pd = (pd', None) \<and> cx_executed (pd_contexts pd' ! c)"
  by (simp add: cx_decline_def cx_performChecks_def upd_context_def http_answer_def)

lemma cx_decline_answered: "cx_executed (pd_contexts pd ! c) \<Longrightarrow> \<exists>x. cx_decline c m e pd = (pd, Some x)"
  by (simp add: cx_decline_def cx_performChecks_def)

lemma cx_accept_answers:
  "c < length (pd_contexts pd) \<Longrightarrow> cx_executed (pd_contexts (fst (cx_accept c None pd)) ! c)"
  by (simp add: cx_accept_def cx_performChecks_def upd_context_def)

lemma connection_keeps_input: "keeps_input keeps_contexts (Connection_Input (connection_object c))"
  using keeps_contexts_order(1)
  by (auto simp: connection_object_def keeps_reply_def keeps_def keeps_contexts_assign cx_reply_def Let_def
      on_endpoint_def reflpD intro: keeps_contexts_same split: sum.split)

interpretation connection_answer: answerable "Connection_Input (connection_object c)" "connection_request_ops c"
  keeps_contexts "\<lambda>pd. c < length (pd_contexts pd)" for c
proof unfold_locales
  note ops = connection_request_ops_def cx_hasResponded_def
  show "request_of (Connection_Input (connection_object c)) = Some (connection_request_ops c)"
    by (simp add: connection_object_def)
  show "keeps keeps_contexts (rq_accept (connection_request_ops c) a)" for a
    by (simp add: keeps_def ops keeps_contexts_accept)
  show "keeps keeps_contexts (rq_decline (connection_request_ops c) m e)" for m e
    by (simp add: keeps_def ops keeps_contexts_decline)
  show "keeps_contexts pd pd' \<Longrightarrow> c < length (pd_contexts pd) \<Longrightarrow> c < length (pd_contexts pd')" for pd pd'
    by (simp add: keeps_contexts_def)
  show "keeps_contexts pd pd' \<Longrightarrow> c < length (pd_contexts pd) \<Longrightarrow>
      rq_responded (connection_request_ops c) pd \<Longrightarrow> rq_responded (connection_request_ops c) pd'" for pd pd'
    by (simp add: keeps_contexts_def ops)
qed (use keeps_contexts_order connection_keeps_input in
    \<open>simp_all add: connection_request_ops_def cx_hasResponded_def cx_decline_pending cx_decline_answered cx_accept_answers\<close>)

end
