(* ===== verification/Nest_Answers.thy ===== *)
theory Nest_Answers
  imports Nest_Props
begin

text \<open>
  The guarantees of NestJS handlers over the core's requests: every connection and join request is
  answered, refusing guards are effective, an accepting response makes the user a member with the
  assigns it gives; and what happens when an event handler evicts its own sender.
\<close>

subsection \<open>Answers\<close>

text \<open>A module without guards and pipes, and a method without parameters.\<close>

definition plain_module :: "'st nest_module" where
  "plain_module = \<lparr>nm_guards = \<lparr>mr_get = (\<lambda>_. None), mr_resolve = (\<lambda>_. None)\<rparr>,
     nm_pipes = \<lparr>mr_get = (\<lambda>_. None), mr_resolve = (\<lambda>_. None)\<rparr>, nm_first = (\<lambda>_. 0),
     nm_globalGuards = [], nm_globalPipes = []\<rparr>"

definition plain_method ::
    "('st nest_context \<Rightarrow> ('st, pond_response option) code) \<Rightarrow> 'st handler_method" where
  "plain_method run = \<lparr>hm_class = ''Chat'', hm_key = ''handle'', hm_classGuards = [], hm_methodGuards = [],
     hm_classPipes = [], hm_methodPipes = [], hm_managed = [], hm_bound = [], hm_reflected = None,
     hm_length = 0, hm_run = (\<lambda>x _. run x)\<rparr>"

lemma plain_simps [simp]:
  "nm_globalGuards plain_module = []" "nm_globalPipes plain_module = []" "hm_classGuards (plain_method run) = []"
  "hm_methodGuards (plain_method run) = []" "hm_run (plain_method run) y args = run y"
  by (simp_all add: plain_module_def plain_method_def)

lemma plain_parameters:
  "check_parameters active (plain_method run) = Inr 0" "parameter_values nm (plain_method run) y st = []"
  by (simp_all add: check_parameters_def parameter_count_def parameter_indices_def plain_method_def parameter_values_def)

lemma plain_code_keeps: "(\<And>x. steps_in (\<lambda>a b. R (fst a) (fst b)) (run x)) \<Longrightarrow> code_keeps R plain_module (plain_method run)"
  by (simp add: code_keeps_def plain_module_def plain_method_def)

text \<open>
  Whatever its guards, parameters and method do, and whatever else happens while it waits, a
  NestJS join handler never rejects its promise, and when it has ended the join request is
  answered; the only exception is a method that returned nothing (or an empty response) without
  having answered. (What is assumed is that the other code does not take answers back.)
\<close>

theorem nest_join_answered:
  assumes "code_keeps keeps_executed nm h" "env \<le> keeps_executed" "j < length (sv_joins sv)"
    and "ends env (nest_handler nm active h (Join_Input (join_object j i))) sv sv' r"
  shows "r = Inr () \<and> (jc_executed (jc_get j sv')
    \<or> (\<exists>args s1 s2 data. ends (beside env) (hm_run h (getNestContext (Join_Input (join_object j i))) args) s1 s2 (Inr data)
        \<and> \<not> isNotEmpty data))"
  using join_answer.handler_answers [OF assms] by (simp add: join_request_ops_def jc_hasResponded_def)

text \<open>A method that throws NestJS's \<open>ForbiddenException\<close>, on the open request of Bob.\<close>

theorem nest_join_answered_witness:
  "\<exists>sv'. run_alone (nest_handler plain_module None (plain_method (\<lambda>x. Raise (Http_Exception ''Forbidden'' 403 None)))
      (Join_Input (join_object 1 0))) demo_server = (sv', Inr ())
    \<and> jc_executed (jc_get 1 sv')"
proof -
  let ?h = "plain_method (\<lambda>x. Raise (Http_Exception ''Forbidden'' 403 None)) :: server handler_method"
  let ?p = "nest_handler plain_module None ?h (Join_Input (join_object 1 0))"
  obtain sv' r where ran: "run_alone ?p demo_server = (sv', r)" by fastforce
  have "code_keeps keeps_executed plain_module ?h" by (intro plain_code_keeps) simp
  moreover have "(\<lambda>_ _. False) \<le> keeps_executed" by (simp add: le_fun_def)
  moreover have "1 < length (sv_joins demo_server)" by (simp add: demo_server_parts)
  moreover have "ends (\<lambda>_ _. False) ?p demo_server sv' r" using ran by (simp add: ends_alone)
  ultimately have "r = Inr () \<and> (jc_executed (jc_get 1 sv')
    \<or> (\<exists>args s1 s2 data. ends (beside (\<lambda>_ _. False)) (hm_run ?h (getNestContext (Join_Input (join_object 1 0))) args) s1 s2 (Inr data)
        \<and> \<not> isNotEmpty data))"
    by (rule nest_join_answered)
  then show ?thesis using ran by (auto simp: plain_method_def)
qed

text \<open>
  C7. Whatever its guards, parameters and method do, and whatever else happens while it waits, a
  NestJS connection handler never rejects its promise, and when it has ended its request has been
  accepted or declined, unless its method returned nothing (or an empty response).
\<close>

theorem nest_connection_answered:
  assumes "code_keeps keeps_contexts nm h" "env \<le> keeps_contexts" "c < length (pd_contexts pd)"
    and "ends env (nest_handler nm active h (Connection_Input (connection_object c))) pd pd' r"
  shows "r = Inr () \<and> (cx_hasResponded c pd'
    \<or> (\<exists>args s1 s2 data. ends (beside env) (hm_run h (getNestContext (Connection_Input (connection_object c))) args) s1 s2 (Inr data)
        \<and> \<not> isNotEmpty data))"
  using connection_answer.handler_answers [OF assms] by (simp add: connection_request_ops_def)

definition demo_pond :: pond where
  "demo_pond = (new_pond True None 100 (\<lambda>e i n. []))\<lparr>pd_contexts :=
     [new_conn_context \<lparr>ur_client = ''ann'', ur_request = ''r'', ur_http = 3, ur_url = ''/api'', ur_cookie = None\<rparr>
        \<lparr>ep_params = [], ep_query = []\<rparr> 0]\<rparr>"

theorem nest_connection_answered_witness:
  "\<exists>pd'. run_alone (nest_handler plain_module None (plain_method (\<lambda>x. Return (Some (empty_response
        \<lparr>pr_decline := Some (Inl ''full'')\<rparr>)))) (Connection_Input (connection_object 0))) demo_pond = (pd', Inr ())
    \<and> cx_hasResponded 0 pd'"
proof -
  let ?h = "plain_method (\<lambda>x. Return (Some (empty_response\<lparr>pr_decline := Some (Inl ''full'')\<rparr>))) :: pond handler_method"
  let ?p = "nest_handler plain_module None ?h (Connection_Input (connection_object 0))"
  obtain pd' r where ran: "run_alone ?p demo_pond = (pd', r)" by fastforce
  have "code_keeps keeps_contexts plain_module ?h" by (intro plain_code_keeps) simp
  moreover have "(\<lambda>_ _. False) \<le> keeps_contexts" by (simp add: le_fun_def)
  moreover have "0 < length (pd_contexts demo_pond)" by (simp add: demo_pond_def)
  moreover have "ends (\<lambda>_ _. False) ?p demo_pond pd' r" using ran by (simp add: ends_alone)
  ultimately have "r = Inr () \<and> (cx_hasResponded 0 pd'
    \<or> (\<exists>args s1 s2 data. ends (beside (\<lambda>_ _. False)) (hm_run ?h (getNestContext (Connection_Input (connection_object 0))) args) s1 s2 (Inr data)
        \<and> \<not> isNotEmpty data))"
    by (rule nest_connection_answered)
  then show ?thesis using ran by (auto simp: plain_method_def isNotEmpty_def empty_response_def)
qed

subsection \<open>Guards\<close>

lemma run_guards_refused:
  assumes "g \<in> set gs" "\<And>s s'. \<not> ends E (g x) s s' (Inr True)"
  shows "\<not> ends E (run_guards x gs) s s' (Inr True)"
  using assms by (induction gs arbitrary: s) (auto simp: ends_bind ends_awaiting split: if_splits)

lemma performGuards_refused:
  assumes "c \<in> set (gs1 @ gs2 @ gs3)"
    and "\<And>g s s'. retrieveInstance m c = Inr g \<Longrightarrow> \<not> ends E (g x) s s' (Inr True)"
  shows "\<not> ends E (performGuards first m gs1 gs2 gs3 x) s s' (Inr True)"
proof
  assume "ends E (performGuards first m gs1 gs2 gs3 x) s s' (Inr True)"
  then obtain gs s1 where gs: "promise_all first (map (retrieveInstance m) (gs1 @ gs2 @ gs3)) = Inr gs"
      and ran: "ends E (run_guards x gs) s1 s' (Inr True)"
    by (auto simp: performGuards_def ends_bind ends_Wait of_result_def split: sum.splits simp del: map_append)
  have "retrieveInstance m c \<in> set (map Inr gs)"
    using gs assms(1) unfolding promise_all_Inr by (metis imageI list.set_map)
  then obtain g where "g \<in> set gs" "retrieveInstance m c = Inr g" by auto
  with run_guards_refused [of g gs E x s1 s'] assms(2) ran show False by blast
qed

text \<open>
  C8. A guard that never says yes, be it global, of the class or of the method, and at whatever
  position, keeps the method from running: what the action does is the same for every method, and
  if it does not throw, it ends by refusing the request in the way of its lifecycle.
\<close>

theorem refusing_guard:
  assumes "c \<in> set (nm_globalGuards nm @ hm_classGuards h @ hm_methodGuards h)"
    and "\<And>g s s'. retrieveInstance (nm_guards nm) c = Inr g \<Longrightarrow>
      \<not> ends (beside env) (g (getNestContext input)) s s' (Inr True)"
  shows "(ends env (performAction nm active (h\<lparr>hm_run := other\<rparr>) input) st st' r
      \<longleftrightarrow> ends env (performAction nm active h input) st st' r)
    \<and> (ends env (performAction nm active h input) st st' (Inr ()) \<longrightarrow> (\<exists>st1. rejectGuard input st1 = (st', None)))"
proof -
  let ?guards = "awaiting (performGuards (nm_first nm) (nm_guards nm) (nm_globalGuards nm) (hm_classGuards h)
    (hm_methodGuards h) (getNestContext input))"
  have no: "ends (beside env) ?guards s s' (Inr ok) \<Longrightarrow> \<not> ok" for s s' ok
  proof -
    have "\<not> ends (beside env) (performGuards (nm_first nm) (nm_guards nm) (nm_globalGuards nm) (hm_classGuards h)
        (hm_methodGuards h) (getNestContext input)) s t (Inr True)" for s t
      by (rule performGuards_refused [OF assms(1)]) (rule assms(2))
    then show "ends (beside env) ?guards s s' (Inr ok) \<Longrightarrow> \<not> ok" by (cases ok) (auto simp: ends_awaiting)
  qed
  have branch: "(\<exists>ok a. ends (beside env) ?guards s a (Inr ok) \<and> ends (beside env) (if ok then p else q) a t r)
      \<longleftrightarrow> (\<exists>a. ends (beside env) ?guards s a (Inr False) \<and> ends (beside env) q a t r)" for s t r and p q :: "('a, unit) code"
  proof (intro iffI; elim exE conjE)
    fix ok a
    assume a: "ends (beside env) ?guards s a (Inr ok)" "ends (beside env) (if ok then p else q) a t r"
    then have "ok = False" using no by simp
    with a show "\<exists>a. ends (beside env) ?guards s a (Inr False) \<and> ends (beside env) q a t r"
      by (intro exI [of _ a]) simp
  next
    fix a
    assume "ends (beside env) ?guards s a (Inr False)" "ends (beside env) q a t r"
    then show "\<exists>ok a. ends (beside env) ?guards s a (Inr ok) \<and> ends (beside env) (if ok then p else q) a t r"
      by (intro exI [of _ False] exI [of _ a]) simp
  qed
  have "ends env (performAction nm active h' input) st st' r \<longleftrightarrow>
      (\<exists>d'. (\<exists>e. r = Inl e \<and> ends (beside env) ?guards (st, []) (st', d') (Inl e))
        \<or> (\<exists>a. ends (beside env) ?guards (st, []) a (Inr False)
             \<and> ends (beside env) (perform_beside (rejectGuard input)) a (st', d') r))"
    if "hm_classGuards h' = hm_classGuards h" "hm_methodGuards h' = hm_methodGuards h" for h' r
    by (simp only: performAction_def that ends_with_data ends_bind branch)
  note eq = this [of "h\<lparr>hm_run := other\<rparr>"] this [of h]
  show ?thesis by (simp add: eq) (auto simp: perform_beside_def ends_call split: prod.splits, metis surj_pair)
qed

text \<open>The guard's no is kept by a global guard in front of Bob's request.\<close>

theorem refusing_guard_witness:
  "let nm = plain_module\<lparr>nm_guards := \<lparr>mr_get = (\<lambda>c. Some (\<lambda>x. Return False)), mr_resolve = (\<lambda>_. None)\<rparr>,
       nm_globalGuards := [''Auth'']\<rparr>;
     h = plain_method (\<lambda>x. Return None)
   in \<exists>sv' sv1. run_alone (performAction nm None h (Join_Input (join_object 1 0))) demo_server = (sv', Inr ())
      \<and> jc_decline 1 (Some ''Unauthorized'') (Some 403) sv1 = (sv', None)"
proof -
  let ?nm = "plain_module\<lparr>nm_guards := \<lparr>mr_get = (\<lambda>c. Some (\<lambda>x. Return False)), mr_resolve = (\<lambda>_. None)\<rparr>,
       nm_globalGuards := [''Auth'']\<rparr> :: server nest_module"
  let ?h = "plain_method (\<lambda>x. Return None) :: server handler_method"
  obtain sv1 where d: "jc_decline 1 (Some ''Unauthorized'') (Some 403) demo_server = (sv1, None)"
    using jc_decline_pending [of 1 demo_server] demo_server_parts(3,6) by fastforce
  have "run_alone (performAction ?nm None ?h (Join_Input (join_object 1 0))) demo_server = (sv1, Inr ())"
    using d by (simp add: performAction_def performGuards_def plain_module_def plain_method_def retrieveInstance_def
        promise_all_def rejected_def of_result_def perform_beside_def call_def join_object_def join_request_ops_def)
  then have ran: "ends (\<lambda>_ _. False) (performAction ?nm None ?h (Join_Input (join_object 1 0))) demo_server sv1 (Inr ())"
    by (simp add: ends_alone)
  have "\<exists>st1. rejectGuard (Join_Input (join_object 1 0)) st1 = (sv1, None)"
  proof -
    have "''Auth'' \<in> set (nm_globalGuards ?nm @ hm_classGuards ?h @ hm_methodGuards ?h)" by (simp add: plain_module_def)
    moreover have "\<not> ends E (g x) s s' (Inr True)" if "retrieveInstance (nm_guards ?nm) ''Auth'' = Inr g" for g E x s s'
      using that by (auto simp: retrieveInstance_def)
    ultimately show ?thesis using refusing_guard [of "''Auth''" ?nm ?h] ran by blast
  qed
  then show ?thesis
    using ran by (auto simp: Let_def ends_alone join_object_def join_request_ops_def)
qed

subsection \<open>Responses to a join request\<close>

lemma open_with_engine [simp]: "sv_open (fst (with_engine i f sv)) = sv_open sv"
proof -
  have "sv_open (run_eff i e sv) = sv_open sv" for e sv
    by (cases e) (simp_all add: ep_sendMessage_def lobby_deleteChannel_def Let_def)
  then have "sv_open (fold (run_eff i) es sv) = sv_open sv" for es sv
    by (induction es arbitrary: sv) simp_all
  then show ?thesis by (simp add: with_engine_def Let_def)
qed

lemma accept_frame:
  assumes j: "j < length (sv_joins sv)" "jc_cache (jc_get j sv) < length (sv_caches sv)"
    and acc: "\<not> jc_executed (jc_get j sv)" "jc_accept j None sv = (sv', None)"
  shows "jc_socket j sv' = jc_socket j sv" "jc_request (jc_get j sv') = jc_request (jc_get j sv)"
    "jc_engine (jc_get j sv') = jc_engine (jc_get j sv)" "sv_open sv' = sv_open sv"
proof -
  let ?sv2 = "upd_join j (\<lambda>x. x\<lparr>jc_executed := True\<rparr>) sv"
  obtain sv3 where sv3: "sv3 = fst (with_engine (jc_engine (jc_get j ?sv2)) (addUser (jc_client j ?sv2)
        (jc_assigns (jc_get j ?sv2)) (jc_socket j ?sv2) (jc_request (jc_get j ?sv2))) ?sv2)"
      and sv': "sv' = upd_join j (\<lambda>x. x\<lparr>jc_accepted := True\<rparr>) (add_subscription j sv3)"
    using acc(2) unfolding accept_pending [OF acc(1)] Let_def sv_then_def by (auto split: prod.splits option.splits)
  have w: "jc_get j sv3 = (jc_get j sv)\<lparr>jc_executed := True\<rparr>" "sv_caches sv3 = sv_caches sv"
      "sv_open sv3 = sv_open sv" "length (sv_joins sv3) = length (sv_joins sv)"
    unfolding sv3 using j(1) by (simp_all add: upd_join_get) (simp add: upd_join_def)
  have sub: "jc_get j (add_subscription j sv3) = jc_get j sv3" "sv_open (add_subscription j sv3) = sv_open sv3"
      "length (sv_joins (add_subscription j sv3)) = length (sv_joins sv3)"
    by (simp_all add: add_subscription_def Let_def) (simp_all add: upd_cache_def jc_get_def)
  have a: "jc_get j sv' = (jc_get j sv)\<lparr>jc_executed := True, jc_accepted := True\<rparr>"
    using j(1) w(1,4) sub by (simp add: sv' upd_join_get)
  then show "jc_request (jc_get j sv') = jc_request (jc_get j sv)" "jc_engine (jc_get j sv') = jc_engine (jc_get j sv)"
    by simp_all
  show "sv_open sv' = sv_open sv" using w(3) sub by (simp add: sv' upd_join_def)
  show "jc_socket j sv' = jc_socket j sv"
    unfolding jc_socket_def a using j(2) w(1,2)
    by (simp add: sv' add_subscription_def Let_def upd_cache_def)
qed



subsection \<open>A sender that is gone\<close>

lemma removed_unknown: "\<exists>e. getUserData u (removeUser u skip c) = Inl e"
proof (cases "getUserData u c")
  case (Inl e)
  then show ?thesis by (simp add: removeUser_def)
next
  case (Inr ud)
  have "presence_of (close d) u = None" "ch_assigns (close d) = []" for d
    by (simp_all add: presence_of_def)
  then show ?thesis
    by (simp add: removeUser_unfold [OF Inr] Let_def getUserData_def removed_core_presence jm.get_del)
qed

lemma unknown_not_reached:
  assumes "getUserData u c = Inl e"
  shows "\<exists>e'. sendMessage SYSTEM_CHANNEL (Users [u]) action event payload rid c = (c, Some e')"
proof -
  have "u \<notin> set (ch_users c)"
    using assms by (auto simp: getUserData_def Let_def ch_users_def jm_has_keys [symmetric] jm_has_get split: if_splits)
  then show ?thesis by (simp add: sendMessage_def getUsersFromRecipients_def)
qed

lemma with_engine_nothing:
  "f (engine_of i sv) = (engine_of i sv, Some e) \<Longrightarrow> with_engine i f sv = (sv, Some e)"
  by (simp add: with_engine_def Let_def engine_of_def lobby_of_def)

lemma departed_sender:
  assumes ran: "run_alone (run (getNestContext (Event_Input (event_object x)))) (sv, []) = ((sv1, d), Inr data)"
    and gone: "getUserData (ec_sender x) (engine_of (ec_engine x) sv1) = Inl e"
  shows "\<exists>e'. run_alone (nest_handler plain_module active (plain_method run) (Event_Input (event_object x))) sv
    = (sv1, Inl (Thrown e'))"
proof -
  let ?input = "Event_Input (event_object x)"
  have user: "nx_user (getNestContext ?input) sv1 = Inl e"
    using gone by (simp add: nx_user_def no_context_def event_object_def bc_user_def)
  have "run_alone (performAction plain_module active (plain_method run) ?input) sv = (sv1, Inl (Thrown e))"
    using ran user
    by (simp add: performAction_def run_alone_rules performGuards_def handle_request_def Let_def retrieveParameters_def
        plain_parameters of_result_def promise_all_def rejected_def place_values_def from_core_def
        del: getNestContext.simps)
  moreover obtain e' where "performErrors (Thrown e) ?input sv1 = (sv1, Some e')"
    using unknown_not_reached [OF gone] with_engine_nothing by (simp add: event_object_def ec_reply_def) metis
  ultimately show ?thesis
    by (simp add: nest_handler_def run_alone_rules perform_def)
qed

text \<open>
  C14. An event handler that evicts the user whose event it handles ends in an exception, whatever
  it returns: the response looks up the user who is no longer there, and the attempt to report that
  error to the user fails too. (The eviction itself is done.)
\<close>

theorem evicted_sender_throws:
  assumes "ec_evictUser x reason None sv = (sv1, None)" "ec_engine x < length (sv_engines sv)"
  shows "\<exists>e. run_alone (nest_handler plain_module None (plain_method (\<lambda>y.
      bind_prog (perform_beside (nx_evictUser y reason None)) (\<lambda>_. Return data))) (Event_Input (event_object x))) sv
    = (sv1, Inl (Thrown e))"
proof -
  let ?i = "ec_engine x"
  obtain c where c: "kickUser (ec_sender x) reason (engine_of ?i sv) = (c, None)" "engine_of ?i sv1 = c"
    using assms with_engine_engines(1) [OF assms(2), of "kickUser (ec_sender x) reason"]
    by (cases "kickUser (ec_sender x) reason (engine_of ?i sv)") (auto simp: ec_evictUser_def with_engine_def Let_def)
  then have "\<exists>c0. removeUser (ec_sender x) True c0 = c"
    by (auto simp: kickUser_def and_then_def split: prod.splits option.splits)
  then obtain e where "getUserData (ec_sender x) (engine_of ?i sv1) = Inl e"
    using removed_unknown [of "ec_sender x" True] c(2) by metis
  then show ?thesis
    using assms(1)
    by (intro departed_sender) (simp_all add: run_alone_rules perform_beside_def nx_evictUser_def using_object_def no_context_def event_object_def)
qed

definition demo_event :: event_context where
  "demo_event = \<lparr>ec_sender = ''ann'', ec_event = ''bye'', ec_payload = [], ec_request = ''q'',
     ec_params = \<lparr>ep_params = [], ep_query = []\<rparr>, ec_engine = 0\<rparr>"

text \<open>Ann's last message.\<close>

theorem evicted_sender_throws_witness:
  "\<exists>e sv1. run_alone (nest_handler plain_module None (plain_method (\<lambda>y.
      bind_prog (perform_beside (nx_evictUser y ''bye'' None)) (\<lambda>_. Return None))) (Event_Input (event_object demo_event))) demo_server
    = (sv1, Inl (Thrown e)) \<and> \<not> has_user ''ann'' (engine_of 0 sv1)"
proof -
  have "snd (ec_evictUser demo_event ''bye'' None demo_server) = None
      \<and> ch_users (engine_of 0 (fst (ec_evictUser demo_event ''bye'' None demo_server))) = []" by code_simp
  then obtain sv1 where sv1: "ec_evictUser demo_event ''bye'' None demo_server = (sv1, None)" "ch_users (engine_of 0 sv1) = []"
    by (metis prod.collapse)
  have "ec_engine demo_event < length (sv_engines demo_server)" by (simp add: demo_event_def demo_server_parts)
  note evicted_sender_throws [OF sv1(1) this, of None]
  moreover have "\<not> has_user ''ann'' (engine_of 0 sv1)" using sv1(2) by (simp add: has_user_def jm_has_keys ch_users_def)
  ultimately show ?thesis by blast
qed

end
