(* ===== verification/Nest_Setup.thy ===== *)
theory Nest_Setup
  imports Nest_Answers
begin

text \<open>
  What the start of a NestJS module guarantees: which channels belong to which endpoint and when
  that is refused, that the registered code fits the lobbies of the core, and that a method gets
  the arguments its decorators ask for.
\<close>

subsection \<open>Channels and endpoints\<close>

lemma first_duplicate_None: "first_duplicate seen ps = None \<longleftrightarrow> distinct ps \<and> set ps \<inter> set seen = {}"
  by (induction ps arbitrary: seen) auto

lemma jm_set_pairs: "x \<in> set (jm_set k v m) \<Longrightarrow> x = (k, v) \<or> x \<in> set m"
  unfolding jm_set_def by (induction m) (auto split: if_splits)

lemma provider_types: "distinct (map pv_type (getProviders wrappers))"
proof -
  let ?add = "\<lambda>w m. case w of None \<Rightarrow> m | Some p \<Rightarrow> jm_set (pv_type p) p m"
  have "jm_ok (fold ?add ws m) \<and> (\<forall>x \<in> set (fold ?add ws m). pv_type (snd x) = fst x)"
    if "jm_ok m" "\<forall>x \<in> set m. pv_type (snd x) = fst x" for ws and m :: "(nat \<times> provider) list"
    using that
  proof (induction ws arbitrary: m)
    case (Cons w ws)
    have "jm_ok (?add w m)" "\<forall>x \<in> set (?add w m). pv_type (snd x) = fst x"
      using Cons.prems by (auto simp: jm.ok_put dest!: jm_set_pairs split: option.split)
    then show ?case using Cons.IH [of "?add w m"] by simp
  qed simp
  from this [of "[]" wrappers] have m: "jm_ok (fold ?add wrappers [])" "\<forall>x \<in> set (fold ?add wrappers []). pv_type (snd x) = fst x"
    by (auto simp: jm_ok_def)
  then have "map pv_type (jm_values (fold ?add wrappers [])) = map fst (fold ?add wrappers [])"
    by (simp add: jm_values_def)
  with m(1) show ?thesis by (simp add: getProviders_def jm_ok_def jm_keys_def)
qed

lemma endpoint_for_member: "endpoint_for endpoints ch = Inr e \<Longrightarrow> e \<in> set endpoints"
proof -
  assume found: "endpoint_for endpoints ch = Inr e"
  have ref: "referenced endpoints n r = Inr e \<Longrightarrow> e \<in> set endpoints" for n r
    by (auto simp: referenced_def find_endpoint_def find_Some_iff split: endpoint_ref.splits option.splits)
  have one: "filter P xs = [e] \<Longrightarrow> e \<in> set xs" for P :: "provider \<Rightarrow> bool" and xs
    by (drule arg_cong [where f = set]) auto
  from found show ?thesis
    unfolding endpoint_for_def by (auto simp del: filter.simps dest!: ref one split: option.split_asm list.split_asm)
qed

lemma group_channels_ok: "is_ok (group_channels endpoints chs g) \<longleftrightarrow> (\<forall>ch \<in> set chs. is_ok (endpoint_for endpoints ch))"
  by (induction chs arbitrary: g) (auto simp: res_bind_def split: sum.split)

lemma group_channels_get:
  assumes inj: "inj_on pv_type (set endpoints)"
  shows "group_channels endpoints chs g = Inr g' \<Longrightarrow> e \<in> set endpoints \<Longrightarrow> jm_get g (pv_type e) = Some cs \<Longrightarrow>
    jm_get g' (pv_type e) = Some (cs @ filter (\<lambda>ch. endpoint_for endpoints ch = Inr e) chs)"
proof (induction chs arbitrary: g cs)
  case (Cons ch chs)
  obtain e1 where e1: "endpoint_for endpoints ch = Inr e1"
      and rest: "group_channels endpoints chs
        (jm_set (pv_type e1) (case_option [] id (jm_get g (pv_type e1)) @ [ch]) g) = Inr g'"
    using Cons.prems(1) by (auto simp: res_bind_Inr_iff)
  have "pv_type e1 = pv_type e \<longleftrightarrow> e1 = e"
    using inj endpoint_for_member [OF e1] Cons.prems(2) by (auto dest: inj_onD)
  with Cons.IH [OF rest Cons.prems(2)] Cons.prems(3) e1 show ?case by (auto simp: jm.get_put)
qed simp

lemma constant_map: "e \<in> set es \<Longrightarrow> jm_get (map (\<lambda>e. (f e, c)) es) (f e) = Some c"
  unfolding jm_get_def by (induction es) auto


subsection \<open>The registered code fits the lobbies\<close>

text \<open>
  The core keeps a lobby per channel pattern; the code beside it has an entry per lobby: its join
  handler under the lobby's pattern, event and outgoing handlers with patterns of their own, and
  a leave handler exactly when the lobby was told of one.
\<close>

definition code_fits :: "server \<Rightarrow> endpoint_code \<Rightarrow> bool" where
  "code_fits sv code \<longleftrightarrow>
     length (ek_auths code) = length (sv_lobbies sv) \<and> length (ek_events code) = length (sv_lobbies sv)
     \<and> length (ek_outgoing code) = length (sv_lobbies sv) \<and> length (ek_leaves code) = length (sv_lobbies sv)
     \<and> list_all (\<lambda>l. fst (ek_auths code ! l) = lb_path (sv_lobbies sv ! l)
          \<and> (lb_leave (sv_lobbies sv ! l) \<longleftrightarrow> \<not> Option.is_none (ek_leaves code ! l))
          \<and> distinct (map fst (ek_events code ! l)) \<and> distinct (map fst (ek_outgoing code ! l)))
        [0..<length (sv_lobbies sv)]"

lemma code_fits_nth:
  "code_fits sv code \<longleftrightarrow>
     length (ek_auths code) = length (sv_lobbies sv) \<and> length (ek_events code) = length (sv_lobbies sv)
     \<and> length (ek_outgoing code) = length (sv_lobbies sv) \<and> length (ek_leaves code) = length (sv_lobbies sv)
     \<and> (\<forall>l < length (sv_lobbies sv). fst (ek_auths code ! l) = lb_path (sv_lobbies sv ! l)
          \<and> (lb_leave (sv_lobbies sv ! l) \<longleftrightarrow> \<not> Option.is_none (ek_leaves code ! l))
          \<and> distinct (map fst (ek_events code ! l)) \<and> distinct (map fst (ek_outgoing code ! l)))"
  by (auto simp: code_fits_def list_all_iff)

lemma register_events_paths:
  "register_events hs es = Inr es' \<Longrightarrow> map fst es' = map fst es @ map (\<lambda>h. Pattern (fst h)) hs"
  by (induction hs es rule: register_events.induct) (auto simp: res_bind_Inr_iff lobby_onEvent_def)

lemma register_outgoing_paths: "register_outgoing hs gs = Inr gs' \<Longrightarrow> gs' = gs @ hs"
  by (induction hs gs rule: register_outgoing.induct) (auto simp: res_bind_Inr_iff)

lemma unique_paths: "assertUniquePaths hs life name = Inr u \<Longrightarrow> distinct (map fst hs)"
  using first_duplicate_None [of "[]" "map fst hs"] by (auto simp: assertUniquePaths_def split: option.splits)

lemma channel_handlers_unique:
  assumes "channel_handlers ms p registration = Inr (es, gs, leave)"
  shows "distinct (map fst es)" "distinct (map fst gs)"
proof -
  obtain events outgoing where u: "distinct (map fst events)" "distinct (map fst outgoing)"
      "register_events events [] = Inr es" "register_outgoing outgoing [] = Inr gs"
    using assms by (auto simp: channel_handlers_def Let_def res_bind_Inr_iff dest: unique_paths)
  have "map fst es = map Pattern (map fst events)" using register_events_paths [OF u(3)] by (simp add: comp_def)
  then show "distinct (map fst es)" using u(1) by (simp add: distinct_map inj_on_def)
  show "distinct (map fst gs)" using register_outgoing_paths [OF u(4)] u(2) by simp
qed

lemma manageChannel_fits:
  assumes fits: "code_fits sv code" and ran: "manageChannel ms p (sv, code) = Inr (sv', code')"
  shows "code_fits sv' code'"
proof (cases "\<exists>r. getChannelRegistration p = Some r \<and> truthy (Some r)")
  case False
  with ran fits show ?thesis by (auto simp: manageChannel_def split: option.splits if_splits)
next
  case True
  then obtain r where r: "getChannelRegistration p = Some r" "truthy (Some r)" by blast
  obtain h l sv1 es gs leave where
      create: "ep_createChannel (Pattern (reg_path r)) sv = Inr (l, sv1)"
      and hs: "channel_handlers ms p r = Inr (es, gs, leave)"
      and sv': "sv' = (if Option.is_none leave then sv1 else lobby_onLeave l sv1)"
      and code': "code' = \<lparr>ek_auths = ek_auths code @ [(Pattern (reg_path r), join_code h)],
         ek_events = ek_events code @ [es], ek_outgoing = ek_outgoing code @ [gs], ek_leaves = ek_leaves code @ [leave]\<rparr>"
    using ran r by (auto simp: manageChannel_def res_bind_Inr_iff split: prod.splits)
  have lobbies: "l = length (sv_lobbies sv)"
      "sv_lobbies sv1 = sv_lobbies sv @ [\<lparr>lb_path = Pattern (reg_path r), lb_channels = [], lb_leave = False\<rparr>]"
    using create by (auto simp: ep_createChannel_def res_bind_Inr_iff split: if_splits)
  have "sv_lobbies sv' = sv_lobbies sv @ [\<lparr>lb_path = Pattern (reg_path r), lb_channels = [], lb_leave = (\<not> Option.is_none leave)\<rparr>]"
    using lobbies by (simp add: sv' lobby_onLeave_def)
  then show ?thesis
    using fits channel_handlers_unique [OF hs] by (simp add: code_fits_nth code' nth_append less_Suc_eq)
qed

lemma manage_channels_fits:
  "code_fits (fst s) (snd s) \<Longrightarrow> manage_channels ms ps s = Inr s' \<Longrightarrow> code_fits (fst s') (snd s')"
proof (induction ps arbitrary: s)
  case (Cons p ps)
  then obtain s1 where "manageChannel ms p s = Inr s1" "manage_channels ms ps s1 = Inr s'"
    by (auto simp: res_bind_Inr_iff)
  then show ?case using Cons manageChannel_fits [of "fst s" "snd s" ms p "fst s1" "snd s1"] by simp
qed simp

text \<open>What the core has been told: the endpoints and their lobbies, under the paths of the providers.\<close>

definition channel_path :: "provider \<Rightarrow> string" where
  "channel_path p = (case getChannelRegistration p of Some r \<Rightarrow> reg_path r | None \<Rightarrow> [])"

lemma manageChannel_told:
  assumes "is_channel p" "manageChannel ms p (sv, code) = Inr (sv', code')"
  shows "sv_path sv' = sv_path sv" "map lb_path (sv_lobbies sv') = map lb_path (sv_lobbies sv) @ [Pattern (channel_path p)]"
proof -
  obtain r where r: "getChannelRegistration p = Some r" "truthy (Some r)"
    using assms(1) by (auto simp: is_channel_def truthy_def)
  obtain l sv1 and leave :: "server handler_value option" where create: "ep_createChannel (Pattern (reg_path r)) sv = Inr (l, sv1)"
      and sv': "sv' = (if Option.is_none leave then sv1 else lobby_onLeave l sv1)"
    using assms(2) r by (auto simp: manageChannel_def res_bind_Inr_iff split: prod.splits)
  show "sv_path sv' = sv_path sv" "map lb_path (sv_lobbies sv') = map lb_path (sv_lobbies sv) @ [Pattern (channel_path p)]"
    using create r(1)
    by (auto simp: sv' ep_createChannel_def res_bind_Inr_iff lobby_onLeave_def channel_path_def nth_append split: if_splits)
qed

lemma manage_channels_told:
  "\<forall>p \<in> set ps. is_channel p \<Longrightarrow> manage_channels ms ps s = Inr s' \<Longrightarrow> sv_path (fst s') = sv_path (fst s)
     \<and> map lb_path (sv_lobbies (fst s')) = map lb_path (sv_lobbies (fst s)) @ map (\<lambda>p. Pattern (channel_path p)) ps"
proof (induction ps arbitrary: s)
  case (Cons p ps)
  then obtain s1 where s1: "manageChannel ms p s = Inr s1" "manage_channels ms ps s1 = Inr s'"
    by (auto simp: res_bind_Inr_iff)
  then have "sv_path (fst s1) = sv_path (fst s)"
      "map lb_path (sv_lobbies (fst s1)) = map lb_path (sv_lobbies (fst s)) @ [Pattern (channel_path p)]"
    using manageChannel_told [of p ms "fst s" "snd s" "fst s1" "snd s1"] Cons.prems(1) by simp_all
  with Cons.IH [OF _ s1(2)] Cons.prems(1) show ?case by simp
qed simp

definition told :: "server \<Rightarrow> provider \<times> provider list \<Rightarrow> bool" where
  "told sv g \<longleftrightarrow> sv_path sv = endpoint_path (fst g)
     \<and> map lb_path (sv_lobbies sv) = map (\<lambda>p. Pattern (channel_path p)) (snd g)"

lemma manageEndpoint_told:
  assumes p: "is_endpoint p" "\<forall>ch \<in> set chs. is_channel ch" and ran: "manageEndpoint ms p chs app = Inr app'"
  shows "\<exists>sv code h. pd_endpoints (na_pond app') = pd_endpoints (na_pond app) @ [sv] \<and> na_code app' = na_code app @ [code]
    \<and> na_connections app' = na_connections app @ [(Pattern (endpoint_path p), h)] \<and> told sv (p, chs) \<and> code_fits sv code"
proof -
  obtain r where r: "getEndpointRegistration p = Some r" "truthy (Some r)"
    using p(1) by (auto simp: is_endpoint_def truthy_def)
  obtain h handlers pd sv code where
      create: "pd_createEndpoint (Pattern (reg_path r)) (connection_code h) (na_connections app) (na_pond app) = Inr (handlers, pd)"
      and chs: "manage_channels ms chs (last (pd_endpoints pd), no_code) = Inr (sv, code)"
      and app': "app' = \<lparr>na_pond = pd\<lparr>pd_endpoints := butlast (pd_endpoints pd) @ [sv]\<rparr>, na_connections = handlers,
         na_code = na_code app @ [code]\<rparr>"
    using ran r by (auto simp: manageEndpoint_def res_bind_Inr_iff split: prod.splits)
  obtain new where pd: "pd_endpoints pd = pd_endpoints (na_pond app) @ [new]" "sv_path new = reg_path r" "sv_lobbies new = []"
      and handlers: "handlers = na_connections app @ [(Pattern (reg_path r), connection_code h)]"
    using create by (auto simp: pd_createEndpoint_def res_bind_Inr_iff new_endpoint_def)
  have "code_fits new no_code" using pd(3) by (simp add: code_fits_nth no_code_def)
  then have "code_fits sv code" using manage_channels_fits [OF _ chs] pd(1) by simp
  moreover have "told sv (p, chs)"
    using manage_channels_told [OF p(2) chs] pd r(1) by (simp add: told_def endpoint_path_def)
  ultimately show ?thesis using pd(1) handlers r(1) by (auto simp: app' endpoint_path_def)
qed

definition app_fits :: "nest_app \<Rightarrow> (provider \<times> provider list) list \<Rightarrow> bool" where
  "app_fits app groups \<longleftrightarrow>
     map fst (na_connections app) = map (\<lambda>g. Pattern (endpoint_path (fst g))) groups
     \<and> list_all2 told (pd_endpoints (na_pond app)) groups
     \<and> list_all2 code_fits (pd_endpoints (na_pond app)) (na_code app)"

lemma manage_endpoints_fits:
  "\<forall>(p, chs) \<in> set groups. is_endpoint p \<and> (\<forall>ch \<in> set chs. is_channel ch) \<Longrightarrow> app_fits app done_before \<Longrightarrow>
     manage_endpoints ms groups app = Inr app' \<Longrightarrow> app_fits app' (done_before @ groups)"
proof (induction groups arbitrary: app done_before)
  case (Cons g groups)
  obtain p chs where g: "g = (p, chs)" by (cases g)
  obtain app1 where app1: "manageEndpoint ms p chs app = Inr app1" "manage_endpoints ms groups app1 = Inr app'"
    using Cons.prems(3) by (auto simp: g res_bind_Inr_iff)
  have "app_fits app1 (done_before @ [g])"
    using manageEndpoint_told [OF _ _ app1(1)] Cons.prems(1,2)
    by (auto simp: g app_fits_def list_all2_appendI)
  from Cons.IH [OF _ this app1(2)] Cons.prems(1) show ?case by simp
qed simp

lemma grouped_parts:
  assumes "getGroupedInstances wrappers = Inr groups"
  shows "map fst groups = filter is_endpoint (getProviders wrappers)" "distinct (map (\<lambda>g. endpoint_path (fst g)) groups)"
    "\<forall>(p, chs) \<in> set groups. is_endpoint p \<and> (\<forall>ch \<in> set chs. is_channel ch)"
proof -
  let ?es = "filter is_endpoint (getProviders wrappers)" and ?chs = "filter is_channel (getProviders wrappers)"
  obtain g where dup: "first_duplicate [] (map endpoint_path ?es) = None"
      and g: "group_channels ?es ?chs (map (\<lambda>e. (pv_type e, [])) ?es) = Inr g"
      and groups: "groups = map (\<lambda>e. (e, case_option [] id (jm_get g (pv_type e)))) ?es"
    using assms by (auto simp: getGroupedInstances_def Let_def res_bind_Inr_iff split: if_splits option.splits)
  show fst: "map fst groups = ?es" by (simp add: groups comp_def)
  show "distinct (map (\<lambda>g. endpoint_path (fst g)) groups)"
    using dup first_duplicate_None [of "[]" "map endpoint_path ?es"] by (simp add: groups comp_def)
  have "inj_on pv_type (set ?es)"
    using provider_types [of wrappers] by (auto simp: distinct_map intro: inj_on_subset)
  from group_channels_get [OF this g _ constant_map] show "\<forall>(p, chs) \<in> set groups. is_endpoint p \<and> (\<forall>ch \<in> set chs. is_channel ch)"
    by (auto simp: groups)
qed


text \<open>A gateway and a chat channel, without handlers of their own.\<close>

definition demo_provider :: "nat \<Rightarrow> string \<Rightarrow> string option \<Rightarrow> string option \<Rightarrow> provider" where
  "demo_provider i name endpoint channel =
     \<lparr>pv_host = None, pv_type = i, pv_class = name, pv_name = name, pv_endpoint_definition = None, pv_endpoint_path = endpoint,
      pv_channel_definition = None, pv_channel_path = channel, pv_connection = [], pv_join = [], pv_event = [],
      pv_outgoing = [], pv_leave = [], pv_handlers = [], pv_connection_methods = (\<lambda>_. None),
      pv_methods = (\<lambda>_. None), pv_outgoing_methods = (\<lambda>_. None)\<rparr>"

definition demo_modules :: nest_modules where
  "demo_modules = \<lparr>ns_pond = plain_module, ns_server = plain_module, ns_out = plain_module\<rparr>"

definition demo_wrappers :: "provider option list" where
  "demo_wrappers = [Some (demo_provider 1 ''Gateway'' (Some ''/api'') None), None,
     Some (demo_provider 2 ''Chat'' None (Some ''/chat/:id''))]"

definition demo_start :: pond where
  "demo_start = new_pond True None 100 (\<lambda>e i n. [])"


subsection \<open>Arguments\<close>

lemma index_below_count: "i \<in> set (parameter_indices h) \<Longrightarrow> i < parameter_count h"
proof -
  assume "i \<in> set (parameter_indices h)"
  then have "Suc i \<le> parameter_count h"
    unfolding parameter_count_def by (intro Max_ge) auto
  then show ?thesis by simp
qed

lemma place_values_nth:
  assumes "distinct (map fst ivs)" "(i, v) \<in> set ivs" "i < n"
  shows "place_values n ivs ! i = v"
proof -
  have "map_of (rev ivs) i = Some v"
    using assms(1,2) by (intro map_of_is_SomeI) (auto simp: rev_map [symmetric])
  then show ?thesis using assms(3) by (simp add: place_values_def)
qed

text \<open>
  C11. The arguments of a method: as many as it has parameters, each of them decorated, and once
  only; a context parameter belongs to the definition the handler is registered for and gets the
  context; any other parameter gets the value its own callback reads from one state, after the
  pipes. (Otherwise there is an exception and the method does not run.)
\<close>

theorem arguments_in_place:
  assumes ran: "ends env (retrieveParameters nm active h x) st st' (Inr args)"
  shows "length args = parameter_count h \<and> set (parameter_indices h) = {..<length args} \<and> distinct (parameter_indices h)
    \<and> (\<forall>(d, i) \<in> set (hm_bound h). active = Some d \<and> args ! i = Arg_Context)
    \<and> (\<forall>(i, metatype, callback) \<in> set (hm_managed h).
         wrapTransform (nm_first nm) (nm_pipes nm) (nm_globalPipes nm @ hm_classPipes h @ hm_methodPipes h)
           metatype callback x st = Inr (args ! i))"
proof -
  let ?wrap = "wrapTransform (nm_first nm) (nm_pipes nm) (nm_globalPipes nm @ hm_classPipes h @ hm_methodPipes h)"
  obtain n ivs where check: "check_parameters active h = Inr n"
      and all: "Inr ivs = promise_all (nm_first nm) (parameter_values nm h x st)" and args: "args = place_values n ivs"
    using ran by (auto simp: retrieveParameters_def ends_rules of_result_def split: sum.splits)
  have n: "n = parameter_count h" "distinct (parameter_indices h)"
      "filter (\<lambda>i. i \<notin> set (parameter_indices h)) [0..<n] = []" "\<forall>b \<in> set (hm_bound h). Some (fst b) = active"
    using check by (auto simp: check_parameters_def split: if_splits list.splits)
  have vals: "parameter_values nm h x st = map Inr ivs" using all [symmetric] by (simp add: promise_all_Inr)
  have managed: "\<exists>v. ?wrap metatype callback x st = Inr v \<and> (i, v) \<in> set ivs"
    if "(i, metatype, callback) \<in> set (hm_managed h)" for i metatype callback
  proof -
    have "nest_bind (?wrap metatype callback x st) (\<lambda>v. Inr (i, v)) \<in> set (map Inr ivs)"
      using that unfolding vals [symmetric] parameter_values_def by force
    then show ?thesis by (auto simp: nest_bind_def split: sum.splits)
  qed
  have bound: "(i, Arg_Context) \<in> set ivs" if "(d, i) \<in> set (hm_bound h)" for d i
  proof -
    have "Inr (i, Arg_Context) \<in> set (map Inr ivs :: _ nest_res list)"
      using that unfolding vals [symmetric] parameter_values_def by force
    then show ?thesis by auto
  qed
  have "map (\<lambda>r. fst (projr r)) (map Inr ivs :: _ nest_res list) = parameter_indices h"
    unfolding vals [symmetric]
  proof -
    have "fst (projr (nest_bind (?wrap metatype callback x st) (\<lambda>v. Inr (i, v)))) = i"
      if "(i, metatype, callback) \<in> set (hm_managed h)" for i metatype callback
      using managed [OF that] by auto
    then show "map (\<lambda>r. fst (projr r)) (parameter_values nm h x st) = parameter_indices h"
      by (auto simp: parameter_values_def parameter_indices_def)
  qed
  then have idx: "map fst ivs = parameter_indices h" by (simp add: comp_def)
  have below: "i < n" if "(i, v) \<in> set ivs" for i v
    using index_below_count [of i h] that idx n(1) by (metis fst_conv image_eqI list.set_map)
  have nth: "args ! i = v" if "(i, v) \<in> set ivs" for i v
    unfolding args using that idx n(2) below [OF that] by (intro place_values_nth) simp_all
  have "set (parameter_indices h) = {..<n}"
    using n(3) index_below_count [of _ h] n(1) by (auto simp: filter_empty_conv)
  moreover have "length args = n" by (simp add: args place_values_def)
  ultimately show ?thesis
    using n nth managed bound by (auto simp: case_prod_beta) (metis prod.collapse nth)+
qed

text \<open>\<open>onJoin(@GetContext() ctx, @GetUserData() user)\<close> on Bob's request.\<close>

definition demo_parameters :: "server handler_method" where
  "demo_parameters = (plain_method (\<lambda>x. Return None))\<lparr>hm_managed := [(1, None, GetUserData)], hm_bound := [(7, 0)], hm_length := 2\<rparr>"

theorem arguments_in_place_witness:
  "\<exists>args. run_alone (retrieveParameters plain_module (Some 7) demo_parameters (getNestContext (Join_Input (join_object 1 0))))
      (demo_server, []) = ((demo_server, []), Inr args)
    \<and> length args = 2 \<and> args ! 0 = Arg_Context \<and> args ! 1 = Arg_User (jc_user 1 demo_server)"
proof -
  let ?x = "getNestContext (Join_Input (join_object 1 0))"
  let ?p = "retrieveParameters plain_module (Some 7) demo_parameters ?x"
  have count: "check_parameters (Some 7) demo_parameters = Inr 2" "parameter_count demo_parameters = 2"
    by (simp_all add: check_parameters_def parameter_count_def parameter_indices_def demo_parameters_def plain_method_def upt_rec)
  have user: "GetUserData ?x st = Inr (Arg_User (jc_user 1 (fst st)))" for st
    by (simp add: GetUserData_def createContextParamDecorator_def nx_user_def no_context_def join_object_def from_core_def)
  have wrap: "wrapTransform first m [] mt GetUserData ?x st = Inr (Arg_User (jc_user 1 (fst st)))" for first m mt st
    by (simp add: wrapTransform_def user promise_all_def rejected_def del: getNestContext.simps One_nat_def)
  have vals: "parameter_values plain_module demo_parameters ?x st =
      map Inr [(1, Arg_User (jc_user 1 (fst st))), (0, Arg_Context)]" for st
    unfolding parameter_values_def
    by (simp add: demo_parameters_def plain_method_def wrap del: getNestContext.simps One_nat_def)
  obtain args where ran: "run_alone ?p (demo_server, []) = ((demo_server, []), Inr args)"
    by (simp add: retrieveParameters_def run_alone_rules count of_result_def vals promise_all_def rejected_def
        del: getNestContext.simps One_nat_def)
  then have "ends (\<lambda>_ _. False) ?p (demo_server, []) (demo_server, []) (Inr args)" by (simp only: ends_alone)
  note placed = arguments_in_place [OF this]
  have "length args = 2" "args ! 0 = Arg_Context" using placed count(2) by (auto simp: demo_parameters_def)
  moreover have "args ! 1 = Arg_User (jc_user 1 demo_server)"
    using placed wrap [where st = "(demo_server, [])"]
    by (auto simp: demo_parameters_def plain_method_def simp del: getNestContext.simps One_nat_def)
  ultimately show ?thesis using ran by blast
qed

end
