(* ===== verification/Nest_Engine.thy ===== *)
theory Nest_Engine
  imports Nest_Answers
begin

text \<open>
  A NestJS join handler in the chain of the core: the run of the chain, with the event loop
  resuming it in between other code, ends with the request answered.
\<close>

subsection \<open>A guarded promise in a chain\<close>

text \<open>Where a guarded asynchronous function is after its next synchronous piece.\<close>

definition suspended_as ::
    "('st \<Rightarrow> 'st \<Rightarrow> bool) \<Rightarrow> ('e \<Rightarrow> exn) \<Rightarrow> ('st \<Rightarrow> 'st) \<Rightarrow> 'st mw_prog \<Rightarrow> ('st, 'e, 'a) prog \<Rightarrow> 'st \<Rightarrow> 'st \<Rightarrow>
     'st mw_task \<Rightarrow> bool" where
  "suspended_as K x mark check q st st' t \<longleftrightarrow>
     (\<exists>a. t = Suspended check \<and> ends K q st st' (Inr a))
     \<or> (\<exists>e. t = Rejected (x e) \<and> ends K q st st' (Inl e))
     \<or> (\<exists>q'. t = Suspended (guard_prog mark check (promise_of x q'))
          \<and> (\<forall>st2 r. ends K (Wait q') st' st2 r \<longrightarrow> ends K q st st2 r))"

lemma exec_promise:
  "\<exists>st' t. suspended_as K x mark check q st st' t \<and> (\<forall>nxt r. mr_state r = st \<longrightarrow>
     exec_prog nxt (guard_prog mark check (promise_of x q)) r = (r\<lparr>mr_tasks := mr_tasks r @ [t], mr_state := st'\<rparr>, None))"
proof (induction q arbitrary: st rule: prog_tree_induct)
  case (Return a)
  show ?case by (intro exI [of _ st] exI [of _ "Suspended check"]) (auto simp: suspended_as_def)
next
  case (Raise e)
  show ?case by (intro exI [of _ st] exI [of _ "Rejected (x e)"]) (auto simp: suspended_as_def)
next
  case (Step f)
  from Step.IH [of st "fst (f st)"] obtain st' t where
      "suspended_as K x mark check (snd (f st)) (fst (f st)) st' t"
      and "\<And>nxt r. mr_state r = fst (f st) \<Longrightarrow> exec_prog nxt (guard_prog mark check (promise_of x (snd (f st)))) r
        = (r\<lparr>mr_tasks := mr_tasks r @ [t], mr_state := st'\<rparr>, None)"
    by blast
  then show ?case by (intro exI [of _ st'] exI [of _ t]) (auto simp: snd_map_prod suspended_as_def)
next
  case (Wait q)
  show ?case
    by (intro exI [of _ st] exI [of _ "Suspended (guard_prog mark check (promise_of x q))"])
      (auto simp: suspended_as_def)
qed

text \<open>
  A run of which this function is the only task: it waits, or is through and its check is due, or
  the check has been made.
\<close>

definition handled ::
    "('st \<Rightarrow> 'st \<Rightarrow> bool) \<Rightarrow> ('e \<Rightarrow> exn) \<Rightarrow> ('st \<Rightarrow> 'st) \<Rightarrow> 'st mw_prog \<Rightarrow> ('st, 'e, 'a) prog \<Rightarrow> 'st \<Rightarrow>
     ('st \<Rightarrow> bool) \<Rightarrow> 'st mw_run \<Rightarrow> bool" where
  "handled K x mark check p s answered r \<longleftrightarrow> mr_finals r = []
     \<and> ((\<exists>q. mr_tasks r = [Suspended (guard_prog mark check (promise_of x q))]
            \<and> (\<forall>st2 res. ends K (Wait q) (mr_state r) st2 res \<longrightarrow> ends K p s st2 res))
        \<or> (\<exists>s1 a. mr_tasks r = [Suspended check] \<and> ends K p s s1 (Inr a) \<and> K\<^sup>*\<^sup>* s1 (mr_state r))
        \<or> (mr_tasks r = [] \<and> answered (mr_state r)))"

text \<open>
  The function is of the kind that is answered in the end: it never rejects, its check, made in any
  state that can follow its end, ends well, and what is answered stays so.
\<close>

definition answers ::
    "('st \<Rightarrow> 'st \<Rightarrow> bool) \<Rightarrow> ('st, 'e, 'a) prog \<Rightarrow> ('st \<Rightarrow> 'st \<times> 'st mw_prog) \<Rightarrow> 'st \<Rightarrow> ('st \<Rightarrow> bool) \<Rightarrow> bool" where
  "answers K p g s answered \<longleftrightarrow>
     (\<forall>st e. \<not> ends K p s st (Inl e))
     \<and> (\<forall>st1 st a. ends K p s st1 (Inr a) \<longrightarrow> K\<^sup>*\<^sup>* st1 st \<longrightarrow> (\<exists>st'. g st = (st', Done) \<and> answered st'))
     \<and> (\<forall>st st'. answered st \<longrightarrow> K st st' \<longrightarrow> answered st')"

lemma suspended_handled:
  assumes ans: "answers K p g s answered"
    and sus: "suspended_as K x mark (Act g) q st st' t" and q: "\<And>st2 r. ends K q st st2 r \<Longrightarrow> ends K p s st2 r"
    and r: "mr_tasks r = [t]" "mr_state r = st'" "mr_finals r = []"
  shows "handled K x mark (Act g) p s answered r"
proof -
  from sus consider (through) a where "t = Suspended (Act g)" "ends K q st st' (Inr a)"
    | (failed) e where "ends K q st st' (Inl e)"
    | (waits) q' where "t = Suspended (guard_prog mark (Act g) (promise_of x q'))"
        "\<And>st2 r. ends K (Wait q') st' st2 r \<Longrightarrow> ends K q st st2 r"
    unfolding suspended_as_def by blast
  then show ?thesis
  proof cases
    case through
    then have "ends K p s st' (Inr a)" by (intro q)
    with through(1) r show ?thesis by (auto simp: handled_def)
  next
    case failed
    with q ans show ?thesis unfolding answers_def by blast
  next
    case waits
    with q r show ?thesis unfolding handled_def by blast
  qed
qed

lemma handled_other:
  assumes ans: "answers K p g s answered" and f: "\<And>st. K st (f st)" and h: "handled K x mark (Act g) p s answered r"
  shows "handled K x mark (Act g) p s answered (r\<lparr>mr_state := f (mr_state r)\<rparr>)"
proof -
  from h consider
      (waits) q where "mr_tasks r = [Suspended (guard_prog mark (Act g) (promise_of x q))]"
        "\<And>st2 res. ends K (Wait q) (mr_state r) st2 res \<Longrightarrow> ends K p s st2 res"
    | (check) s1 a where "mr_tasks r = [Suspended (Act g)]" "ends K p s s1 (Inr a)" "K\<^sup>*\<^sup>* s1 (mr_state r)"
    | (over) "mr_tasks r = []" "answered (mr_state r)"
    unfolding handled_def by blast
  then show ?thesis
  proof cases
    case waits
    have "ends K (Wait q) (f (mr_state r)) st2 res \<Longrightarrow> ends K p s st2 res" for st2 res
      using f [of "mr_state r"] by (intro waits(2)) (auto simp: ends_Wait intro: converse_rtranclp_into_rtranclp)
    then have "(\<exists>q. mr_tasks r = [Suspended (guard_prog mark (Act g) (promise_of x q))]
        \<and> (\<forall>st2 res. ends K (Wait q) (f (mr_state r)) st2 res \<longrightarrow> ends K p s st2 res))"
      using waits(1) by blast
    with h show ?thesis by (simp add: handled_def)
  next
    case check
    have "K\<^sup>*\<^sup>* s1 (f (mr_state r))" using check(3) f by (metis rtranclp.rtrancl_into_rtrancl)
    with check(1,2) h show ?thesis by (auto simp: handled_def)
  next
    case over
    have "answered (f (mr_state r))" using over(2) f ans unfolding answers_def by blast
    with over(1) h show ?thesis by (simp add: handled_def)
  qed
qed

lemma handled_resume:
  assumes ans: "answers K p g s answered" and h: "handled K x mark (Act g) p s answered r"
  shows "handled K x mark (Act g) p s answered (mw_resume stack final r (Resume i))"
proof (cases "length (mr_tasks r) \<le> i")
  case True
  with h show ?thesis by (simp add: mw_resume_def)
next
  case False
  have fin: "mr_finals r = []" using h by (simp add: handled_def)
  from h consider
      (waits) q where "mr_tasks r = [Suspended (guard_prog mark (Act g) (promise_of x q))]"
        "\<And>st2 res. ends K (Wait q) (mr_state r) st2 res \<Longrightarrow> ends K p s st2 res"
    | (check) s1 a where "mr_tasks r = [Suspended (Act g)]" "ends K p s s1 (Inr a)" "K\<^sup>*\<^sup>* s1 (mr_state r)"
    | (over) "mr_tasks r = []"
    unfolding handled_def by blast
  then show ?thesis
  proof cases
    case waits
    have i: "i = 0" using False waits(1) by simp
    let ?r = "r\<lparr>mr_tasks := []\<rparr>"
    obtain st' t where e: "exec_prog (next_of stack final) (guard_prog mark (Act g) (promise_of x q)) ?r
          = (?r\<lparr>mr_tasks := mr_tasks ?r @ [t], mr_state := st'\<rparr>, None)"
        and sus: "suspended_as K x mark (Act g) q (mr_state ?r) st' t"
      using exec_promise [of K x mark "Act g" q "mr_state ?r"] by blast
    have "ends K q (mr_state ?r) st2 res \<Longrightarrow> ends K p s st2 res" for st2 res
      by (rule waits(2)) (auto intro: ends_wait)
    from suspended_handled [OF ans sus this]
    have "handled K x mark (Act g) p s answered (?r\<lparr>mr_tasks := mr_tasks ?r @ [t], mr_state := st'\<rparr>)"
      using fin by simp
    then show ?thesis by (simp add: mw_resume_def waits(1) i e del: exec_prog.simps)
  next
    case check
    obtain st' where "g (mr_state r) = (st', Done)" "answered st'"
      using ans check(2,3) unfolding answers_def by blast
    moreover have "i = 0" using False check(1) by simp
    ultimately show ?thesis using check(1) fin by (simp add: mw_resume_def handled_def)
  qed (use False in simp)
qed

lemma handled_run:
  assumes ans: "answers K p g s answered"
  shows "handled K x mark (Act g) p s answered r \<Longrightarrow> (\<And>f st. Other f \<in> set events \<Longrightarrow> K st (f st)) \<Longrightarrow>
     handled K x mark (Act g) p s answered (foldl (mw_resume stack final) r events)"
proof (induction events arbitrary: r)
  case (Cons ev events)
  have "handled K x mark (Act g) p s answered (mw_resume stack final r ev)"
  proof (cases ev)
    case (Other f)
    with Cons.prems show ?thesis using handled_other [OF ans, of f] by (simp add: mw_resume_def)
  qed (use Cons.prems handled_resume [OF ans] in simp)
  with Cons show ?case by simp
qed simp

subsection \<open>Who may mark a request as passed on\<close>

text \<open>
  Only the \<open>next\<close> of a request's own handler marks it as passed on. Other code leaves the mark
  alone, and so do all operations of the core.
\<close>

definition keeps_mark :: "nat \<Rightarrow> server \<Rightarrow> server \<Rightarrow> bool" where
  "keeps_mark j sv sv' \<longleftrightarrow> (j < length (sv_joins sv) \<longrightarrow>
     j < length (sv_joins sv') \<and> jc_delegated (jc_get j sv') = jc_delegated (jc_get j sv))"

lemma keeps_mark_same [simp]: "sv_joins sv' = sv_joins sv \<Longrightarrow> keeps_mark j sv sv'"
  by (simp add: keeps_mark_def jc_get_def)

lemma keeps_mark_upd [simp]: "(\<And>x. jc_delegated (f x) = jc_delegated x) \<Longrightarrow> keeps_mark j sv (upd_join j' f sv)"
  by (cases "j' < length (sv_joins sv)") (auto simp: keeps_mark_def upd_join_get upd_join_def jc_get_def nth_list_update)

lemma keeps_mark_trans: "keeps_mark j a b \<Longrightarrow> keeps_mark j b c \<Longrightarrow> keeps_mark j a c"
  by (simp add: keeps_mark_def)

lemma keeps_mark_then:
  "keeps_mark j sv (fst r) \<Longrightarrow> (\<And>sv1. keeps_mark j sv1 (fst (f sv1))) \<Longrightarrow> keeps_mark j sv (fst (sv_then r f))"
  by (cases r; cases "snd r") (auto intro: keeps_mark_trans)

lemma keeps_mark_assign: "keeps_mark j sv (fst (jc_assign j' a sv))"
  by (simp add: jc_assign_def)

lemma keeps_mark_checks: "keeps_mark j sv (fst (jc_performChecks j' sv))"
  by (simp add: jc_performChecks_def)

lemma keeps_mark_decline: "keeps_mark j sv (fst (jc_decline j' m c sv))"
  unfolding jc_decline_def by (intro keeps_mark_then keeps_mark_checks) (simp add: jc_directMessage_def)

lemma keeps_mark_accept: "keeps_mark j sv (fst (jc_accept j' a sv))"
proof -
  have "keeps_mark j sv3 (upd_join j' (\<lambda>x. x\<lparr>jc_accepted := True\<rparr>) (add_subscription j' sv3))" for sv3
    by (rule keeps_mark_trans [OF keeps_mark_same keeps_mark_upd]) (simp_all add: add_subscription_def Let_def upd_cache_def)
  then show ?thesis
    unfolding jc_accept_def
    by (intro keeps_mark_then keeps_mark_checks) (simp_all add: keeps_mark_assign split: option.split)
qed

definition keeps_request :: "nat \<Rightarrow> server \<Rightarrow> server \<Rightarrow> bool" where
  "keeps_request j sv sv' \<longleftrightarrow> keeps_executed sv sv' \<and> keeps_mark j sv sv'"

lemma keeps_request_order: "reflp (keeps_request j)" "transp (keeps_request j)"
  by (auto simp: keeps_request_def intro!: reflpI transpI intro: keeps_executed_trans keeps_mark_trans)

lemma request_keeps_input: "keeps_input (keeps_request j) (Join_Input (join_object j i))"
  using join_keeps_input [of j i]
  by (simp add: keeps_request_def join_object_def keeps_reply_def keeps_channel_def keeps_def channel_of_def
      keeps_mark_assign jc_reply_def jc_directMessage_def jc_sendTo_def wrap_upsertPresence_def jc_trackPresence_def)

interpretation request_answer: answerable "Join_Input (join_object j i)" "join_request_ops j" "keeps_request j"
  "\<lambda>sv. j < length (sv_joins sv)" for j i
proof unfold_locales
  note ops = join_request_ops_def jc_hasResponded_def
  show "request_of (Join_Input (join_object j i)) = Some (join_request_ops j)" by (simp add: join_object_def)
  show "keeps (keeps_request j) (rq_accept (join_request_ops j) a)" for a
    by (simp add: keeps_def ops keeps_executed_accept keeps_mark_accept keeps_request_def)
  show "keeps (keeps_request j) (rq_decline (join_request_ops j) m c)" for m c
    by (simp add: keeps_def ops keeps_executed_decline keeps_mark_decline keeps_request_def)
  show "keeps_request j sv sv' \<Longrightarrow> j < length (sv_joins sv) \<Longrightarrow> j < length (sv_joins sv')" for sv sv'
    by (simp add: keeps_request_def keeps_executed_def)
  show "keeps_request j sv sv' \<Longrightarrow> j < length (sv_joins sv) \<Longrightarrow> rq_responded (join_request_ops j) sv \<Longrightarrow>
      rq_responded (join_request_ops j) sv'" for sv sv'
    by (auto simp: keeps_request_def ops intro: keeps_executedD)
qed (use keeps_request_order request_keeps_input in
    \<open>simp_all add: join_request_ops_def jc_hasResponded_def jc_decline_pending jc_decline_answered jc_accept_answers\<close>)

subsection \<open>The request is answered\<close>

lemma start_join_new:
  "start_join l req params sv = (j, sv1) \<Longrightarrow> j = length (sv_joins sv) \<and> j < length (sv_joins sv1) \<and> \<not> jc_delegated (jc_get j sv1)"
  by (auto simp: start_join_def lobby_getOrCreateChannel_def lobby_createChannel_def Let_def new_join_def jc_get_def
      nth_append split: option.splits)

definition join_prog ::
    "server nest_module \<Rightarrow> nat option \<Rightarrow> server handler_method \<Rightarrow> nat \<Rightarrow> (server, nest_exn, unit) prog" where
  "join_prog nm active h j = bind_prog (ask (\<lambda>sv. Inr (jc_engine (jc_get j sv))))
    (\<lambda>i. awaiting (nest_handler nm active h (Join_Input (join_object j i))))"

definition unanswered_step :: "nat \<Rightarrow> server \<Rightarrow> server \<times> server mw_prog" where
  "unanswered_step j sv =
     (if jc_delegated (jc_get j sv) \<or> jc_executed (jc_get j sv) then (sv, Done)
     else (case jc_decline j (Some ''Join handler completed without accepting or declining the request'') (Some 500) sv of
        (sv', None) \<Rightarrow> (sv', Done) | (sv', Some e) \<Rightarrow> (sv', Throw e)))"

lemma join_code_prog:
  "join_code (Some (nest_handler nm active h)) j = promise_of core_exn (join_prog nm active h j)"
  "unanswered j = Act (unanswered_step j)"
  by (simp_all add: join_code_def join_prog_def unanswered_def unanswered_step_def [abs_def])

definition join_answered :: "nat \<Rightarrow> server \<Rightarrow> bool" where
  "join_answered j sv \<longleftrightarrow> j < length (sv_joins sv) \<and> jc_executed (jc_get j sv)"

lemma nest_join_promise:
  assumes code: "code_keeps (keeps_request j) nm h"
    and st: "j < length (sv_joins sv)" "\<not> jc_delegated (jc_get j sv)"
  shows "answers (keeps_request j) (join_prog nm active h j) (unanswered_step j) sv (join_answered j)"
proof -
  let ?K = "keeps_request j" and ?p = "join_prog nm active h j"
  have refl: "?K sv sv" for sv using keeps_request_order(1) by (rule reflpD)
  have star: "?K\<^sup>*\<^sup>* a b \<Longrightarrow> ?K a b" for a b
    by (induction rule: rtranclp_induct) (use refl keeps_request_order(2) in \<open>auto elim: transpE\<close>)
  have steps: "steps_in ?K (nest_handler nm active h (Join_Input (join_object j i)))" for i
  proof -
    have "performErrors e (Join_Input (join_object j i)) = decline_error (join_request_ops j) e" for e
      by (simp add: join_object_def)
    moreover have "?K sv (fst (decline_error (join_request_ops j) e sv))" for e sv
      using refl by (simp add: decline_error_def join_request_ops_def keeps_request_def keeps_executed_decline
          keeps_mark_decline split: prod.split)
    ultimately show ?thesis
      unfolding nest_handler_def
      by (intro steps_in_catch)
        (simp_all add: steps_in_awaiting request_answer.performAction_steps [OF code] perform_def steps_in_call)
  qed
  have ended: "r = Inr () \<and> ?K sv sv'" if ran: "ends ?K ?p sv sv' r" for sv' r
  proof -
    obtain i sv1 where sv1: "ends ?K (nest_handler nm active h (Join_Input (join_object j i))) sv sv1 r" "?K sv1 sv'"
      using ran star by (auto simp: join_prog_def ends_bind ends_ask ends_awaiting)
    then show ?thesis
      using request_answer.handler_answers [OF code order_refl st(1) sv1(1)]
        steps_in_ends [OF keeps_request_order order_refl steps sv1(1)] keeps_request_order(2)
      by (auto elim: transpE)
  qed
  have "\<exists>sv3. unanswered_step j sv2 = (sv3, Done) \<and> join_answered j sv3"
    if "ends ?K ?p sv sv1 (Inr a)" "?K\<^sup>*\<^sup>* sv1 sv2" for sv1 a sv2
  proof -
    have "?K sv sv2" using ended [OF that(1)] star [OF that(2)] keeps_request_order(2) by (auto elim: transpE)
    then have sv2: "j < length (sv_joins sv2)" "\<not> jc_delegated (jc_get j sv2)"
      using st by (simp_all add: keeps_request_def keeps_mark_def)
    let ?m = "Some ''Join handler completed without accepting or declining the request''"
    have "j < length (sv_joins (fst (jc_decline j ?m (Some 500) sv2)))"
      using keeps_mark_decline [of j sv2 j] sv2(1) by (simp add: keeps_mark_def)
    then show ?thesis
      using sv2 jc_decline_pending [OF sv2(1), of ?m "Some 500"] by (auto simp: unanswered_step_def join_answered_def)
  qed
  moreover have "join_answered j sv2" if "join_answered j sv1" "?K sv1 sv2" for sv1 sv2
    using that by (simp add: join_answered_def keeps_request_def keeps_executed_def)
  ultimately show ?thesis using ended unfolding answers_def by blast
qed

text \<open>
  C6. A join request whose first matching handler is a NestJS one is answered. The handlers and
  guards may do what they like with the state except answer or pass on requests behind the back of
  their contexts, and so may other code between any two steps of the event loop: the chain never
  ends in an error, and once nothing of its run is pending, the request has been accepted or declined,
  even when the method returned nothing (then by the engine).
\<close>

theorem nest_join_in_engine:
  assumes pre: "\<forall>(path, handler) \<in> set pre. parseAddress path (jr_channel req) = Inr None"
    and match: "parseAddress path (jr_channel req) = Inr (Some params)"
    and code: "code_keeps (keeps_request (length (sv_joins sv))) nm h"
    and others: "\<And>f st. Other f \<in> set events \<Longrightarrow> keeps_request (length (sv_joins sv)) st (f st)"
  shows "let auths = pre @ (path, join_code (Some (nest_handler nm active h))) # post;
      r = foldl (mw_resume (join_stack auths req) (join_final req)) (fst (ep_joinChannel auths req sv)) events
    in mr_finals r = [] \<and> (mr_tasks r = [] \<longrightarrow> jc_executed (jc_get (length (sv_joins sv)) (mr_state r)))"
proof -
  let ?code = "join_code (Some (nest_handler nm active h))"
  let ?auths = "pre @ (path, ?code) # post" and ?before = "map join_function (zip pre [0..<length pre])"
  obtain j sv1 where st: "start_join (length pre) req params sv = (j, sv1)" by force
  note new = start_join_new [OF st]
  have "code_keeps (keeps_request j) nm h" using code new by simp
  then have ans: "answers (keeps_request j) (join_prog nm active h j) (unanswered_step j) sv1 (join_answered j)"
    by (rule nest_join_promise) (use new in blast)+
  let ?mark = "upd_join j (\<lambda>x. x\<lparr>jc_delegated := True\<rparr>)"
  let ?handled = "handled (keeps_request j) core_exn ?mark (Act (unanswered_step j)) (join_prog nm active h j) sv1 (join_answered j)"
  obtain sv2 t where sus: "suspended_as (keeps_request j) core_exn ?mark (Act (unanswered_step j)) (join_prog nm active h j) sv1 sv2 t"
      and ran: "\<And>nxt r. mr_state r = sv1 \<Longrightarrow> exec_prog nxt (guard_handler j (?code j)) r
        = (r\<lparr>mr_tasks := mr_tasks r @ [t], mr_state := sv2\<rparr>, None)"
    using exec_promise [of "keeps_request j" core_exn ?mark "Act (unanswered_step j)" "join_prog nm active h j" sv1]
    unfolding guard_handler_def join_code_prog by blast
  have pass: "\<forall>m \<in> set ?before. m req () = pass_on"
    using pre zip_upt_fst by (fastforce simp: join_function_def split: prod.splits)
  have "exec_prog nxt (join_function ((path, ?code), length pre) req ()) r = (r\<lparr>mr_tasks := [t], mr_state := sv2\<rparr>, None)"
    if "mr_state r = sv" "mr_tasks r = []" for nxt r
    using that ran by (simp add: join_function_def match st)
  note executed = mw_run_executed [where m = "join_function ((path, ?code), length pre)" and req = req and res = "()", OF pass this]
  have run: "ep_joinChannel ?auths req sv = (\<lparr>mr_index = Suc (length ?before), mr_tasks = [t], mr_state = sv2,
      mr_called = [0..<Suc (length ?before)], mr_finals = []\<rparr>, None)"
    unfolding ep_joinChannel_def join_functions_split by (rule executed)
  have start: "?handled (fst (ep_joinChannel ?auths req sv))"
    unfolding run fst_conv by (rule suspended_handled [OF ans sus]) simp_all
  have "?handled (foldl (mw_resume (join_stack ?auths req) (join_final req)) (fst (ep_joinChannel ?auths req sv)) events)"
    using others new by (intro handled_run [OF ans start]) simp
  then show ?thesis using new by (auto simp: handled_def join_answered_def Let_def)
qed

text \<open>
  A handler that waits and then returns nothing: while it waits, Ann's socket closes. Bob is
  answered all the same.
\<close>

definition demo_auths :: "auth_handler list" where
  "demo_auths = [(Pattern ''/chat/:id'',
     join_code (Some (nest_handler plain_module None (plain_method (\<lambda>x. Wait (Return None))))))]"

definition demo_schedule :: "server mw_event list" where
  "demo_schedule = [Resume 0, Resume 0, Other (\<lambda>sv. sv\<lparr>sv_open := [8]\<rparr>)] @ replicate 9 (Resume 0)"

theorem nest_join_in_engine_witness:
  "let r = foldl (mw_resume (join_stack demo_auths (demo_request 1)) (join_final (demo_request 1)))
        (fst (ep_joinChannel demo_auths (demo_request 1) demo_server)) demo_schedule
    in mr_finals r = [] \<and> mr_tasks r = [] \<and> jc_executed (jc_get 2 (mr_state r))"
proof -
  have pre: "\<forall>(path, handler) \<in> set []. parseAddress path (jr_channel (demo_request 1)) = Inr None" by simp
  have "parseAddress (Pattern ''/chat/:id'') (jr_channel (demo_request 1)) = Inr (Some \<lparr>ep_params = [(''id'', ''1'')], ep_query = []\<rparr>)"
    by code_simp
  note inst = nest_join_in_engine [OF pre this]
  have "code_keeps (keeps_request (length (sv_joins demo_server))) plain_module (plain_method (\<lambda>x. Wait (Return None)))"
    by (intro plain_code_keeps) simp
  note inst = inst [OF this, where events = demo_schedule and active = None and post = "[]"]
  have "let auths = [] @ (Pattern ''/chat/:id'', join_code (Some (nest_handler plain_module None
          (plain_method (\<lambda>x. Wait (Return None)))))) # [];
        r = foldl (mw_resume (join_stack auths (demo_request 1)) (join_final (demo_request 1)))
          (fst (ep_joinChannel auths (demo_request 1) demo_server)) demo_schedule
      in mr_finals r = [] \<and>
        (mr_tasks r = [] \<longrightarrow> jc_executed (jc_get (length (sv_joins demo_server)) (mr_state r)))"
    by (rule inst) (auto simp: demo_schedule_def keeps_request_def keeps_executed_same)
  note inst = this [unfolded append_Nil demo_auths_def [symmetric]]
  have n: "length (sv_joins demo_server) = 2" by (rule demo_server_parts(3))
  have "length (mr_tasks (foldl (mw_resume (join_stack demo_auths (demo_request 1)) (join_final (demo_request 1)))
        (fst (ep_joinChannel demo_auths (demo_request 1) demo_server)) demo_schedule)) = 0"
    by code_simp
  then show ?thesis using inst by (simp only: Let_def n length_0_conv simp_thms)
qed

end
